(* ===== verification/OS_Prelude.thy ===== *)
theory OS_Prelude
  imports Main "HOL-Library.Word" "HOL-Library.Signed_Division"
begin

text \<open>
  The shared base of the development: the machine types of \<open>types.h\<close>, the byte
  memory in which the C library routines of the kernel run, reference operations on
  regions of that memory (\<open>fill\<close>, \<open>copy\<close>, \<open>bytes\<close>, \<open>str_at\<close>) with their laws, and
  the collections of rewrite rules that the component theories use.
\<close>

unbundle bit_operations_syntax

section \<open>Machine types\<close>

text \<open>\<open>uint8_t\<close>, \<open>uint16_t\<close>, \<open>uint32_t\<close> of \<open>types.h\<close>. A C \<open>int\<close> whose value matters
  only as a number is an \<open>int\<close>; one that is used as an address or compared as unsigned
  is a \<open>u32\<close>.\<close>

type_synonym u8 = "8 word"
type_synonym u16 = "16 word"
type_synonym u32 = "32 word"

text \<open>Byte memory: every 32-bit address holds a byte.\<close>

type_synonym mem = "u32 \<Rightarrow> u8"

named_theorems region_simps \<open>membership of an address in a region\<close>
named_theorems kernel_defs \<open>definitions of the kernel's small operations\<close>

section \<open>Unsigned words\<close>

lemma unat_u32_bound [simp]: "unat (x :: u32) < 4294967296"
  using unsigned_less [of x] by simp

lemma unat_u8_bound [simp]: "unat (x :: u8) < 256"
  using unsigned_less [of x] by simp

lemma unat_inc_less: "i < n \<Longrightarrow> unat (i + 1) = Suc (unat i)" for i n :: u32
proof -
  assume "i < n"
  then have "unat i < unat n" by (simp add: word_less_nat_alt)
  then have "Suc (unat i) < 4294967296" using unat_u32_bound [of n] by linarith
  then show ?thesis by (simp add: unat_word_ariths)
qed

lemma unat_dec: "w \<noteq> 0 \<Longrightarrow> Suc (unat (w - 1)) = unat w" for w :: u32
  by (simp add: unat_minus_one unat_gt_0)

lemma unat_dec_less: "w \<noteq> 0 \<Longrightarrow> unat (w - 1) < unat w" for w :: u32
  by (rule measure_unat)

lemma unat_of_nat_small: "n < 4294967296 \<Longrightarrow> unat (of_nat n :: u32) = n"
  by (simp add: unat_of_nat)

lemma of_nat_u32_inject:
  "i < 4294967296 \<Longrightarrow> j < 4294967296 \<Longrightarrow> (of_nat i = (of_nat j :: u32)) = (i = j)"
  by (metis unat_of_nat_small)

lemma of_int_u32_inject:
  "0 \<le> i \<Longrightarrow> i < 4294967296 \<Longrightarrow> 0 \<le> j \<Longrightarrow> j < 4294967296 \<Longrightarrow> (of_int i = (of_int j :: u32)) = (i = j)"
  using of_nat_u32_inject [of "nat i" "nat j"] by (simp add: nat_eq_iff)

lemma of_nat_div_u32: "n < 4294967296 \<Longrightarrow> of_nat (unat x div n) = (x div of_nat n :: u32)"
proof -
  assume "n < 4294967296"
  moreover have "unat x div n < 4294967296"
    using unat_u32_bound [of x] by (metis div_le_dividend le_less_trans)
  ultimately show ?thesis by (simp add: word_unat_eq_iff unat_div unat_of_nat_small)
qed

lemma of_nat_mod_u32: "n < 4294967296 \<Longrightarrow> of_nat (unat x mod n) = (x mod of_nat n :: u32)"
proof -
  assume "n < 4294967296"
  moreover have "unat x mod n < 4294967296"
    using unat_u32_bound [of x] by (metis mod_less_eq_dividend le_less_trans)
  ultimately show ?thesis by (simp add: word_unat_eq_iff unat_mod unat_of_nat_small)
qed

text \<open>C's division truncates; on non-negative numbers it is the mathematical one.\<close>

lemma sdiv_nonneg: "0 \<le> a \<Longrightarrow> 0 < b \<Longrightarrow> a sdiv b = a div b" for a b :: int
  by (cases "a = 0") (simp_all add: signed_divide_int_def)

lemma smod_nonneg: "0 \<le> a \<Longrightarrow> 0 < b \<Longrightarrow> a smod b = a mod b" for a b :: int
proof -
  assume ab: "0 \<le> a" "0 < b"
  have "a smod b = a - a sdiv b * b" by (rule minus_sdiv_mult_eq_smod [symmetric])
  also have "\<dots> = a mod b" using ab by (simp add: sdiv_nonneg minus_div_mult_eq_mod)
  finally show ?thesis .
qed

section \<open>Regions\<close>

text \<open>\<open>unat (a - b)\<close> is the offset of the address \<open>a\<close> from \<open>b\<close>, counted upwards with
  wrap-around; \<open>a\<close> is one of the \<open>n\<close> addresses from \<open>b\<close> on exactly when it is below \<open>n\<close>.\<close>

definition in_region :: "u32 \<Rightarrow> u32 \<Rightarrow> nat \<Rightarrow> bool" where
  "in_region a b n \<longleftrightarrow> unat (a - b) < n"

definition disjoint_regions :: "u32 \<Rightarrow> nat \<Rightarrow> u32 \<Rightarrow> nat \<Rightarrow> bool" where
  "disjoint_regions a n b k \<longleftrightarrow> unat (b - a) \<ge> n \<and> unat (a - b) \<ge> k"

lemma offset_self [simp]: "unat (a - a :: u32) = 0"
  by simp

lemma offset_Suc: "a \<noteq> d \<Longrightarrow> unat (a - d) = Suc (unat (a - (d + 1)))" for a d :: u32
proof -
  assume "a \<noteq> d"
  then have "a - d \<noteq> 0" by simp
  from unat_dec [OF this] show ?thesis by (simp add: algebra_simps)
qed

lemma unat_neg1 [simp]: "unat (- 1 :: u32) = 4294967295"
  by (simp add: unsigned_minus_1_eq_mask mask_eq_exp_minus_1)

lemma offset_of_nat [simp]: "n < 4294967296 \<Longrightarrow> unat (a + of_nat n - a :: u32) = n"
  by (simp add: unat_of_nat)

lemma offset_eq: "a + of_nat (unat (b - a)) = (b :: u32)"
  by simp

lemma offset_inject: "(unat (a - b) = unat (x - b :: u32)) = (a = x)"
  by (metis diff_add_cancel word_unat_eq_iff)

lemma in_region_0 [simp]: "\<not> in_region a b 0"
  by (simp add: in_region_def)

lemma in_region_Suc:
  "Suc n \<le> 4294967296 \<Longrightarrow> in_region a b (Suc n) = (a = b \<or> in_region a (b + 1) n)"
  unfolding in_region_def
  by (cases "a = b") (auto simp: offset_Suc [of a b])

lemma in_region_start: "n < 4294967296 \<Longrightarrow> \<not> in_region b (b + 1) n"
  by (simp add: in_region_def)

lemma in_region_add: "i < n \<Longrightarrow> n \<le> 4294967296 \<Longrightarrow> in_region (a + of_nat i) a n"
  by (simp add: in_region_def unat_of_nat_small)

lemma in_regionE:
  assumes "in_region a b n"
  obtains i where "i < n" and "a = b + of_nat i"
  using assms by (auto simp: in_region_def intro!: that [of "unat (a - b)"])

text \<open>Two regions that are disjoint in the sense above share no address.\<close>

lemma disjoint_regions_sym: "disjoint_regions a n b k = disjoint_regions b k a n"
  by (auto simp: disjoint_regions_def)

lemma disjoint_regions_not_in:
  assumes "disjoint_regions a n b k" and "in_region x a n"
  shows "\<not> in_region x b k"
proof
  assume "in_region x b k"
  then have k: "unat (x - b) < k" by (simp add: in_region_def)
  from assms(2) have n: "unat (x - a) < n" by (simp add: in_region_def)
  from assms(1) have d: "unat (b - a) \<ge> n" "unat (a - b) \<ge> k"
    by (simp_all add: disjoint_regions_def)
  show False
  proof (cases "unat (x - a) \<le> unat (x - b)")
    case True
    have "x - b - (x - a) = a - b" by simp
    then have "unat (a - b) = unat (x - b) - unat (x - a)"
      using True unat_sub [of "x - a" "x - b"] by (simp add: word_le_nat_alt)
    with k d show False by linarith
  next
    case False
    have "x - a - (x - b) = b - a" by simp
    then have "unat (b - a) = unat (x - a) - unat (x - b)"
      using False unat_sub [of "x - b" "x - a"] by (simp add: word_le_nat_alt)
    with n d show False by linarith
  qed
qed

section \<open>Reference operations on memory\<close>

definition fill :: "mem \<Rightarrow> u32 \<Rightarrow> nat \<Rightarrow> u8 \<Rightarrow> mem" where
  "fill m d n v = (\<lambda>a. if in_region a d n then v else m a)"

definition copy :: "mem \<Rightarrow> u32 \<Rightarrow> u32 \<Rightarrow> nat \<Rightarrow> mem" where
  "copy m d s n = (\<lambda>a. if in_region a d n then m (s + (a - d)) else m a)"

lemma fill_0 [simp]: "fill m d 0 v = m"
  by (simp add: fill_def)

lemma fill_Suc: "Suc n \<le> 4294967296 \<Longrightarrow> fill (m(d := v)) (d + 1) n v = fill m d (Suc n) v"
  by (auto simp: fill_def in_region_Suc fun_eq_iff)

lemma copy_0 [simp]: "copy m d s 0 = m"
  by (simp add: copy_def)

text \<open>One byte copied at the low end, then the rest: correct when the destination does not
  start inside the source region, or is the source itself.\<close>

lemma copy_Suc:
  assumes n: "Suc n \<le> 4294967296" and sep: "unat (d - s) \<ge> Suc n \<or> d = s"
  shows "copy (m(d := m s)) (d + 1) (s + 1) n = copy m d s (Suc n)"
proof
  fix a
  show "copy (m(d := m s)) (d + 1) (s + 1) n a = copy m d s (Suc n) a"
  proof (cases "a = d")
    case True
    with n show ?thesis by (simp add: copy_def in_region_start in_region_Suc)
  next
    case False
    then have off: "unat (a - d) = Suc (unat (a - (d + 1)))" by (rule offset_Suc)
    show ?thesis
    proof (cases "in_region a (d + 1) n")
      case True
      have eq: "s + 1 + (a - (d + 1)) = s + (a - d)" by (simp add: algebra_simps)
      have "s + (a - d) \<noteq> d \<or> d = s"
      proof (cases "d = s")
        case False
        with sep have le: "unat (d - s) \<ge> Suc n" by simp
        have "unat (a - d) < Suc n" using True off by (simp add: in_region_def)
        with le have "a - d \<noteq> d - s" by auto
        then show ?thesis by (metis add_diff_cancel_left')
      qed simp
      then show ?thesis using True False n eq
        by (auto simp: copy_def in_region_Suc)
    next
      case notin: False
      with False n show ?thesis by (simp add: copy_def in_region_Suc)
    qed
  qed
qed

lemma fill_dec: "n \<noteq> 0 \<Longrightarrow> fill (m(d := v)) (d + 1) (unat (n - 1)) v = fill m d (unat n) v"
  for n :: u32
  using fill_Suc [of "unat (n - 1)" m d v] unat_dec [of n] unat_u32_bound [of n] by simp

lemma copy_dec:
  "n \<noteq> 0 \<Longrightarrow> unat (d - s) \<ge> unat n \<or> d = s \<Longrightarrow>
   copy (m(d := m s)) (d + 1) (s + 1) (unat (n - 1)) = copy m d s (unat n)"
  for n :: u32
  using copy_Suc [of "unat (n - 1)" d s m] unat_dec [of n] unat_u32_bound [of n] by simp

text \<open>A region filled with a pattern: the byte at offset \<open>i\<close> is \<open>f i\<close>.\<close>

definition fill_with :: "mem \<Rightarrow> u32 \<Rightarrow> nat \<Rightarrow> (nat \<Rightarrow> u8) \<Rightarrow> mem" where
  "fill_with m d n f = (\<lambda>a. if in_region a d n then f (unat (a - d)) else m a)"

lemma fill_with_0 [simp]: "fill_with m d 0 f = m"
  by (simp add: fill_with_def)

lemma fill_with_Suc:
  "Suc n \<le> 4294967296 \<Longrightarrow>
   fill_with (m(d := f 0)) (d + 1) n (\<lambda>i. f (Suc i)) = fill_with m d (Suc n) f"
proof
  fix a
  assume n: "Suc n \<le> 4294967296"
  show "fill_with (m(d := f 0)) (d + 1) n (\<lambda>i. f (Suc i)) a = fill_with m d (Suc n) f a"
    using n by (cases "a = d") (simp_all add: fill_with_def in_region_Suc in_region_start offset_Suc)
qed

lemma fill_with_cong: "(\<And>i. i < n \<Longrightarrow> f i = g i) \<Longrightarrow> fill_with m d n f = fill_with m d n g"
  by (simp add: fill_with_def in_region_def fun_eq_iff)

text \<open>Adjacent regions: filling or copying a region in two parts.\<close>

lemma fill_append:
  "k + n \<le> 4294967296 \<Longrightarrow> fill (fill m d k v) (d + of_nat k) n v = fill m d (k + n) v"
proof (induction k arbitrary: m d)
  case (Suc k)
  have "fill (fill m d (Suc k) v) (d + of_nat (Suc k)) n v
      = fill (fill (m(d := v)) (d + 1) k v) (d + 1 + of_nat k) n v"
    using Suc.prems by (simp add: fill_Suc [symmetric] algebra_simps)
  also have "\<dots> = fill (m(d := v)) (d + 1) (k + n) v"
    using Suc by simp
  also have "\<dots> = fill m d (Suc k + n) v"
    using Suc.prems by (simp add: fill_Suc)
  finally show ?case .
qed simp

lemma copy_append:
  "k + n \<le> 4294967296 \<Longrightarrow> unat (d - s) \<ge> k + n \<or> d = s \<Longrightarrow>
   copy (copy m d s k) (d + of_nat k) (s + of_nat k) n = copy m d s (k + n)"
proof (induction k arbitrary: m d s)
  case (Suc k)
  have sep: "unat (d + 1 - (s + 1)) \<ge> k + n \<or> d + 1 = s + 1"
    using Suc.prems by auto
  have sep1: "unat (d - s) \<ge> Suc k \<or> d = s" "unat (d - s) \<ge> Suc (k + n) \<or> d = s"
    using Suc.prems by auto
  have "copy (copy m d s (Suc k)) (d + of_nat (Suc k)) (s + of_nat (Suc k)) n
      = copy (copy (m(d := m s)) (d + 1) (s + 1) k) (d + 1 + of_nat k) (s + 1 + of_nat k) n"
    using Suc.prems sep1 by (simp add: copy_Suc [symmetric] algebra_simps)
  also have "\<dots> = copy (m(d := m s)) (d + 1) (s + 1) (k + n)"
    using Suc.prems(1) by (intro Suc.IH sep) simp
  also have "\<dots> = copy m d s (Suc k + n)"
    using Suc.prems sep1 by (simp add: copy_Suc)
  finally show ?case .
qed simp

text \<open>One byte copied at the high end first: correct when the source does not start
  inside the destination region.\<close>

lemma copy_top:
  assumes n: "Suc n \<le> 4294967296" and sep: "unat (s - d) \<ge> Suc n"
  shows "copy (m(d + of_nat n := m (s + of_nat n))) d s n = copy m d s (Suc n)"
proof
  fix a
  show "copy (m(d + of_nat n := m (s + of_nat n))) d s n a = copy m d s (Suc n) a"
  proof (cases "unat (a - d) < n")
    case True
    have "s + (a - d) \<noteq> d + of_nat n"
    proof
      assume eq: "s + (a - d) = d + of_nat n"
      have "s - d = s + (a - d) - (a - d) - d" by simp
      also have "\<dots> = d + of_nat n - (a - d) - d" by (simp only: eq)
      also have "\<dots> = of_nat n - (a - d)" by simp
      finally have "unat (s - d) = unat (of_nat n - (a - d) :: u32)" by (rule arg_cong)
      also have "\<dots> = n - unat (a - d)"
        using True n by (subst unat_sub) (simp_all add: word_le_nat_alt unat_of_nat_small)
      finally show False using sep by linarith
    qed
    with True show ?thesis by (auto simp: copy_def in_region_def)
  next
    case False
    show ?thesis
    proof (cases "unat (a - d) = n")
      case True
      then have "a = d + of_nat n" by (metis offset_eq)
      with n show ?thesis by (simp add: copy_def in_region_def unat_of_nat_small)
    next
      case neq: False
      with False have "a \<noteq> d + of_nat n" using n by (auto simp: unat_of_nat_small)
      with False neq show ?thesis by (simp add: copy_def in_region_def)
    qed
  qed
qed

section \<open>Byte sequences and NUL-terminated strings in memory\<close>

primrec bytes :: "mem \<Rightarrow> u32 \<Rightarrow> nat \<Rightarrow> u8 list" where
  "bytes m a 0 = []"
| "bytes m a (Suc n) = m a # bytes m (a + 1) n"

primrec store_bytes :: "mem \<Rightarrow> u32 \<Rightarrow> u8 list \<Rightarrow> mem" where
  "store_bytes m a [] = m"
| "store_bytes m a (x # xs) = store_bytes (m(a := x)) (a + 1) xs"

definition str_at :: "mem \<Rightarrow> u32 \<Rightarrow> u8 list \<Rightarrow> bool" where
  "str_at m a xs \<longleftrightarrow>
     bytes m a (length xs) = xs \<and> m (a + of_nat (length xs)) = 0 \<and> 0 \<notin> set xs"

lemma str_at_Nil: "str_at m a [] = (m a = 0)"
  by (simp add: str_at_def)

lemma str_at_Cons: "str_at m a (x # xs) = (m a = x \<and> x \<noteq> 0 \<and> str_at m (a + 1) xs)"
  by (auto simp: str_at_def add.assoc)

lemma length_bytes [simp]: "length (bytes m a n) = n"
  by (induction n arbitrary: a) auto

lemma nth_bytes: "i < n \<Longrightarrow> bytes m a n ! i = m (a + of_nat i)"
proof (induction n arbitrary: a i)
  case (Suc n)
  then show ?case by (cases i) (auto simp: algebra_simps)
qed simp

lemma bytes_3: "bytes m a 3 = [m a, m (a + 1), m (a + 2)]"
  by (simp add: numeral_nat add.assoc)

lemma bytes_4: "bytes m a 4 = [m a, m (a + 1), m (a + 2), m (a + 3)]"
  by (simp add: numeral_nat add.assoc)

lemma replicate_two: "replicate 2 x = [x, x]"
  by (simp add: numeral_2_eq_2)

lemma bytes_eq_iff: "(bytes m a n = xs) = (length xs = n \<and> (\<forall>i<n. m (a + of_nat i) = xs ! i))"
  by (auto simp: list_eq_iff_nth_eq nth_bytes)

lemma bytes_cong: "(\<And>i. i < n \<Longrightarrow> m (a + of_nat i) = m' (a + of_nat i)) \<Longrightarrow> bytes m a n = bytes m' a n"
  by (simp add: list_eq_iff_nth_eq nth_bytes)

lemma bytes_copy: "n \<le> 4294967296 \<Longrightarrow> bytes (copy m d s n) d n = bytes m s n"
  by (simp add: list_eq_iff_nth_eq nth_bytes copy_def in_region_add)

lemma bytes_fill: "n \<le> 4294967296 \<Longrightarrow> bytes (fill m d n v) d n = replicate n v"
  by (simp add: list_eq_iff_nth_eq nth_bytes fill_def in_region_add)

lemma copy_outside: "\<not> in_region a d n \<Longrightarrow> copy m d s n a = m a"
  by (simp add: copy_def)

lemma fill_outside: "\<not> in_region a d n \<Longrightarrow> fill m d n v a = m a"
  by (simp add: fill_def)

lemma store_bytes_outside:
  "\<not> in_region a d (length xs) \<Longrightarrow> length xs \<le> 4294967296 \<Longrightarrow> store_bytes m d xs a = m a"
proof (induction xs arbitrary: m d)
  case (Cons x xs)
  then show ?case by (simp add: in_region_Suc)
qed simp

lemma bytes_store_bytes: "length xs \<le> 4294967296 \<Longrightarrow> bytes (store_bytes m d xs) d (length xs) = xs"
proof (induction xs arbitrary: m d)
  case (Cons x xs)
  then show ?case by (simp add: store_bytes_outside in_region_start)
qed simp

section \<open>32-bit loads and stores, little endian\<close>

definition load32 :: "mem \<Rightarrow> u32 \<Rightarrow> u32" where
  "load32 m a = ucast (m a) OR push_bit 8 (ucast (m (a + 1)))
     OR push_bit 16 (ucast (m (a + 2))) OR push_bit 24 (ucast (m (a + 3)))"

definition store32 :: "mem \<Rightarrow> u32 \<Rightarrow> u32 \<Rightarrow> mem" where
  "store32 m a w = m(a := ucast w, a + 1 := ucast (drop_bit 8 w),
     a + 2 := ucast (drop_bit 16 w), a + 3 := ucast (drop_bit 24 w))"

text \<open>A 32-bit load read as a C \<open>int\<close>.\<close>

definition load_int :: "mem \<Rightarrow> u32 \<Rightarrow> int" where
  "load_int m a = sint (load32 m a)"

lemma load32_cong:
  "m a = m' a \<Longrightarrow> m (a + 1) = m' (a + 1) \<Longrightarrow> m (a + 2) = m' (a + 2) \<Longrightarrow> m (a + 3) = m' (a + 3)
    \<Longrightarrow> load32 m a = load32 m' a"
  by (simp add: load32_def)

lemma load32_store32 [simp]: "load32 (store32 m a w) a = w"
proof (rule bit_word_eqI)
  fix n
  assume "n < LENGTH(32)"
  then consider "n < 8" | "8 \<le> n" "n < 16" | "16 \<le> n" "n < 24" | "24 \<le> n" "n < 32"
    by fastforce
  then show "bit (load32 (store32 m a w) a) n = bit w n"
    by cases (auto simp: load32_def store32_def bit_or_iff bit_push_bit_iff bit_ucast_iff
        bit_drop_bit_eq)
qed

lemma ucast_load32 [simp]:
  "ucast (load32 m a) = m a"
  "ucast (drop_bit 8 (load32 m a)) = m (a + 1)"
  "ucast (drop_bit 16 (load32 m a)) = m (a + 2)"
  "ucast (drop_bit 24 (load32 m a)) = m (a + 3)"
  by (rule bit_word_eqI; auto simp: load32_def bit_or_iff bit_push_bit_iff bit_ucast_iff
        bit_drop_bit_eq dest: bit_imp_le_length)+

lemma in_region_4: "in_region x a 4 = (x = a \<or> x = a + 1 \<or> x = a + 2 \<or> x = a + 3)"
proof -
  have "in_region x a (Suc (Suc (Suc (Suc 0)))) = (x = a \<or> x = a + 1 \<or> x = a + 2 \<or> x = a + 3)"
    by (simp add: in_region_Suc add.assoc)
  then show ?thesis by (simp add: eval_nat_numeral)
qed

text \<open>A 32-bit move copies four bytes, whatever the overlap: it reads all four first.\<close>

lemma store32_load32: "store32 m d (load32 m s) = copy m d s 4"
proof
  fix a
  consider "a = d" | "a = d + 1" | "a = d + 2" | "a = d + 3" | "\<not> in_region a d 4"
    by (auto simp: in_region_4)
  then show "store32 m d (load32 m s) a = copy m d s 4 a"
    by cases (simp_all add: store32_def copy_def in_region_4)
qed

text \<open>A 32-bit store of one byte repeated four times.\<close>

lemma store32_fill:
  assumes "ucast w = v" "ucast (drop_bit 8 w) = v" "ucast (drop_bit 16 w) = v"
    "ucast (drop_bit 24 w) = v"
  shows "store32 m d w = fill m d 4 v"
proof
  fix a
  consider "a = d" | "a = d + 1" | "a = d + 2" | "a = d + 3" | "\<not> in_region a d 4"
    by (auto simp: in_region_4)
  then show "store32 m d w a = fill m d 4 v a"
    by cases (simp_all add: assms store32_def fill_def in_region_4)
qed

lemma store32_outside: "\<not> in_region x a 4 \<Longrightarrow> store32 m a w x = m x"
  by (auto simp: store32_def in_region_def)

end
