(* ===== verification/Lib_Mem.thy ===== *)
theory Lib_Mem
  imports OS_Prelude
begin

text \<open>
  The memory routines of \<open>student-distrib/lib.c\<close>: \<open>memset\<close>, \<open>memset_word\<close>,
  \<open>memset_dword\<close>, \<open>memcpy\<close> and \<open>memmove\<close>. Each is an inline assembly fragment; the
  model keeps its registers (\<open>eax\<close>, \<open>edi\<close>, \<open>esi\<close>, \<open>ecx\<close>, \<open>edx\<close>), its labels (one
  function per loop) and the direction flag where a string instruction depends on it.
\<close>

section \<open>String instructions\<close>

text \<open>\<open>rep stosl\<close> with the direction flag clear.\<close>

function rep_stosl :: "mem \<Rightarrow> u32 \<Rightarrow> u32 \<Rightarrow> u32 \<Rightarrow> mem \<times> u32" where
  "rep_stosl m eax edi ecx =
     (if ecx = 0 then (m, edi) else rep_stosl (store32 m edi eax) eax (edi + 4) (ecx - 1))"
  by pat_completeness auto
termination by (relation "measure (\<lambda>(m, eax, edi, ecx). unat ecx)") (auto simp: unat_dec_less)

text \<open>\<open>rep stosw\<close>: the low half of \<open>eax\<close>.\<close>

function rep_stosw :: "mem \<Rightarrow> u32 \<Rightarrow> u32 \<Rightarrow> u32 \<Rightarrow> mem" where
  "rep_stosw m eax edi ecx =
     (if ecx = 0 then m
      else rep_stosw (m(edi := ucast eax, edi + 1 := ucast (drop_bit 8 eax))) eax (edi + 2) (ecx - 1))"
  by pat_completeness auto
termination by (relation "measure (\<lambda>(m, eax, edi, ecx). unat ecx)") (auto simp: unat_dec_less)

text \<open>\<open>rep movsl\<close> with the direction flag clear.\<close>

function rep_movsl :: "mem \<Rightarrow> u32 \<Rightarrow> u32 \<Rightarrow> u32 \<Rightarrow> mem \<times> u32 \<times> u32" where
  "rep_movsl m edi esi ecx =
     (if ecx = 0 then (m, edi, esi)
      else rep_movsl (store32 m edi (load32 m esi)) (edi + 4) (esi + 4) (ecx - 1))"
  by pat_completeness auto
termination by (relation "measure (\<lambda>(m, edi, esi, ecx). unat ecx)") (auto simp: unat_dec_less)

text \<open>\<open>rep movsb\<close>: upwards when the direction flag is clear, downwards when it is set.\<close>

function rep_movsb :: "bool \<Rightarrow> mem \<Rightarrow> u32 \<Rightarrow> u32 \<Rightarrow> u32 \<Rightarrow> mem" where
  "rep_movsb df m edi esi ecx =
     (if ecx = 0 then m
      else if df then rep_movsb df (m(edi := m esi)) (edi - 1) (esi - 1) (ecx - 1)
      else rep_movsb df (m(edi := m esi)) (edi + 1) (esi + 1) (ecx - 1))"
  by pat_completeness auto
termination by (relation "measure (\<lambda>(df, m, edi, esi, ecx). unat ecx)") (auto simp: unat_dec_less)

declare rep_stosl.simps [simp del] rep_stosw.simps [simp del] rep_movsl.simps [simp del]
  rep_movsb.simps [simp del]

section \<open>memset\<close>

text \<open>\<open>.memset_bottom\<close>: the last bytes, one at a time.\<close>

function memset_bottom :: "mem \<Rightarrow> u32 \<Rightarrow> u32 \<Rightarrow> u32 \<Rightarrow> mem" where
  "memset_bottom m eax edi edx =
     (if edx = 0 then m else memset_bottom (m(edi := ucast eax)) eax (edi + 1) (edx - 1))"
  by pat_completeness auto
termination by (relation "measure (\<lambda>(m, eax, edi, edx). unat edx)") (auto simp: unat_dec_less)

text \<open>\<open>.memset_top\<close>: bytes up to a 4-byte boundary, then \<open>.memset_aligned\<close>.\<close>

function memset_top :: "mem \<Rightarrow> u32 \<Rightarrow> u32 \<Rightarrow> u32 \<Rightarrow> mem" where
  "memset_top m eax edi ecx =
     (if ecx = 0 then m
      else if edi AND 3 = 0 then
        (case rep_stosl m eax edi (drop_bit 2 ecx) of
           (m', edi') \<Rightarrow> memset_bottom m' eax edi' (ecx AND 3))
      else memset_top (m(edi := ucast eax)) eax (edi + 1) (ecx - 1))"
  by pat_completeness auto
termination by (relation "measure (\<lambda>(m, eax, edi, ecx). unat ecx)") (auto simp: unat_dec_less)

declare memset_bottom.simps [simp del] memset_top.simps [simp del]

definition memset :: "mem \<Rightarrow> u32 \<Rightarrow> u32 \<Rightarrow> u32 \<Rightarrow> mem" where
  "memset m s c n =
     (let c = c AND 0xFF
      in memset_top m (push_bit 24 c OR push_bit 16 c OR push_bit 8 c OR c) s n)"

definition memset_word :: "mem \<Rightarrow> u32 \<Rightarrow> u32 \<Rightarrow> u32 \<Rightarrow> mem" where
  "memset_word m s c n = rep_stosw m c s n"

definition memset_dword :: "mem \<Rightarrow> u32 \<Rightarrow> u32 \<Rightarrow> u32 \<Rightarrow> mem" where
  "memset_dword m s c n = fst (rep_stosl m c s n)"

section \<open>memcpy and memmove\<close>

function memcpy_bottom :: "mem \<Rightarrow> u32 \<Rightarrow> u32 \<Rightarrow> u32 \<Rightarrow> mem" where
  "memcpy_bottom m edi esi edx =
     (if edx = 0 then m else memcpy_bottom (m(edi := m esi)) (edi + 1) (esi + 1) (edx - 1))"
  by pat_completeness auto
termination by (relation "measure (\<lambda>(m, edi, esi, edx). unat edx)") (auto simp: unat_dec_less)

function memcpy_top :: "mem \<Rightarrow> u32 \<Rightarrow> u32 \<Rightarrow> u32 \<Rightarrow> mem" where
  "memcpy_top m edi esi ecx =
     (if ecx = 0 then m
      else if edi AND 3 = 0 then
        (case rep_movsl m edi esi (drop_bit 2 ecx) of
           (m', edi', esi') \<Rightarrow> memcpy_bottom m' edi' esi' (ecx AND 3))
      else memcpy_top (m(edi := m esi)) (edi + 1) (esi + 1) (ecx - 1))"
  by pat_completeness auto
termination by (relation "measure (\<lambda>(m, edi, esi, ecx). unat ecx)") (auto simp: unat_dec_less)

declare memcpy_bottom.simps [simp del] memcpy_top.simps [simp del]

definition memcpy :: "mem \<Rightarrow> u32 \<Rightarrow> u32 \<Rightarrow> u32 \<Rightarrow> mem" where
  "memcpy m dest src n = memcpy_top m dest src n"

text \<open>\<open>memmove\<close> copies upwards when \<open>src \<ge> dest\<close> (\<open>jae\<close>), otherwise it moves both
  pointers to the last byte, sets the direction flag (\<open>std\<close>) and copies downwards. The
  second component is the direction flag on return: the routine never clears it again.\<close>

definition memmove :: "mem \<Rightarrow> u32 \<Rightarrow> u32 \<Rightarrow> u32 \<Rightarrow> mem \<times> bool" where
  "memmove m dest src n =
     (if src \<ge> dest then (rep_movsb False m dest src n, False)
      else (rep_movsb True m (dest + n - 1) (src + n - 1) n, True))"

section \<open>Correctness of memset\<close>

lemma u32_split4: "unat (n :: u32) = 4 * unat (drop_bit 2 n) + unat (n AND 3)"
proof -
  have "unat (n AND 3) = take_bit 2 (unat n)"
    by (simp add: unsigned_and_eq take_bit_eq_mask mask_eq_exp_minus_1 flip: numeral_3_eq_3)
  then have "unat (n AND 3) = unat n mod 4" by (simp add: take_bit_eq_mod)
  moreover have "unat (drop_bit 2 n) = unat n div 4"
    by (simp only: unat_drop_bit_eq) (simp add: drop_bit_eq_div)
  ultimately show ?thesis by simp
qed

lemma memset_bottom_fill:
  "memset_bottom m eax edi edx = fill m edi (unat edx) (ucast eax)"
proof (induction m eax edi edx rule: memset_bottom.induct)
  case (1 m eax edi edx)
  show ?case
  proof (cases "edx = 0")
    case False
    with 1 show ?thesis
      by (simp add: memset_bottom.simps [of m eax edi edx] fill_dec del: fun_upd_apply)
  qed (simp add: memset_bottom.simps)
qed

lemma rep_stosl_fill:
  assumes "\<And>m d. store32 m d eax = fill m d 4 v"
  shows "4 * unat ecx \<le> 4294967296 \<Longrightarrow>
    rep_stosl m eax edi ecx = (fill m edi (4 * unat ecx) v, edi + 4 * ecx)"
proof (induction "unat ecx" arbitrary: m edi ecx)
  case 0
  then have "ecx = 0" by (simp add: unat_eq_0)
  then show ?case by (simp add: rep_stosl.simps)
next
  case (Suc k)
  then have nz: "ecx \<noteq> 0" by auto
  then have k: "k = unat (ecx - 1)" using Suc.hyps(2) unat_dec [of ecx] by simp
  have "rep_stosl m eax edi ecx = rep_stosl (fill m edi 4 v) eax (edi + 4) (ecx - 1)"
    using nz assms by (simp add: rep_stosl.simps [of m eax edi ecx])
  also have "\<dots> = (fill (fill m edi 4 v) (edi + 4) (4 * k) v, edi + 4 + 4 * (ecx - 1))"
    using Suc.prems Suc.hyps(2) by (subst Suc.hyps(1) [OF k]) (simp_all add: k)
  also have "fill (fill m edi 4 v) (edi + 4) (4 * k) v = fill m edi (4 + 4 * k) v"
    using fill_append [of 4 "4 * k" m edi v] Suc.prems Suc.hyps(2) by simp
  finally show ?case by (simp add: algebra_simps flip: Suc.hyps(2))
qed

lemma memset_top_fill:
  assumes quad: "\<And>m d. store32 m d eax = fill m d 4 (ucast eax)"
  shows "memset_top m eax edi ecx = fill m edi (unat ecx) (ucast eax)"
proof (induction "unat ecx" arbitrary: m edi ecx)
  case 0
  then have "ecx = 0" by (simp add: unat_eq_0)
  then show ?case by (simp add: memset_top.simps)
next
  case (Suc k)
  then have nz: "ecx \<noteq> 0" by auto
  then have k: "k = unat (ecx - 1)" using Suc.hyps(2) unat_dec [of ecx] by simp
  show ?case
  proof (cases "edi AND 3 = 0")
    case False
    with nz show ?thesis
      by (simp add: memset_top.simps [of m eax edi ecx] Suc.hyps(1) [OF k] fill_dec
          del: fun_upd_apply)
  next
    case True
    let ?q = "drop_bit 2 ecx"
    have split: "unat ecx = 4 * unat ?q + unat (ecx AND 3)" by (rule u32_split4)
    then have le: "4 * unat ?q + unat (ecx AND 3) \<le> 4294967296"
      using unat_u32_bound [of ecx] by linarith
    then have rep: "rep_stosl m eax edi ?q = (fill m edi (4 * unat ?q) (ucast eax), edi + 4 * ?q)"
      by (intro rep_stosl_fill quad) simp
    have ptr: "edi + 4 * ?q = edi + of_nat (4 * unat ?q)" by simp
    have "memset_top m eax edi ecx
        = memset_bottom (fill m edi (4 * unat ?q) (ucast eax)) eax (edi + 4 * ?q) (ecx AND 3)"
      unfolding memset_top.simps [of m eax edi ecx] rep using True nz by simp
    also have "\<dots> = fill (fill m edi (4 * unat ?q) (ucast eax)) (edi + 4 * ?q)
        (unat (ecx AND 3)) (ucast eax)"
      by (rule memset_bottom_fill)
    also have "\<dots> = fill m edi (unat ecx) (ucast eax)"
      unfolding ptr split using le by (rule fill_append)
    finally show ?thesis .
  qed
qed

text \<open>The pattern that \<open>memset\<close> loads into \<open>eax\<close> holds the byte four times.\<close>

lemma memset_pattern:
  fixes c :: u32
  defines "e \<equiv> push_bit 24 (c AND 0xFF) OR push_bit 16 (c AND 0xFF) OR push_bit 8 (c AND 0xFF)
    OR (c AND 0xFF)"
  shows "ucast e = (ucast c :: u8)" and "ucast (drop_bit 8 e) = (ucast c :: u8)"
    and "ucast (drop_bit 16 e) = (ucast c :: u8)" and "ucast (drop_bit 24 e) = (ucast c :: u8)"
proof -
  have low: "c AND 0xFF = take_bit 8 c" by (simp add: take_bit_eq_mask mask_eq_exp_minus_1)
  show "ucast e = (ucast c :: u8)"
    unfolding e_def low
    by (rule bit_word_eqI) (auto simp: bit_or_iff bit_push_bit_iff bit_ucast_iff bit_take_bit_iff)
  show "ucast (drop_bit 8 e) = (ucast c :: u8)"
    unfolding e_def low
    by (rule bit_word_eqI)
      (auto simp: bit_or_iff bit_push_bit_iff bit_ucast_iff bit_take_bit_iff bit_drop_bit_eq)
  show "ucast (drop_bit 16 e) = (ucast c :: u8)"
    unfolding e_def low
    by (rule bit_word_eqI)
      (auto simp: bit_or_iff bit_push_bit_iff bit_ucast_iff bit_take_bit_iff bit_drop_bit_eq)
  show "ucast (drop_bit 24 e) = (ucast c :: u8)"
    unfolding e_def low
    by (rule bit_word_eqI)
      (auto simp: bit_or_iff bit_push_bit_iff bit_ucast_iff bit_take_bit_iff bit_drop_bit_eq)
qed

lemma memset_eq_fill: "memset m s c n = fill m s (unat n) (ucast c)"
proof -
  note p = memset_pattern [of c]
  let ?e = "push_bit 24 (c AND 0xFF) OR push_bit 16 (c AND 0xFF) OR push_bit 8 (c AND 0xFF)
    OR (c AND 0xFF)"
  have "store32 m d ?e = fill m d 4 (ucast c)" for m d
    by (rule store32_fill) (rule p)+
  then have "memset_top m ?e s n = fill m s (unat n) (ucast c)"
    using memset_top_fill [of ?e] p(1) by simp
  then show ?thesis by (simp add: memset_def Let_def)
qed

section \<open>Correctness of memcpy\<close>

lemma memcpy_bottom_copy:
  "unat (edi - esi) \<ge> unat edx \<or> edi = esi \<Longrightarrow>
   memcpy_bottom m edi esi edx = copy m edi esi (unat edx)"
proof (induction "unat edx" arbitrary: m edi esi edx)
  case 0
  then have "edx = 0" by (simp add: unat_eq_0)
  then show ?case by (simp add: memcpy_bottom.simps)
next
  case (Suc k)
  then have nz: "edx \<noteq> 0" by auto
  then have k: "k = unat (edx - 1)" using Suc.hyps(2) unat_dec [of edx] by simp
  have sep: "unat (edi + 1 - (esi + 1)) \<ge> unat (edx - 1) \<or> edi + 1 = esi + 1"
    using Suc.prems Suc.hyps(2) k by auto
  show ?case
    using nz copy_dec [OF nz Suc.prems]
    by (simp add: memcpy_bottom.simps [of m edi esi edx] Suc.hyps(1) [OF k sep]
        del: fun_upd_apply)
qed

lemma rep_movsl_copy:
  "unat (edi - esi) \<ge> 4 * unat ecx \<or> edi = esi \<Longrightarrow> 4 * unat ecx \<le> 4294967296 \<Longrightarrow>
   rep_movsl m edi esi ecx = (copy m edi esi (4 * unat ecx), edi + 4 * ecx, esi + 4 * ecx)"
proof (induction "unat ecx" arbitrary: m edi esi ecx)
  case 0
  then have "ecx = 0" by (simp add: unat_eq_0)
  then show ?case by (simp add: rep_movsl.simps)
next
  case (Suc k)
  then have nz: "ecx \<noteq> 0" by auto
  then have k: "k = unat (ecx - 1)" using Suc.hyps(2) unat_dec [of ecx] by simp
  have sep: "unat (edi + 4 - (esi + 4)) \<ge> 4 * unat (ecx - 1) \<or> edi + 4 = esi + 4"
    and le: "4 * unat (ecx - 1) \<le> 4294967296"
    using Suc.prems Suc.hyps(2) k by auto
  have "rep_movsl m edi esi ecx = rep_movsl (copy m edi esi 4) (edi + 4) (esi + 4) (ecx - 1)"
    using nz by (simp add: rep_movsl.simps [of m edi esi ecx] store32_load32)
  also have "\<dots> = (copy (copy m edi esi 4) (edi + 4) (esi + 4) (4 * k),
      edi + 4 + 4 * (ecx - 1), esi + 4 + 4 * (ecx - 1))"
    by (subst Suc.hyps(1) [OF k sep le]) (simp add: k)
  also have "copy (copy m edi esi 4) (edi + 4) (esi + 4) (4 * k) = copy m edi esi (4 + 4 * k)"
    using copy_append [of 4 "4 * k" edi esi m] Suc.prems by (simp flip: Suc.hyps(2))
  finally show ?case by (simp add: algebra_simps flip: Suc.hyps(2))
qed

lemma memcpy_top_copy:
  "unat (edi - esi) \<ge> unat ecx \<or> edi = esi \<Longrightarrow>
   memcpy_top m edi esi ecx = copy m edi esi (unat ecx)"
proof (induction "unat ecx" arbitrary: m edi esi ecx)
  case 0
  then have "ecx = 0" by (simp add: unat_eq_0)
  then show ?case by (simp add: memcpy_top.simps)
next
  case (Suc k)
  then have nz: "ecx \<noteq> 0" by auto
  then have k: "k = unat (ecx - 1)" using Suc.hyps(2) unat_dec [of ecx] by simp
  have sep: "unat (edi + 1 - (esi + 1)) \<ge> unat (ecx - 1) \<or> edi + 1 = esi + 1"
    using Suc.prems Suc.hyps(2) k by auto
  show ?case
  proof (cases "edi AND 3 = 0")
    case False
    with nz copy_dec [OF nz Suc.prems] show ?thesis
      by (simp add: memcpy_top.simps [of m edi esi ecx] Suc.hyps(1) [OF k sep]
          del: fun_upd_apply)
  next
    case True
    let ?q = "drop_bit 2 ecx"
    have split: "unat ecx = 4 * unat ?q + unat (ecx AND 3)" by (rule u32_split4)
    then have le: "4 * unat ?q + unat (ecx AND 3) \<le> 4294967296"
      using unat_u32_bound [of ecx] by linarith
    have mov: "rep_movsl m edi esi ?q
        = (copy m edi esi (4 * unat ?q), edi + 4 * ?q, esi + 4 * ?q)"
      using Suc.prems split le by (intro rep_movsl_copy) auto
    have ptr: "edi + 4 * ?q = edi + of_nat (4 * unat ?q)" "esi + 4 * ?q = esi + of_nat (4 * unat ?q)"
      by simp_all
    have bot: "memcpy_bottom (copy m edi esi (4 * unat ?q)) (edi + 4 * ?q) (esi + 4 * ?q) (ecx AND 3)
        = copy (copy m edi esi (4 * unat ?q)) (edi + 4 * ?q) (esi + 4 * ?q) (unat (ecx AND 3))"
      using Suc.prems split by (intro memcpy_bottom_copy) auto
    have "copy (copy m edi esi (4 * unat ?q)) (edi + 4 * ?q) (esi + 4 * ?q) (unat (ecx AND 3))
        = copy m edi esi (unat ecx)"
      unfolding ptr split using le Suc.prems split by (intro copy_append) auto
    with True nz mov bot show ?thesis
      by (simp add: memcpy_top.simps [of m edi esi ecx])
  qed
qed

lemma memcpy_eq_copy:
  "unat (dest - src) \<ge> unat n \<or> dest = src \<Longrightarrow> memcpy m dest src n = copy m dest src (unat n)"
  by (simp add: memcpy_def memcpy_top_copy)

section \<open>Correctness of memmove\<close>

lemma rep_movsb_up:
  "unat (edi - esi) \<ge> unat ecx \<or> edi = esi \<Longrightarrow>
   rep_movsb False m edi esi ecx = copy m edi esi (unat ecx)"
proof (induction "unat ecx" arbitrary: m edi esi ecx)
  case 0
  then have "ecx = 0" by (simp add: unat_eq_0)
  then show ?case by (simp add: rep_movsb.simps)
next
  case (Suc k)
  then have nz: "ecx \<noteq> 0" by auto
  then have k: "k = unat (ecx - 1)" using Suc.hyps(2) unat_dec [of ecx] by simp
  have sep: "unat (edi + 1 - (esi + 1)) \<ge> unat (ecx - 1) \<or> edi + 1 = esi + 1"
    using Suc.prems Suc.hyps(2) k by auto
  show ?case
    using nz copy_dec [OF nz Suc.prems]
    by (simp add: rep_movsb.simps [of False m edi esi ecx] Suc.hyps(1) [OF k sep]
        del: fun_upd_apply)
qed

lemma rep_movsb_down:
  "unat (s - d) \<ge> unat n \<Longrightarrow> rep_movsb True m (d + n - 1) (s + n - 1) n = copy m d s (unat n)"
proof (induction "unat n" arbitrary: m n)
  case 0
  then have "n = 0" by (simp add: unat_eq_0)
  then show ?case by (simp add: rep_movsb.simps)
next
  case (Suc k)
  then have nz: "n \<noteq> 0" by auto
  then have k: "k = unat (n - 1)" using Suc.hyps(2) unat_dec [of n] by simp
  then have nk: "n - 1 = of_nat k" by simp
  have top: "d + n - 1 = d + of_nat k" "s + n - 1 = s + of_nat k"
    by (simp_all add: algebra_simps flip: nk)
  have sep: "unat (s - d) \<ge> unat (n - 1)" "unat (s - d) \<ge> Suc k"
    using Suc.prems Suc.hyps(2) k by auto
  let ?m = "m(d + of_nat k := m (s + of_nat k))"
  have "rep_movsb True m (d + n - 1) (s + n - 1) n
      = rep_movsb True ?m (d + (n - 1) - 1) (s + (n - 1) - 1) (n - 1)"
    using nz by (subst rep_movsb.simps) (simp add: top nk del: fun_upd_apply)
  also have "\<dots> = copy ?m d s k"
    using Suc.hyps(1) [OF k sep(1)] k by simp
  also have "\<dots> = copy m d s (Suc k)"
    using sep(2) Suc.hyps(2) unat_u32_bound [of n] by (intro copy_top) linarith+
  finally show ?case by (simp flip: Suc.hyps(2))
qed

text \<open>For regions that do not wrap around the address space, overlapping or not.\<close>

lemma memmove_eq_copy:
  assumes "unat dest + unat n \<le> 4294967296" and "unat src + unat n \<le> 4294967296"
  shows "fst (memmove m dest src n) = copy m dest src (unat n)"
proof (cases "src \<ge> dest")
  case True
  have "unat (dest - src) \<ge> unat n \<or> dest = src"
    using True assms by (auto simp: unat_sub_if' word_le_nat_alt word_unat_eq_iff)
  then show ?thesis using True by (simp add: memmove_def rep_movsb_up)
next
  case False
  then have "unat (src - dest) \<ge> unat n"
    using assms by (auto simp: unat_sub_if' word_le_nat_alt)
  then show ?thesis using False by (simp add: memmove_def rep_movsb_down)
qed

section \<open>Correctness of memset_word and memset_dword\<close>

lemma rep_stosw_fill:
  "2 * unat ecx \<le> 4294967296 \<Longrightarrow> rep_stosw m eax edi ecx
     = fill_with m edi (2 * unat ecx) (\<lambda>i. ucast (drop_bit (8 * (i mod 2)) eax))"
proof (induction "unat ecx" arbitrary: m edi ecx)
  case 0
  then have "ecx = 0" by (simp add: unat_eq_0)
  then show ?case by (simp add: rep_stosw.simps)
next
  case (Suc k)
  then have nz: "ecx \<noteq> 0" by auto
  then have k: "k = unat (ecx - 1)" using Suc.hyps(2) unat_dec [of ecx] by simp
  let ?f = "\<lambda>i::nat. ucast (drop_bit (8 * (i mod 2)) eax) :: u8"
  let ?m = "m(edi := ?f 0)"
  have le: "Suc (Suc (2 * k)) \<le> 4294967296" using Suc.prems Suc.hyps(2) by linarith
  have "rep_stosw m eax edi ecx = rep_stosw (?m(edi + 1 := ?f 1)) eax (edi + 1 + 1) (ecx - 1)"
    using nz by (subst rep_stosw.simps) (simp add: add.assoc del: fun_upd_apply)
  also have "\<dots> = fill_with (?m(edi + 1 := ?f 1)) (edi + 1 + 1) (2 * k) ?f"
    using le k by (subst Suc.hyps(1) [OF k]) simp_all
  also have "\<dots> = fill_with ?m (edi + 1) (Suc (2 * k)) (\<lambda>i. ?f (Suc i))"
    using fill_with_Suc [of "2 * k" ?m "edi + 1" "\<lambda>i. ?f (Suc i)"] le by simp
  also have "\<dots> = fill_with m edi (Suc (Suc (2 * k))) ?f"
    using fill_with_Suc [of "Suc (2 * k)" m edi ?f] le by simp
  finally show ?case by (simp flip: Suc.hyps(2))
qed

section \<open>Properties\<close>

text \<open>C40. \<open>memset\<close> sets exactly the \<open>n\<close> bytes from \<open>s\<close> on to the low byte of \<open>c\<close>, for every
  alignment and every \<open>n\<close>: the alignment loop, the double-word loop and the tail loop together
  cover the region, with no byte missed and none touched outside.\<close>

theorem memset_correct:
  "memset m s c n a = (if unat (a - s) < unat n then ucast c else m a)"
  unfolding memset_eq_fill by (simp add: fill_def in_region_def)

text \<open>\<open>memcpy\<close> copies \<open>n\<close> bytes and changes nothing else, for every alignment, when the
  destination does not start inside the source region (or is the source).\<close>

theorem memcpy_correct:
  assumes "unat (dest - src) \<ge> unat n \<or> dest = src"
  shows "memcpy m dest src n a
    = (if unat (a - dest) < unat n then m (src + (a - dest)) else m a)"
  unfolding memcpy_eq_copy [OF assms] by (simp add: copy_def in_region_def)

theorem memcpy_correct_witness:
  "memcpy (\<lambda>a. ucast a) 0x1003 0x2001 11 0x1007 = 5"
  using memcpy_correct [where dest = "0x1003" and src = "0x2001" and n = 11 and m = "\<lambda>a. ucast a" and a = "0x1007"] by simp

text \<open>\<open>memmove\<close> copies overlapping regions in both directions: every byte of the destination
  gets the byte the source had before the call. It returns with the direction flag set exactly
  when it copied downwards.\<close>

theorem memmove_correct:
  assumes "unat dest + unat n \<le> 4294967296" and "unat src + unat n \<le> 4294967296"
  shows "fst (memmove m dest src n) a
      = (if unat (a - dest) < unat n then m (src + (a - dest)) else m a)
    \<and> snd (memmove m dest src n) = (src < dest)"
  unfolding memmove_eq_copy [OF assms]
  by (auto simp: copy_def in_region_def memmove_def)

theorem memmove_correct_witness:
  "fst (memmove (\<lambda>a. ucast a) 0x1002 0x1000 8) 0x1004 = 2
   \<and> snd (memmove (\<lambda>a. ucast a :: u8) 0x1002 0x1000 8)"
  using memmove_correct [where dest = "0x1002" and n = 8 and src = "0x1000" and m = "\<lambda>a. ucast a" and a = "0x1004"] by simp

text \<open>\<open>memset_word\<close> writes \<open>n\<close> 16-bit words, that is \<open>2 * n\<close> bytes: the two bytes of \<open>c\<close>
  alternate over the region, and nothing outside it changes.\<close>

theorem memset_word_correct:
  assumes "2 * unat n \<le> 4294967296"
  shows "memset_word m s c n a
    = (if unat (a - s) < 2 * unat n then ucast (drop_bit (8 * (unat (a - s) mod 2)) c) else m a)"
  unfolding memset_word_def rep_stosw_fill [OF assms] by (simp add: fill_with_def in_region_def)

theorem memset_word_correct_witness: "memset_word (\<lambda>_. 0) 0x5000 0x1234 3 0x5005 = 0x12"
  using memset_word_correct [where n = 3 and m = "\<lambda>_. 0" and s = "0x5000" and c = "0x1234" and a = "0x5005"] by simp

end
