(* ===== verification/Lib_String.thy ===== *)
theory Lib_String
  imports OS_Prelude
begin

text \<open>
  The string routines of \<open>student-distrib/lib.c\<close>: \<open>strlen\<close>, \<open>strrev\<close>, \<open>itoa\<close>,
  \<open>strncmp\<close>, \<open>strcpy\<close> and \<open>strncpy\<close>, on strings in byte memory. A loop that only
  stops at a NUL byte is a partial function: \<open>None\<close> is a call that does not return.
\<close>

section \<open>strlen\<close>

partial_function (option) strlen_loop :: "mem \<Rightarrow> u32 \<Rightarrow> u32 \<Rightarrow> u32 option" where
  "strlen_loop m s len = (if m (s + len) \<noteq> 0 then strlen_loop m s (len + 1) else Some len)"

definition strlen :: "mem \<Rightarrow> u32 \<Rightarrow> u32 option" where
  "strlen m s = strlen_loop m s 0"

section \<open>strrev\<close>

text \<open>\<open>beg\<close> and \<open>end\<close> are \<open>int32_t\<close>; the three assignments swap the two bytes.\<close>

function strrev_loop :: "mem \<Rightarrow> u32 \<Rightarrow> int \<Rightarrow> int \<Rightarrow> mem" where
  "strrev_loop m s beg en =
     (if beg < en then
        (let tmp = m (s + of_int en);
             m1 = m(s + of_int en := m (s + of_int beg));
             m2 = m1(s + of_int beg := tmp)
         in strrev_loop m2 s (beg + 1) (en - 1))
      else m)"
  by pat_completeness auto
termination by (relation "measure (\<lambda>(m, s, beg, en). nat (en - beg))") auto

declare strrev_loop.simps [simp del]

definition strrev :: "mem \<Rightarrow> u32 \<Rightarrow> mem option" where
  "strrev m s = (case strlen m s of None \<Rightarrow> None | Some len \<Rightarrow> Some (strrev_loop m s 0 (sint (len - 1))))"

section \<open>itoa\<close>

text \<open>The table \<open>lookup\<close>: 36 digits and the terminating NUL of the literal.\<close>

definition itoa_lookup :: "u8 list" where
  "itoa_lookup = [48, 49, 50, 51, 52, 53, 54, 55, 56, 57,
     65, 66, 67, 68, 69, 70, 71, 72, 73, 74, 75, 76, 77, 78, 79, 80, 81, 82, 83, 84, 85, 86, 87,
     88, 89, 90, 0]"

text \<open>\<open>newval % radix\<close> converts \<open>radix\<close> to unsigned. A zero radix is a divide error, an index
  past the table is undefined behaviour, and a radix of 1 never leaves the loop: all are
  \<open>None\<close>.\<close>

partial_function (option) itoa_loop :: "mem \<Rightarrow> u32 \<Rightarrow> u32 \<Rightarrow> u32 \<Rightarrow> (mem \<times> u32) option" where
  "itoa_loop m newval newbuf radix =
     (if newval > 0 then
        (if radix = 0 \<or> unat (newval mod radix) \<ge> length itoa_lookup then None
         else itoa_loop (m(newbuf := itoa_lookup ! unat (newval mod radix)))
                (newval div radix) (newbuf + 1) radix)
      else Some (m, newbuf))"

definition itoa :: "mem \<Rightarrow> u32 \<Rightarrow> u32 \<Rightarrow> u32 \<Rightarrow> mem option" where
  "itoa m val buf radix =
     (if val = 0 then Some (m(buf := 48, buf + 1 := 0))
      else case itoa_loop m val buf radix of
             None \<Rightarrow> None
           | Some (m', newbuf) \<Rightarrow> strrev (m'(newbuf := 0)) buf)"

section \<open>strncmp\<close>

text \<open>The bytes are \<open>int8_t\<close>, so the difference is of signed values; \<open>i < n\<close> compares as
  unsigned.\<close>

function strncmp_loop :: "mem \<Rightarrow> u32 \<Rightarrow> u32 \<Rightarrow> u32 \<Rightarrow> u32 \<Rightarrow> int" where
  "strncmp_loop m s1 s2 n i =
     (if i < n then
        (if m (s1 + i) \<noteq> m (s2 + i) \<or> m (s1 + i) = 0
         then sint (m (s1 + i)) - sint (m (s2 + i))
         else strncmp_loop m s1 s2 n (i + 1))
      else 0)"
  by pat_completeness auto
termination
  by (relation "measure (\<lambda>(m, s1, s2, n, i). unat n - unat i)")
     (auto simp: unat_inc_less word_less_nat_alt)

declare strncmp_loop.simps [simp del]

definition strncmp :: "mem \<Rightarrow> u32 \<Rightarrow> u32 \<Rightarrow> u32 \<Rightarrow> int" where
  "strncmp m s1 s2 n = strncmp_loop m s1 s2 n 0"

section \<open>strcpy and strncpy\<close>

partial_function (option) strcpy_loop :: "mem \<Rightarrow> u32 \<Rightarrow> u32 \<Rightarrow> u32 \<Rightarrow> mem option" where
  "strcpy_loop m dest src i =
     (if m (src + i) \<noteq> 0 then strcpy_loop (m(dest + i := m (src + i))) dest src (i + 1)
      else Some (m(dest + i := 0)))"

definition strcpy :: "mem \<Rightarrow> u32 \<Rightarrow> u32 \<Rightarrow> mem option" where
  "strcpy m dest src = strcpy_loop m dest src 0"

function strncpy_copy :: "mem \<Rightarrow> u32 \<Rightarrow> u32 \<Rightarrow> u32 \<Rightarrow> u32 \<Rightarrow> mem \<times> u32" where
  "strncpy_copy m dest src n i =
     (if m (src + i) \<noteq> 0 \<and> i < n
      then strncpy_copy (m(dest + i := m (src + i))) dest src n (i + 1)
      else (m, i))"
  by pat_completeness auto
termination
  by (relation "measure (\<lambda>(m, dest, src, n, i). unat n - unat i)")
     (auto simp: unat_inc_less word_less_nat_alt)

function strncpy_pad :: "mem \<Rightarrow> u32 \<Rightarrow> u32 \<Rightarrow> u32 \<Rightarrow> mem" where
  "strncpy_pad m dest n i =
     (if i < n then strncpy_pad (m(dest + i := 0)) dest n (i + 1) else m)"
  by pat_completeness auto
termination
  by (relation "measure (\<lambda>(m, dest, n, i). unat n - unat i)")
     (auto simp: unat_inc_less word_less_nat_alt)

declare strncpy_copy.simps [simp del] strncpy_pad.simps [simp del]

definition strncpy :: "mem \<Rightarrow> u32 \<Rightarrow> u32 \<Rightarrow> u32 \<Rightarrow> mem" where
  "strncpy m dest src n =
     (case strncpy_copy m dest src n 0 of (m', i) \<Rightarrow> strncpy_pad m' dest n i)"

section \<open>strlen stops at the first NUL\<close>

lemma strlen_loop_run:
  "(\<And>j. j < k \<Longrightarrow> m (s + len + of_nat j) \<noteq> 0) \<Longrightarrow>
   strlen_loop m s len = strlen_loop m s (len + of_nat k)"
proof (induction k arbitrary: len)
  case (Suc k)
  have "m (s + len) \<noteq> 0" using Suc.prems [of 0] by simp
  then have "strlen_loop m s len = strlen_loop m s (len + 1)"
    by (subst strlen_loop.simps) simp
  also have "\<dots> = strlen_loop m s (len + 1 + of_nat k)"
    using Suc.prems [of "Suc j" for j] by (intro Suc.IH) (simp add: algebra_simps)
  finally show ?case by (simp add: algebra_simps)
qed simp

lemma str_at_nth: "str_at m a xs \<Longrightarrow> i < length xs \<Longrightarrow> m (a + of_nat i) = xs ! i"
  by (metis str_at_def nth_bytes)

lemma str_at_nz: "str_at m a xs \<Longrightarrow> i < length xs \<Longrightarrow> m (a + of_nat i) \<noteq> 0"
  by (metis str_at_nth str_at_def nth_mem)

lemma str_at_end: "str_at m a xs \<Longrightarrow> m (a + of_nat (length xs)) = 0"
  by (simp add: str_at_def)

lemma strlen_str_at: "str_at m s xs \<Longrightarrow> strlen m s = Some (of_nat (length xs))"
proof -
  assume str: "str_at m s xs"
  then have "strlen m s = strlen_loop m s (0 + of_nat (length xs))"
    unfolding strlen_def by (intro strlen_loop_run) (simp add: str_at_nz)
  also have "\<dots> = Some (of_nat (length xs))"
    using str by (subst strlen_loop.simps) (simp add: str_at_end)
  finally show ?thesis .
qed

text \<open>A memory string is shorter than the address space: otherwise its NUL would be one of its
  own bytes.\<close>

lemma str_at_length: "str_at m s xs \<Longrightarrow> length xs < 4294967296"
proof (rule ccontr)
  assume str: "str_at m s xs" and "\<not> length xs < 4294967296"
  then have le: "4294967296 \<le> length xs" by simp
  let ?i = "unat (of_nat (length xs) :: u32)"
  have "?i < length xs" using le unat_u32_bound [of "of_nat (length xs)"] by linarith
  from str_at_nz [OF str this] str_at_end [OF str] show False by simp
qed

section \<open>strrev reverses\<close>

definition mirror :: "mem \<Rightarrow> u32 \<Rightarrow> int \<Rightarrow> int \<Rightarrow> mem" where
  "mirror m s b e = (\<lambda>a. let i = int (unat (a - s))
     in if b \<le> i \<and> i \<le> e then m (s + of_int (b + e - i)) else m a)"

lemma unat_of_int_u32: "0 \<le> i \<Longrightarrow> i < 4294967296 \<Longrightarrow> unat (of_int i :: u32) = nat i"
  using unat_of_nat_small [of "nat i"] by simp

lemma mirror_at:
  "0 \<le> i \<Longrightarrow> i < 4294967296 \<Longrightarrow> mirror m s b e (s + of_int i)
    = (if b \<le> i \<and> i \<le> e then m (s + of_int (b + e - i)) else m (s + of_int i))"
  unfolding mirror_def Let_def add_diff_cancel_left' by (simp only: unat_of_int_u32) simp

text \<open>Every address is \<open>s\<close> plus an offset.\<close>

lemma addr_offset:
  fixes a s :: u32
  obtains i where "0 \<le> i" "i < 4294967296" "a = s + of_int i"
  using unat_u32_bound [of "a - s"] by (intro that [of "int (unat (a - s))"]) (linarith | simp)+

lemma mirror_step:
  assumes "0 \<le> b" "b < e" "e < 4294967296"
  shows "mirror (m(s + of_int e := m (s + of_int b), s + of_int b := m (s + of_int e))) s (b + 1) (e - 1)
    = mirror m s b e"
proof
  fix a
  obtain i where i: "0 \<le> i" "i < 4294967296" and a: "a = s + of_int i" by (rule addr_offset)
  let ?m2 = "m(s + of_int e := m (s + of_int b), s + of_int b := m (s + of_int e))"
  have inj: "(s + of_int j = s + of_int k) = (j = k)"
    if "0 \<le> j" "j < 4294967296" "0 \<le> k" "k < 4294967296" for j k
    using of_int_u32_inject [OF that] by simp
  consider "i = b" | "i = e" | "b < i" "i < e" | "i < b \<or> e < i" by linarith
  then show "mirror ?m2 s (b + 1) (e - 1) a = mirror m s b e a"
  proof cases
    case 1
    then show ?thesis unfolding a mirror_at [OF i] using assms by simp
  next
    case 2
    then show ?thesis unfolding a mirror_at [OF i] using assms inj [of e b] by simp
  next
    case 3
    then have "s + of_int (b + 1 + (e - 1) - i) \<noteq> s + of_int e"
      and "s + of_int (b + 1 + (e - 1) - i) \<noteq> s + of_int b"
      using assms by (subst inj; linarith)+
    then show ?thesis unfolding a mirror_at [OF i] using 3 by simp
  next
    case 4
    then have "s + of_int i \<noteq> s + of_int b" "s + of_int i \<noteq> s + of_int e"
      using assms i by (subst inj; linarith)+
    then show ?thesis unfolding a mirror_at [OF i] using 4 by auto
  qed
qed

lemma mirror_trivial: "e \<le> b \<Longrightarrow> mirror m s b e = m"
proof
  fix a
  assume "e \<le> b"
  obtain i where i: "0 \<le> i" "i < 4294967296" and a: "a = s + of_int i" by (rule addr_offset)
  show "mirror m s b e a = m a"
    unfolding a mirror_at [OF i] using \<open>e \<le> b\<close> by (cases "i = b \<and> e = b") auto
qed

lemma strrev_loop_mirror:
  "0 \<le> b \<Longrightarrow> e < 4294967296 \<Longrightarrow> strrev_loop m s b e = mirror m s b e"
proof (induction m s b e rule: strrev_loop.induct)
  case (1 m s b e)
  show ?case
  proof (cases "b < e")
    case True
    let ?m2 = "m(s + of_int e := m (s + of_int b), s + of_int b := m (s + of_int e))"
    have "strrev_loop m s b e = strrev_loop ?m2 s (b + 1) (e - 1)"
      using True by (subst strrev_loop.simps) (simp add: Let_def del: fun_upd_apply)
    also have "\<dots> = mirror ?m2 s (b + 1) (e - 1)"
      using "1.prems" by (intro "1.IH" [OF True refl refl refl]) linarith+
    also have "\<dots> = mirror m s b e"
      using "1.prems" True by (intro mirror_step)
    finally show ?thesis .
  next
    case False
    then show ?thesis by (simp add: strrev_loop.simps mirror_trivial)
  qed
qed

text \<open>Reversing a string of fewer than 2^31 bytes in place.\<close>

lemma strrev_str_at:
  assumes str: "str_at m s xs" and len: "length xs < 2147483648"
  shows "strrev m s = Some (mirror m s 0 (int (length xs) - 1))"
    and "str_at (mirror m s 0 (int (length xs) - 1)) s (rev xs)"
    and "\<not> in_region a s (length xs) \<Longrightarrow> mirror m s 0 (int (length xs) - 1) a = m a"
proof -
  have sl: "sint (of_nat (length xs) - 1 :: u32) = int (length xs) - 1"
  proof -
    have "sint (word_of_int (int (length xs) - 1) :: u32) = int (length xs) - 1"
      using len by (subst signed_of_int) (simp add: signed_take_bit_int_eq_self)
    then show ?thesis by simp
  qed
  show "strrev m s = Some (mirror m s 0 (int (length xs) - 1))"
    using strlen_str_at [OF str] len by (simp add: strrev_def sl strrev_loop_mirror)
  have at: "mirror m s 0 (int (length xs) - 1) (s + of_nat i)
      = (if i < length xs then xs ! (length xs - 1 - i) else m (s + of_nat i))"
    if "i < 4294967296" for i
  proof -
    have "mirror m s 0 (int (length xs) - 1) (s + of_int (int i))
        = (if i < length xs then m (s + of_nat (length xs - 1 - i)) else m (s + of_nat i))"
      using that by (subst mirror_at) (auto simp: of_nat_diff algebra_simps)
    moreover have "m (s + of_nat (length xs - 1 - i)) = xs ! (length xs - 1 - i)" if "i < length xs"
      using that by (intro str_at_nth [OF str]) simp
    ultimately show ?thesis by (cases "i < length xs") (simp_all only: if_True if_False
        of_int_of_nat_eq)
  qed
  have "bytes (mirror m s 0 (int (length xs) - 1)) s (length xs) = rev xs"
    using len by (simp add: bytes_eq_iff at rev_nth)
  moreover have "0 \<notin> set xs" using str by (simp add: str_at_def)
  ultimately show "str_at (mirror m s 0 (int (length xs) - 1)) s (rev xs)"
    using len str_at_end [OF str] by (simp add: str_at_def at)
  show "mirror m s 0 (int (length xs) - 1) a = m a" if "\<not> in_region a s (length xs)"
  proof -
    have "\<not> (0 \<le> int (unat (a - s)) \<and> int (unat (a - s)) \<le> int (length xs) - 1)"
      using that unfolding in_region_def by linarith
    then show ?thesis unfolding mirror_def Let_def by (simp only: if_False)
  qed
qed

section \<open>itoa prints the number in the given radix\<close>

text \<open>The digits of a number, least significant first, and what \<open>itoa\<close> should print.\<close>

fun rdigits :: "nat \<Rightarrow> nat \<Rightarrow> u8 list" where
  "rdigits r v = (if v = 0 \<or> r < 2 then [] else itoa_lookup ! (v mod r) # rdigits r (v div r))"

declare rdigits.simps [simp del]

definition numeral_of :: "nat \<Rightarrow> nat \<Rightarrow> u8 list" where
  "numeral_of r v = (if v = 0 then [48] else rev (rdigits r v))"

text \<open>Reading a numeral back.\<close>

definition digit_value :: "u8 \<Rightarrow> nat" where
  "digit_value c = (if c \<le> 57 then unat c - 48 else unat c - 55)"

definition read_numeral :: "nat \<Rightarrow> u8 list \<Rightarrow> nat" where
  "read_numeral r ds = foldl (\<lambda>acc d. acc * r + digit_value d) 0 ds"

lemma lookup_digit:
  assumes "d < 36"
  shows "digit_value (itoa_lookup ! d) = d" and "itoa_lookup ! d \<noteq> 0" and "d < length itoa_lookup"
proof -
  have "list_all (\<lambda>d. digit_value (itoa_lookup ! d) = d \<and> itoa_lookup ! d \<noteq> 0) [0..<36]"
    by code_simp
  then show "digit_value (itoa_lookup ! d) = d" and "itoa_lookup ! d \<noteq> 0"
    using assms by (simp_all add: list_all_iff)
  show "d < length itoa_lookup" using assms by (simp add: itoa_lookup_def)
qed

lemma rdigits_nonzero: "r \<le> 36 \<Longrightarrow> 0 \<notin> set (rdigits r v)"
proof (induction r v rule: rdigits.induct)
  case (1 r v)
  show ?case
  proof (cases "v = 0 \<or> r < 2")
    case False
    then have "v mod r < 36" using "1.prems" by (metis le_trans linorder_not_le mod_less_divisor
          not_less_eq_eq numeral_2_eq_2 not_le zero_less_Suc less_le_trans)
    with lookup_digit(2) [of "v mod r"] False 1 show ?thesis
      by (simp add: rdigits.simps [of r v])
  qed (simp add: rdigits.simps)
qed

lemma read_rdigits: "2 \<le> r \<Longrightarrow> r \<le> 36 \<Longrightarrow> read_numeral r (rev (rdigits r v)) = v"
proof (induction r v rule: rdigits.induct)
  case (1 r v)
  show ?case
  proof (cases "v = 0 \<or> r < 2")
    case False
    then have "v mod r < r" by simp
    then have "v mod r < 36" using "1.prems" by linarith
    with False 1 show ?thesis
      by (simp add: rdigits.simps [of r v] read_numeral_def lookup_digit(1))
  next
    case True
    with "1.prems" show ?thesis by (simp add: rdigits.simps read_numeral_def)
  qed
qed

lemma length_rdigits: "v < r ^ k \<Longrightarrow> length (rdigits r v) \<le> k"
proof (induction k arbitrary: v)
  case 0
  then show ?case by (simp add: rdigits.simps)
next
  case (Suc k)
  have "v div r < r ^ k" using Suc.prems by (cases "r = 0") (auto simp: less_mult_imp_div_less mult.commute)
  from Suc.IH [OF this] show ?case by (simp add: rdigits.simps [of r v])
qed

lemma itoa_loop_digits:
  assumes r: "2 \<le> unat radix" "unat radix \<le> 36"
  shows "itoa_loop m newval newbuf radix
    = Some (store_bytes m newbuf (rdigits (unat radix) (unat newval)),
            newbuf + of_nat (length (rdigits (unat radix) (unat newval))))"
proof (induction "unat newval" arbitrary: m newval newbuf rule: less_induct)
  case less
  show ?case
  proof (cases "newval = 0")
    case True
    then show ?thesis by (simp add: itoa_loop.simps rdigits.simps)
  next
    case False
    let ?r = "unat radix" and ?v = "unat newval"
    have d: "unat (newval mod radix) = ?v mod ?r" "unat (newval div radix) = ?v div ?r"
      by (simp_all add: unat_mod unat_div)
    have "?v mod ?r < ?r" using r by simp
    then have lt: "?v mod ?r < 36" using r by linarith
    have v: "?v \<noteq> 0" using False by (simp add: unat_eq_0)
    have dec: "unat (newval div radix) < ?v" using v r by (simp add: d(2))
    have rad: "radix \<noteq> 0" using r by auto
    have rd: "rdigits ?r ?v = itoa_lookup ! (?v mod ?r) # rdigits ?r (?v div ?r)"
      using v r by (simp add: rdigits.simps [of ?r ?v])
    have "itoa_loop m newval newbuf radix
        = itoa_loop (m(newbuf := itoa_lookup ! (?v mod ?r))) (newval div radix) (newbuf + 1) radix"
      using False rad lookup_digit(3) [OF lt]
      by (subst itoa_loop.simps) (simp add: d word_gt_0 del: fun_upd_apply)
    also have "\<dots> = Some (store_bytes m newbuf (rdigits ?r ?v),
        newbuf + of_nat (length (rdigits ?r ?v)))"
      unfolding less [OF dec] rd d by (simp add: algebra_simps)
    finally show ?thesis .
  qed
qed

lemma bytes_upd_outside:
  "\<not> in_region x a n \<Longrightarrow> n \<le> 4294967296 \<Longrightarrow> bytes (m(x := v)) a n = bytes m a n"
  using in_region_add by (intro bytes_cong) auto

lemma itoa_result:
  assumes r: "2 \<le> unat radix" "unat radix \<le> 36"
  obtains m' where "itoa m val buf radix = Some m'"
    and "str_at m' buf (numeral_of (unat radix) (unat val))"
    and "length (numeral_of (unat radix) (unat val)) \<le> 32"
    and "\<And>a. \<not> in_region a buf (Suc (length (numeral_of (unat radix) (unat val)))) \<Longrightarrow> m' a = m a"
proof (cases "val = 0")
  case True
  have "1 \<le> (32::nat)" by simp
  with True show ?thesis
    by (intro that [of "m(buf := 48, buf + 1 := 0)"])
       (auto simp: itoa_def numeral_of_def str_at_def in_region_Suc)
next
  case False
  let ?ds = "rdigits (unat radix) (unat val)"
  have num: "numeral_of (unat radix) (unat val) = rev ?ds"
    using False by (simp add: numeral_of_def unat_eq_0)
  have "(2::nat) ^ 32 \<le> unat radix ^ 32" using r by (intro power_mono) auto
  then have "(4294967296::nat) \<le> unat radix ^ 32" by simp
  then have len: "length ?ds \<le> 32"
    using unat_u32_bound [of val] by (intro length_rdigits) linarith
  define m1 where "m1 = (store_bytes m buf ?ds)(buf + of_nat (length ?ds) := 0)"
  have out: "\<not> in_region (buf + of_nat (length ?ds)) buf (length ?ds)"
    using len by (simp add: in_region_def unat_of_nat_small)
  have str: "str_at m1 buf ?ds"
    using len out r by (simp add: str_at_def m1_def bytes_upd_outside bytes_store_bytes rdigits_nonzero
        del: fun_upd_apply) simp
  have rev: "strrev m1 buf = Some (mirror m1 buf 0 (int (length ?ds) - 1))"
    "str_at (mirror m1 buf 0 (int (length ?ds) - 1)) buf (rev ?ds)"
    using strrev_str_at [OF str] len by simp_all
  have "itoa m val buf radix = Some (mirror m1 buf 0 (int (length ?ds) - 1))"
    using False rev(1) by (simp add: itoa_def itoa_loop_digits [OF r] m1_def del: fun_upd_apply)
  moreover have "mirror m1 buf 0 (int (length ?ds) - 1) a = m a"
    if "\<not> in_region a buf (Suc (length ?ds))" for a
  proof -
    have "a \<noteq> buf + of_nat (length ?ds)" "\<not> in_region a buf (length ?ds)"
      using that len by (auto simp: in_region_def unat_of_nat_small)
    with strrev_str_at(3) [OF str] len show ?thesis by (simp add: m1_def store_bytes_outside)
  qed
  ultimately show ?thesis
    using rev(2) len by (intro that [of "mirror m1 buf 0 (int (length ?ds) - 1)"]) (simp_all add: num)
qed

section \<open>strncmp decides equality of the strings, up to n bytes\<close>

definition str_prefix :: "mem \<Rightarrow> u32 \<Rightarrow> nat \<Rightarrow> u8 list" where
  "str_prefix m s n = takeWhile (\<lambda>b. b \<noteq> 0) (bytes m s n)"

lemma str_prefix_Suc:
  "str_prefix m s (Suc n) = (if m s = 0 then [] else m s # str_prefix m (s + 1) n)"
  by (simp add: str_prefix_def)

lemma sint_u8_inject: "(sint (a :: u8) - sint b = 0) = (a = b)"
  using signed_word_eqI [of a b] by auto

lemma strncmp_loop_eq:
  "i \<le> n \<Longrightarrow> (strncmp_loop m s1 s2 n i = 0)
     = (str_prefix m (s1 + i) (unat n - unat i) = str_prefix m (s2 + i) (unat n - unat i))"
proof (induction m s1 s2 n i rule: strncmp_loop.induct)
  case (1 m s1 s2 n i)
  show ?case
  proof (cases "i < n")
    case True
    then have inc: "unat (i + 1) = Suc (unat i)" by (rule unat_inc_less)
    have lt: "unat i < unat n" using True by (simp add: word_less_nat_alt)
    then have le: "i + 1 \<le> n" by (simp add: word_le_nat_alt inc)
    have d: "unat n - unat i = Suc (unat n - unat (i + 1))" using lt inc by simp
    show ?thesis
    proof (cases "m (s1 + i) \<noteq> m (s2 + i) \<or> m (s1 + i) = 0")
      case False
      with 1(1) [OF True _ le] True show ?thesis
        by (simp add: strncmp_loop.simps [of m s1 s2 n i] d str_prefix_Suc add.assoc)
    next
      case differ: True
      with True have "strncmp_loop m s1 s2 n i = sint (m (s1 + i)) - sint (m (s2 + i))"
        by (subst strncmp_loop.simps) simp
      with differ show ?thesis
        using sint_u8_inject [of "m (s1 + i)" "m (s2 + i)"] by (auto simp: d str_prefix_Suc)
    qed
  next
    case False
    with 1(2) show ?thesis by (simp add: strncmp_loop.simps str_prefix_def)
  qed
qed

lemma strncmp_eq_0: "(strncmp m s1 s2 n = 0) = (str_prefix m s1 (unat n) = str_prefix m s2 (unat n))"
  using strncmp_loop_eq [of 0 n m s1 s2] by (simp add: strncmp_def)

section \<open>strcpy and strncpy copy the string\<close>

text \<open>The byte just written is not one of the source bytes still to be read.\<close>

lemma write_keeps_source:
  fixes d s :: u32
  assumes "unat (d - s) \<ge> Suc n \<or> d = s" and "j < n" and "n < 4294967296"
  shows "(m(d := v)) (s + 1 + of_nat j) = m (s + 1 + of_nat j)"
proof -
  have "unat (of_nat (Suc j) :: u32) = Suc j" using assms by (intro unat_of_nat_small) simp
  moreover have "unat (d - s) = unat (of_nat (Suc j) :: u32)" if "s + of_nat (Suc j) = d"
    by (simp only: that [symmetric] add_diff_cancel_left')
  ultimately have "s + of_nat (Suc j) \<noteq> d" using assms by fastforce
  then show ?thesis by (simp add: add.assoc)
qed

lemma strcpy_loop_copy:
  assumes "\<And>j. j < k \<Longrightarrow> m (src + i + of_nat j) \<noteq> 0" and "m (src + i + of_nat k) = 0"
    and "unat (dest - src) \<ge> Suc k \<or> dest = src" and "Suc k < 4294967296"
  shows "strcpy_loop m dest src i = Some (copy m (dest + i) (src + i) (Suc k))"
  using assms
proof (induction k arbitrary: m i)
  case 0
  have "copy m (dest + i) (src + i) (Suc 0) = m(dest + i := m (src + i))"
    using copy_Suc [of 0 "dest + i" "src + i" m] 0 by simp
  with 0 show ?case by (subst strcpy_loop.simps) simp
next
  case (Suc k)
  let ?m = "m(dest + i := m (src + i))"
  have sep: "unat (dest + i - (src + i)) \<ge> Suc (Suc k) \<or> dest + i = src + i"
    using Suc.prems(3) by simp
  have keep: "?m (src + i + 1 + of_nat j) = m (src + i + 1 + of_nat j)" if "j < Suc k" for j
    using sep that Suc.prems(4) by (intro write_keeps_source [where n = "Suc k"]) auto
  have "strcpy_loop m dest src i = strcpy_loop ?m dest src (i + 1)"
    using Suc.prems(1) [of 0] by (subst strcpy_loop.simps) simp
  also have "\<dots> = Some (copy ?m (dest + (i + 1)) (src + (i + 1)) (Suc k))"
  proof (rule Suc.IH)
    show "?m (src + (i + 1) + of_nat j) \<noteq> 0" if "j < k" for j
      using keep [of j] Suc.prems(1) [of "Suc j"] that by (simp add: add.assoc)
    show "?m (src + (i + 1) + of_nat k) = 0"
      using keep [of k] Suc.prems(2) by (simp add: add.assoc)
    show "unat (dest - src) \<ge> Suc k \<or> dest = src" "Suc k < 4294967296"
      using Suc.prems by auto
  qed
  also have "copy ?m (dest + (i + 1)) (src + (i + 1)) (Suc k)
      = copy m (dest + i) (src + i) (Suc (Suc k))"
    using copy_Suc [of "Suc k" "dest + i" "src + i" m] sep Suc.prems(4) by (simp add: add.assoc)
  finally show ?case .
qed

lemma strcpy_copy:
  assumes str: "str_at m src xs" and "unat (dest - src) \<ge> Suc (length xs) \<or> dest = src"
    and "Suc (length xs) < 4294967296"
  shows "strcpy m dest src = Some (copy m dest src (Suc (length xs)))"
  using strcpy_loop_copy [of "length xs" m src 0 dest] assms str_at_nz [OF str] str_at_end [OF str]
  by (simp add: strcpy_def)

lemma length_str_prefix: "length (str_prefix m s n) \<le> n"
  by (metis length_bytes length_takeWhile_le str_prefix_def)

lemma str_prefix_cong:
  "(\<And>j. j < n \<Longrightarrow> m (s + of_nat j) = m' (s + of_nat j)) \<Longrightarrow> str_prefix m s n = str_prefix m' s n"
  unfolding str_prefix_def by (metis bytes_cong)

lemma strncpy_copy_copy:
  "i \<le> n \<Longrightarrow> unat (dest - src) \<ge> unat n \<or> dest = src \<Longrightarrow>
   k = length (str_prefix m (src + i) (unat n - unat i)) \<Longrightarrow>
   strncpy_copy m dest src n i = (copy m (dest + i) (src + i) k, i + of_nat k)"
proof (induction "unat n - unat i" arbitrary: m i k)
  case 0
  then show ?case by (simp add: strncpy_copy.simps word_le_nat_alt word_less_nat_alt str_prefix_def)
next
  case (Suc d)
  then have lt: "i < n" by (simp add: word_less_nat_alt)
  then have inc: "unat (i + 1) = Suc (unat i)" by (rule unat_inc_less)
  have d: "d = unat n - unat (i + 1)" using Suc.hyps(2) inc by linarith
  have le: "i + 1 \<le> n" using lt inc by (simp add: word_le_nat_alt word_less_nat_alt)
  have k: "k = length (str_prefix m (src + i) (Suc d))" using Suc.prems(3) Suc.hyps(2) by simp
  show ?case
  proof (cases "m (src + i) = 0")
    case True
    with k show ?thesis by (simp add: strncpy_copy.simps str_prefix_Suc)
  next
    case False
    let ?m = "m(dest + i := m (src + i))"
    let ?k = "length (str_prefix m (src + i + 1) d)"
    have sep: "unat (dest + i - (src + i)) \<ge> Suc d \<or> dest + i = src + i"
      using Suc.prems(2) Suc.hyps(2) by auto
    have d32: "d < 4294967296" using d unat_u32_bound [of n] by linarith
    have "str_prefix ?m (src + i + 1) d = str_prefix m (src + i + 1) d"
      using sep d32 by (intro str_prefix_cong write_keeps_source)
    then have k': "?k = length (str_prefix ?m (src + (i + 1)) (unat n - unat (i + 1)))"
      by (simp add: d add.assoc)
    have "strncpy_copy m dest src n i = strncpy_copy ?m dest src n (i + 1)"
      using False lt by (subst strncpy_copy.simps) (simp del: fun_upd_apply)
    also have "\<dots> = (copy ?m (dest + (i + 1)) (src + (i + 1)) ?k, i + 1 + of_nat ?k)"
      by (rule Suc.hyps(1) [OF d le Suc.prems(2) k'])
    also have "copy ?m (dest + (i + 1)) (src + (i + 1)) ?k = copy m (dest + i) (src + i) (Suc ?k)"
      using copy_Suc [of ?k "dest + i" "src + i" m] sep d32 length_str_prefix [of m "src + i + 1" d]
      by (auto simp: add.assoc)
    finally show ?thesis using False k by (simp add: str_prefix_Suc)
  qed
qed

lemma strncpy_pad_fill:
  "i \<le> n \<Longrightarrow> strncpy_pad m dest n i = fill m (dest + i) (unat n - unat i) 0"
proof (induction "unat n - unat i" arbitrary: m i)
  case 0
  then show ?case by (simp add: strncpy_pad.simps word_le_nat_alt word_less_nat_alt)
next
  case (Suc d)
  then have lt: "i < n" by (simp add: word_less_nat_alt)
  then have inc: "unat (i + 1) = Suc (unat i)" by (rule unat_inc_less)
  have d: "d = unat n - unat (i + 1)" using Suc.hyps(2) inc by linarith
  have le: "i + 1 \<le> n" using lt inc by (simp add: word_le_nat_alt word_less_nat_alt)
  have "Suc d \<le> 4294967296" using d unat_u32_bound [of n] by linarith
  note step = fill_Suc [OF this, of m "dest + i" 0]
  have "strncpy_pad m dest n i = fill (m(dest + i := 0)) (dest + (i + 1)) d 0"
    using lt Suc.hyps(1) [OF d le] d by (subst strncpy_pad.simps) (simp del: fun_upd_apply)
  also have "\<dots> = fill m (dest + i) (Suc d) 0"
    using step by (simp add: add.assoc)
  finally show ?case using Suc.hyps(2) by simp
qed

lemma strncpy_result:
  fixes m src n
  defines "k \<equiv> length (str_prefix m src (unat n))"
  assumes "unat (dest - src) \<ge> unat n \<or> dest = src"
  shows "strncpy m dest src n = fill (copy m dest src k) (dest + of_nat k) (unat n - k) 0"
proof -
  have k: "k \<le> unat n" unfolding k_def by (rule length_str_prefix)
  then have u: "unat (of_nat k :: u32) = k"
    using unat_u32_bound [of n] by (intro unat_of_nat_small) linarith
  have "strncpy_copy m dest src n 0 = (copy m dest src k, of_nat k)"
    using strncpy_copy_copy [of 0 n dest src k m] assms by simp
  then show ?thesis
    using k u by (simp add: strncpy_def strncpy_pad_fill word_le_nat_alt)
qed

lemma read_numeral_of:
  "2 \<le> r \<Longrightarrow> r \<le> 36 \<Longrightarrow> read_numeral r (numeral_of r v) = v"
  by (cases "v = 0") (simp_all add: numeral_of_def read_rdigits, simp add: read_numeral_def digit_value_def)

lemma numeral_of_nonempty: "2 \<le> r \<Longrightarrow> numeral_of r v \<noteq> []"
  by (simp add: numeral_of_def rdigits.simps)

lemma str_at_copy:
  assumes str: "str_at m src xs" and len: "Suc (length xs) < 4294967296"
  shows "str_at (copy m dest src (Suc (length xs))) dest xs"
proof -
  have at: "copy m dest src (Suc (length xs)) (dest + of_nat i) = m (src + of_nat i)"
    if "i < Suc (length xs)" for i
    using that len by (simp add: copy_def in_region_add)
  have "bytes (copy m dest src (Suc (length xs))) dest (length xs) = xs"
    using str_at_nth [OF str] by (simp add: bytes_eq_iff at)
  then show ?thesis using str str_at_end [OF str] at [of "length xs"] by (simp add: str_at_def)
qed

text \<open>\<open>n\<close> bytes of which the first \<open>k\<close> are copied and the others zero.\<close>

lemma copy_fill_outside:
  assumes "k \<le> n" "n \<le> 4294967296" "\<not> in_region a d n"
  shows "fill (copy m d s k) (d + of_nat k) (n - k) 0 a = m a"
proof -
  have "\<not> in_region a (d + of_nat k) (n - k)"
  proof
    assume "in_region a (d + of_nat k) (n - k)"
    then obtain i where "i < n - k" "a = d + of_nat k + of_nat i" by (rule in_regionE)
    then have "k + i < n" "a = d + of_nat (k + i)" using assms(1) by simp_all
    with assms in_region_add [of "k + i" n d] show False by simp
  qed
  then show ?thesis using assms by (simp add: fill_def copy_def in_region_def)
qed

lemma bytes_copy_fill:
  assumes "k \<le> n" "n < 4294967296"
  shows "bytes (fill (copy m d s k) (d + of_nat k) (n - k) 0) d n = bytes m s k @ replicate (n - k) 0"
proof (rule nth_equalityI)
  fix i
  assume "i < length (bytes (fill (copy m d s k) (d + of_nat k) (n - k) 0) d n)"
  then have i: "i < n" by simp
  have off: "unat (d + of_nat i - (d + of_nat k) :: u32) = (if k \<le> i then i - k else i + 4294967296 - k)"
    using assms i by (simp add: unat_sub_if' unat_of_nat_small)
  show "bytes (fill (copy m d s k) (d + of_nat k) (n - k) 0) d n ! i = (bytes m s k @ replicate (n - k) 0) ! i"
    unfolding nth_bytes [OF i] nth_append fill_def in_region_def off
    using assms i by (auto simp: nth_bytes copy_def in_region_def unat_of_nat_small)
qed (use assms in simp)

lemma bytes_str_prefix: "bytes m s (length (str_prefix m s n)) = str_prefix m s n"
proof -
  have "bytes m s k = take k (bytes m s n)" if "k \<le> n" for k
    using that by (simp add: list_eq_iff_nth_eq nth_bytes)
  then show ?thesis
    by (metis length_str_prefix str_prefix_def takeWhile_eq_take)
qed

section \<open>Properties\<close>

text \<open>\<open>itoa\<close> returns for every value and every radix from 2 to 36; the buffer then holds a
  NUL-terminated string of at most 32 digits that reads back as the value, and no byte after
  the NUL or before the buffer has changed.\<close>

theorem itoa_round_trip:
  assumes "2 \<le> unat radix" and "unat radix \<le> 36"
  shows "\<exists>m' ds. itoa m val buf radix = Some m' \<and> str_at m' buf ds
    \<and> read_numeral (unat radix) ds = unat val \<and> ds \<noteq> [] \<and> length ds \<le> 32
    \<and> (\<forall>a. in_region a buf (Suc (length ds)) \<or> m' a = m a)"
proof -
  obtain m' where m': "itoa m val buf radix = Some m'"
    "str_at m' buf (numeral_of (unat radix) (unat val))"
    "length (numeral_of (unat radix) (unat val)) \<le> 32"
    "\<And>a. \<not> in_region a buf (Suc (length (numeral_of (unat radix) (unat val)))) \<Longrightarrow> m' a = m a"
    by (rule itoa_result [OF assms, of m val buf]) (rule that)
  have "read_numeral (unat radix) (numeral_of (unat radix) (unat val)) = unat val"
    by (rule read_numeral_of [OF assms])
  with m' numeral_of_nonempty [OF assms(1)] show ?thesis by blast
qed

theorem itoa_round_trip_witness:
  "\<exists>m' ds. itoa (\<lambda>_. 0) 391 0x9000 10 = Some m' \<and> str_at m' 0x9000 ds
    \<and> read_numeral (unat (10 :: u32)) ds = unat (391 :: u32) \<and> ds \<noteq> [] \<and> length ds \<le> 32
    \<and> (\<forall>a. in_region a 0x9000 (Suc (length ds)) \<or> m' a = 0)"
  using itoa_round_trip [where radix = 10 and m = "\<lambda>_. 0" and val = 391 and buf = "0x9000"] by simp

text \<open>\<open>strrev\<close> reverses a string in place, whatever its length below 2^31, and leaves the rest
  of the memory as it is.\<close>

theorem strrev_reverses:
  assumes "str_at m s xs" and "length xs < 2147483648"
  shows "\<exists>m'. strrev m s = Some m' \<and> str_at m' s (rev xs)
    \<and> (\<forall>a. in_region a s (length xs) \<or> m' a = m a)"
  using strrev_str_at [OF assms] by blast

theorem strrev_reverses_witness:
  "\<exists>m'. strrev ((\<lambda>_. 0)(100 := 65, 101 := 66, 102 := 67)) 100 = Some m' \<and> str_at m' 100 [67, 66, 65]"
  using strrev_reverses [of "(\<lambda>_. 0)(100 := 65, 101 := 66, 102 := 67)" 100 "[65, 66, 67]"]
  by (auto simp: str_at_Cons str_at_Nil)

text \<open>\<open>strncmp\<close> returns 0 exactly when the two strings agree in their first \<open>n\<close> bytes, up to
  and including the first NUL; this is the test by which the file system finds a name.\<close>

theorem strncmp_zero_iff:
  "(strncmp m s1 s2 n = 0)
    = (takeWhile (\<lambda>b. b \<noteq> 0) (bytes m s1 (unat n)) = takeWhile (\<lambda>b. b \<noteq> 0) (bytes m s2 (unat n)))"
  using strncmp_eq_0 [of m s1 s2 n] by (simp add: str_prefix_def)

text \<open>\<open>strcpy\<close> returns when the source is a string, and has then copied the string with its
  NUL and nothing else, if the destination does not start inside the source.\<close>

theorem strcpy_correct:
  assumes "str_at m src xs" and "unat (dest - src) \<ge> Suc (length xs) \<or> dest = src"
    and "Suc (length xs) < 4294967296"
  shows "\<exists>m'. strcpy m dest src = Some m' \<and> str_at m' dest xs
    \<and> (\<forall>a. in_region a dest (Suc (length xs)) \<or> m' a = m a)"
proof (intro exI conjI allI)
  show "strcpy m dest src = Some (copy m dest src (Suc (length xs)))"
    by (rule strcpy_copy [OF assms])
  show "str_at (copy m dest src (Suc (length xs))) dest xs"
    by (rule str_at_copy [OF assms(1,3)])
  show "in_region a dest (Suc (length xs)) \<or> copy m dest src (Suc (length xs)) a = m a" for a
    by (simp add: copy_def)
qed

theorem strcpy_correct_witness:
  "\<exists>m'. strcpy ((\<lambda>_. 0)(100 := 104, 101 := 105)) 200 100 = Some m' \<and> str_at m' 200 [104, 105]"
  using strcpy_correct [of "(\<lambda>_. 0)(100 := 104, 101 := 105)" 100 "[104, 105]" 200]
  by (auto simp: str_at_Cons str_at_Nil)

text \<open>\<open>strncpy\<close> writes exactly \<open>n\<close> bytes: the source string up to its NUL or up to \<open>n\<close> bytes,
  then NUL padding; a source of \<open>n\<close> or more bytes leaves no terminating NUL.\<close>

theorem strncpy_correct:
  assumes "unat (dest - src) \<ge> unat n \<or> dest = src"
  shows "bytes (strncpy m dest src n) dest (unat n)
      = str_prefix m src (unat n) @ replicate (unat n - length (str_prefix m src (unat n))) 0
    \<and> (in_region a dest (unat n) \<or> strncpy m dest src n a = m a)"
  unfolding strncpy_result [OF assms]
  using copy_fill_outside [OF length_str_prefix less_imp_le [OF unat_u32_bound], of a dest n m src]
  by (auto simp: bytes_copy_fill length_str_prefix bytes_str_prefix)

theorem strncpy_correct_witness:
  "bytes (strncpy ((\<lambda>_. 7)(100 := 104, 101 := 105, 102 := 0)) 200 100 4) 200 4 = [104, 105, 0, 0]
   \<and> strncpy ((\<lambda>_. 7)(100 := 104, 101 := 105, 102 := 0)) 200 100 4 204 = 7"
  using strncpy_correct [where dest = 200 and src = 100 and n = 4 and a = 204
      and m = "(\<lambda>_. 7)(100 := 104, 101 := 105, 102 := 0)"]
  by (simp add: str_prefix_def bytes_4 replicate_two in_region_def)

end
