(* ===== verification/Machine.thy ===== *)
theory Machine
  imports OS_Prelude
begin

text \<open>
  The machine the kernel runs on, as far as its C code sees it: byte memory, I/O ports,
  the interrupt flag, and the place on the stack where a routine keeps its local array.
  \<open>outb\<close>, \<open>inb\<close>, \<open>cli\<close> and \<open>sti\<close> are the macros and inline functions of
  \<open>student-distrib/lib.h\<close>.
\<close>

section \<open>Machine state\<close>

text \<open>The port accesses of a run, newest first.\<close>

datatype io = Outb u8 u16 | Inb u16

text \<open>
  \<^item> \<open>mem\<close>: the memory under the current page mapping;
  \<^item> \<open>ports\<close>: the port accesses made so far;
  \<^item> \<open>device\<close>: what the hardware answers to a read of a port after these accesses;
  \<^item> \<open>intr\<close>: the interrupt flag of EFLAGS;
  \<^item> \<open>frame\<close>: the address of the local array of the library routine that is running
    (\<open>conv_buf\<close> of \<open>printf\<close>, \<open>temp_buf\<close> of \<open>print_withoutnull\<close>), chosen by the compiler;
  \<^item> \<open>uninit\<close>: the value that an uninitialised local pointer happens to hold.
\<close>

record machine =
  mem :: mem
  ports :: "io list"
  device :: "io list \<Rightarrow> u16 \<Rightarrow> u8"
  intr :: bool
  frame :: u32
  uninit :: u32

section \<open>Port and flag operations\<close>

definition outb :: "u8 \<Rightarrow> u16 \<Rightarrow> 'a machine_scheme \<Rightarrow> 'a machine_scheme" where
  "outb data port s = s\<lparr>ports := Outb data port # ports s\<rparr>"

definition inb :: "u16 \<Rightarrow> 'a machine_scheme \<Rightarrow> u8 \<times> 'a machine_scheme" where
  "inb port s = (device s (ports s) port, s\<lparr>ports := Inb port # ports s\<rparr>)"

definition cli :: "'a machine_scheme \<Rightarrow> 'a machine_scheme" where
  "cli s = s\<lparr>intr := False\<rparr>"

definition sti :: "'a machine_scheme \<Rightarrow> 'a machine_scheme" where
  "sti s = s\<lparr>intr := True\<rparr>"

lemmas machine_defs [kernel_defs] = outb_def inb_def cli_def sti_def

section \<open>Busy waiting\<close>

text \<open>
  A loop without a body that waits until an interrupt handler has made its condition true.
  The interrupts that are served while it runs are given as a list; with the condition still
  false and no interrupt left, it is still waiting. The drivers' wait loops have this contract.
\<close>

locale busy_wait =
  fixes wait :: "('s \<Rightarrow> 's) list \<Rightarrow> 's \<Rightarrow> ('s \<times> ('s \<Rightarrow> 's) list) option"
    and ready :: "'s \<Rightarrow> bool"
  assumes wait_Nil: "wait [] s = (if ready s then Some (s, []) else None)"
    and wait_Cons: "wait (i # rest) s = (if ready s then Some (s, i # rest) else wait rest (i s))"
begin

text \<open>The loop ends in the first state in which the condition holds, having served the
  interrupts before it and no other.\<close>

lemma wait_Some:
  "wait is s = Some (s', rest) \<Longrightarrow>
   ready s' \<and> (\<exists>served. is = served @ rest \<and> s' = fold (\<lambda>i. i) served s)"
proof (induction "is" arbitrary: s)
  case Nil
  then show ?case by (auto simp: wait_Nil split: if_splits)
next
  case (Cons i "is")
  show ?case
  proof (cases "ready s")
    case True
    then show ?thesis using Cons.prems by (auto simp: wait_Cons)
  next
    case False
    then have "wait is (i s) = Some (s', rest)" using Cons.prems by (simp add: wait_Cons)
    from Cons.IH [OF this] obtain served where
      "ready s'" "is = served @ rest" "s' = fold (\<lambda>i. i) served (i s)" by blast
    then have "i # is = (i # served) @ rest \<and> s' = fold (\<lambda>i. i) (i # served) s" by simp
    with \<open>ready s'\<close> show ?thesis by blast
  qed
qed

lemma wait_invariant:
  "wait is s = Some (s', rest) \<Longrightarrow> P s \<Longrightarrow> (\<And>i s. i \<in> set is \<Longrightarrow> P s \<Longrightarrow> P (i s)) \<Longrightarrow> P s'"
proof (induction "is" arbitrary: s)
  case Nil
  then show ?case by (auto simp: wait_Nil split: if_splits)
next
  case (Cons i "is")
  show ?case
  proof (cases "ready s")
    case True
    with Cons.prems show ?thesis by (auto simp: wait_Cons)
  next
    case False
    have "P (i s)" using Cons.prems(2,3) by simp
    then show ?thesis using False Cons.prems(1,3) by (intro Cons.IH [of "i s"]) (auto simp: wait_Cons)
  qed
qed

text \<open>If some interrupt makes the condition true, the loop ends.\<close>

lemma wait_returns: "ready (fold (\<lambda>i. i) served s) \<Longrightarrow> wait (served @ rest) s \<noteq> None"
proof (induction served arbitrary: s)
  case Nil
  then show ?case by (cases rest) (simp_all add: wait_Nil wait_Cons)
next
  case (Cons i served)
  then show ?case by (simp add: wait_Cons)
qed

text \<open>Interrupts that leave the condition false are all served.\<close>

lemma wait_skips:
  "(\<And>k. k < length served \<Longrightarrow> \<not> ready (fold (\<lambda>i. i) (take k served) s)) \<Longrightarrow>
   wait (served @ rest) s = wait rest (fold (\<lambda>i. i) served s)"
proof (induction served arbitrary: s)
  case (Cons i served)
  have "\<not> ready s" using Cons.prems [of 0] by simp
  moreover have "wait (served @ rest) (i s) = wait rest (fold (\<lambda>i. i) served (i s))"
    using Cons.prems [of "Suc k" for k] by (intro Cons.IH) simp
  ultimately show ?case by (simp add: wait_Cons)
qed simp

end

end
