(* ===== verification/Console.thy ===== *)
theory Console
  imports Machine
begin

text \<open>
  The text console of \<open>student-distrib/lib.c\<close>: the 80 by 25 text screen at \<open>VIDEO\<close>, the
  three backing pages of the terminals, the cursor of each terminal, and the routines
  that clear, scroll, switch and print. A screen cell is two bytes, a character and an
  attribute.
\<close>

section \<open>State and constants\<close>

text \<open>The static arrays \<open>screen_x\<close> and \<open>screen_y\<close> have one entry per terminal, indexed from 0;
  \<open>curr_terminal\<close> (the terminal on the screen) and \<open>curr_scheduled\<close> (the terminal whose
  process runs) are numbered from 1.\<close>

record console = machine +
  screen_x :: "int \<Rightarrow> int"
  screen_y :: "int \<Rightarrow> int"
  curr_terminal :: int
  curr_scheduled :: int
  video_mem :: u32

abbreviation VIDEO :: u32 where "VIDEO \<equiv> 0xB8000"
abbreviation VIDEO1 :: u32 where "VIDEO1 \<equiv> 0xB9000"
abbreviation VIDEO2 :: u32 where "VIDEO2 \<equiv> 0xBA000"
abbreviation VIDEO3 :: u32 where "VIDEO3 \<equiv> 0xBB000"
abbreviation ATTRIB :: u8 where "ATTRIB \<equiv> 0x0A"
abbreviation NUM_COLS :: int where "NUM_COLS \<equiv> 80"
abbreviation NUM_ROWS :: int where "NUM_ROWS \<equiv> 25"

section \<open>Clearing and scrolling\<close>

text \<open>The address \<open>base + (i << 1)\<close> of the character of cell \<open>i\<close>; its attribute follows.\<close>

definition cell_addr :: "u32 \<Rightarrow> nat \<Rightarrow> u32" where
  "cell_addr base i = base + of_nat (2 * i)"

text \<open>The body of the loops: the two bytes of cell \<open>i\<close> of the screen at \<open>base\<close>.\<close>

definition put_cell :: "u32 \<Rightarrow> nat \<Rightarrow> u8 \<Rightarrow> mem \<Rightarrow> mem" where
  "put_cell base i c m = m(cell_addr base i := c, cell_addr base i + 1 := ATTRIB)"

definition clear_page :: "u32 \<Rightarrow> mem \<Rightarrow> mem" where
  "clear_page base m = fold (\<lambda>i. put_cell base i 32) [0..<25 * 80] m"

definition clear :: "'a machine_scheme \<Rightarrow> 'a machine_scheme" where
  "clear s = s\<lparr>mem := clear_page VIDEO (mem s)\<rparr>"

definition clear1 :: "'a machine_scheme \<Rightarrow> 'a machine_scheme" where
  "clear1 s = s\<lparr>mem := clear_page VIDEO1 (mem s)\<rparr>"

definition clear2 :: "'a machine_scheme \<Rightarrow> 'a machine_scheme" where
  "clear2 s = s\<lparr>mem := clear_page VIDEO2 (mem s)\<rparr>"

definition clear3 :: "'a machine_scheme \<Rightarrow> 'a machine_scheme" where
  "clear3 s = s\<lparr>mem := clear_page VIDEO3 (mem s)\<rparr>"

text \<open>The two loops of \<open>scroll\<close>: every cell takes the character one row below, then the
  last row becomes blank.\<close>

definition scroll_page :: "u32 \<Rightarrow> mem \<Rightarrow> mem" where
  "scroll_page base m =
     fold (\<lambda>i. put_cell base i 32) [(25 - 1) * 80..<25 * 80]
       (fold (\<lambda>i m. put_cell base i (m (cell_addr base (i + 80))) m) [0..<(25 - 1) * 80] m)"

definition scroll :: "int \<Rightarrow> 'a console_scheme \<Rightarrow> 'a console_scheme" where
  "scroll x s =
     (let s = (if x = 0 then s\<lparr>mem := scroll_page (video_mem s) (mem s)\<rparr> else s)
      in if x = 1 then s\<lparr>mem := scroll_page VIDEO (mem s)\<rparr> else s)"

section \<open>Cursors\<close>

definition get_screenx :: "'a console_scheme \<Rightarrow> int" where
  "get_screenx s = screen_x s (curr_terminal s - 1)"

definition get_screeny :: "'a console_scheme \<Rightarrow> int" where
  "get_screeny s = screen_y s (curr_terminal s - 1)"

definition set_cursors :: "int \<Rightarrow> int \<Rightarrow> 'a console_scheme \<Rightarrow> 'a console_scheme" where
  "set_cursors pos_x pos_y s =
     (let (pos_x, pos_y) = (if pos_x < 0 then (NUM_COLS - 1, pos_y - 1) else (pos_x, pos_y))
      in if pos_x < 0 \<or> pos_x \<ge> NUM_COLS \<or> pos_y < 0 \<or> pos_y \<ge> NUM_ROWS then s
         else s\<lparr>screen_x := (screen_x s)(curr_terminal s - 1 := pos_x),
                screen_y := (screen_y s)(curr_terminal s - 1 := pos_y)\<rparr>)"

text \<open>\<open>pos\<close> is a \<open>uint16_t\<close>; its two bytes go to registers 0x0F and 0x0E of the CRT controller.\<close>

definition update_cursor :: "int \<Rightarrow> int \<Rightarrow> 'a machine_scheme \<Rightarrow> 'a machine_scheme" where
  "update_cursor x y s =
     (let pos = (of_int (y * NUM_COLS + x) :: u16);
          s = outb 0x0F 0x3D4 s;
          s = outb (ucast (pos AND 0xFF)) 0x3D5 s;
          s = outb 0x0E 0x3D4 s
      in outb (ucast (drop_bit 8 pos AND 0xFF)) 0x3D5 s)"

section \<open>Switching the displayed terminal\<close>

text \<open>The backing page of terminal \<open>n\<close>; other numbers leave the pointer uninitialised.\<close>

definition video_buf :: "int \<Rightarrow> 'a machine_scheme \<Rightarrow> u32" where
  "video_buf n s =
     (if n = 1 then VIDEO1 else if n = 2 then VIDEO2 else if n = 3 then VIDEO3 else uninit s)"

definition switch_page :: "u32 \<Rightarrow> u32 \<Rightarrow> mem \<Rightarrow> mem" where
  "switch_page f t m =
     fold (\<lambda>i m. let m = m(cell_addr f i := m (cell_addr VIDEO i))
                 in m(cell_addr VIDEO i := m (cell_addr t i))) [0..<25 * 80] m"

definition switch_terminal :: "int \<Rightarrow> int \<Rightarrow> 'a console_scheme \<Rightarrow> 'a console_scheme" where
  "switch_terminal from to s =
     (let s = cli s;
          f = video_buf from s;
          t = video_buf to s;
          s = s\<lparr>curr_terminal := to\<rparr>;
          s = update_cursor (screen_x s (curr_terminal s - 1)) (screen_y s (curr_terminal s - 1)) s
      in s\<lparr>mem := switch_page f t (mem s)\<rparr>)"

section \<open>Printing a character\<close>

text \<open>\<open>put_glyph\<close> is the common part of \<open>putc\<close> and \<open>putc2\<close>: terminal \<open>t\<close> (from 0), screen
  memory at \<open>base\<close>.\<close>

definition put_glyph :: "int \<Rightarrow> u32 \<Rightarrow> u8 \<Rightarrow> 'a console_scheme \<Rightarrow> 'a console_scheme" where
  "put_glyph t base c s =
     (if c = 10 \<or> c = 13 then
        s\<lparr>screen_y := (screen_y s)(t := screen_y s t + 1), screen_x := (screen_x s)(t := 0)\<rparr>
      else
        (let a = base + of_int (2 * (NUM_COLS * screen_y s t + screen_x s t));
             s = s\<lparr>mem := (mem s)(a := c, a + 1 := ATTRIB)\<rparr>;
             s = s\<lparr>screen_x := (screen_x s)(t := screen_x s t + 1)\<rparr>;
             s = s\<lparr>screen_y := (screen_y s)(t := screen_y s t + (screen_x s t sdiv NUM_COLS))\<rparr>
         in s\<lparr>screen_x := (screen_x s)(t := (screen_x s t smod NUM_COLS))\<rparr>))"

definition putc :: "u8 \<Rightarrow> 'a console_scheme \<Rightarrow> 'a console_scheme" where
  "putc c s =
     (let t = curr_scheduled s - 1;
          s = put_glyph t (video_mem s) c s;
          s = (if screen_y s t \<ge> NUM_ROWS then
                 (let s = scroll 0 s;
                      s = s\<lparr>screen_y := (screen_y s)(t := screen_y s t - 1)\<rparr>
                  in s\<lparr>screen_x := (screen_x s)(t := 0)\<rparr>)
               else s)
      in if curr_scheduled s = curr_terminal s then update_cursor (screen_x s t) (screen_y s t) s else s)"

definition putc2 :: "u8 \<Rightarrow> 'a console_scheme \<Rightarrow> 'a console_scheme" where
  "putc2 c s =
     (let t = curr_terminal s - 1;
          s = put_glyph t VIDEO c s;
          s = (if screen_y s t \<ge> NUM_ROWS then
                 (let s = scroll 1 s;
                      s = s\<lparr>screen_y := (screen_y s)(t := screen_y s t - 1)\<rparr>
                  in s\<lparr>screen_x := (screen_x s)(t := 0)\<rparr>)
               else s)
      in update_cursor (screen_x s t) (screen_y s t) s)"

section \<open>Printing strings\<close>

text \<open>The loop of \<open>puts\<close> and \<open>puts2\<close>, which differ in the routine \<open>put\<close> that prints a byte.
  Each byte is read from the memory as it is then; the index is the return value.\<close>

partial_function (option) puts_loop ::
    "(u8 \<Rightarrow> 'a console_scheme \<Rightarrow> 'a console_scheme) \<Rightarrow> u32 \<Rightarrow> u32 \<Rightarrow> 'a console_scheme \<Rightarrow>
     (u32 \<times> 'a console_scheme) option" where
  "puts_loop put str index s =
     (if mem s (str + index) \<noteq> 0 then puts_loop put str (index + 1) (put (mem s (str + index)) s)
      else Some (index, s))"

definition puts :: "u32 \<Rightarrow> 'a console_scheme \<Rightarrow> (u32 \<times> 'a console_scheme) option" where
  "puts str s = puts_loop putc str 0 s"

definition puts2 :: "u32 \<Rightarrow> 'a console_scheme \<Rightarrow> (u32 \<times> 'a console_scheme) option" where
  "puts2 str s = puts_loop putc2 str 0 s"

text \<open>A process prints to the screen when its terminal is displayed, else to its page.\<close>

definition put_user :: "u8 \<Rightarrow> 'a console_scheme \<Rightarrow> 'a console_scheme" where
  "put_user c s = (if curr_scheduled s = curr_terminal s then putc2 c s else putc c s)"

text \<open>\<open>putfile\<close> skips NUL bytes; \<open>index < length\<close> compares as unsigned.\<close>

function putfile_loop ::
    "u32 \<Rightarrow> u32 \<Rightarrow> u32 \<Rightarrow> 'a console_scheme \<Rightarrow> u32 \<times> 'a console_scheme" where
  "putfile_loop str len index s =
     (if index < len then
        (let c = mem s (str + index);
             s = (if c \<noteq> 0 then put_user c s else s)
         in putfile_loop str len (index + 1) s)
      else (index, s))"
  by pat_completeness auto
termination
  by (relation "measure (\<lambda>(str, len, index, s). unat len - unat index)")
     (auto simp: unat_inc_less word_less_nat_alt)

declare putfile_loop.simps [simp del]

definition putfile :: "u32 \<Rightarrow> u32 \<Rightarrow> 'a console_scheme \<Rightarrow> u32 \<times> 'a console_scheme" where
  "putfile str len s = putfile_loop str len 0 s"

text \<open>\<open>print_withoutnull\<close> copies the buffer byte by byte into its local array \<open>temp_buf\<close>, adds a
  NUL and prints \<open>nbytes + 1\<close> bytes. The array has the size of the request and lies on the 8 KB
  kernel stack of the process, with the process block at its far end; the model gives it the bytes
  from \<open>frame\<close> on, without a limit, so it describes the code for requests that fit on the stack.\<close>

function copy_loop :: "u32 \<Rightarrow> u32 \<Rightarrow> int \<Rightarrow> int \<Rightarrow> mem \<Rightarrow> mem" where
  "copy_loop dst src n i m =
     (if i < n then copy_loop dst src n (i + 1) (m(dst + of_int i := m (src + of_int i))) else m)"
  by pat_completeness auto
termination by (relation "measure (\<lambda>(dst, src, n, i, m). nat (n - i))") auto

declare copy_loop.simps [simp del]

definition print_withoutnull ::
    "u32 \<Rightarrow> int \<Rightarrow> 'a console_scheme \<Rightarrow> u32 \<times> 'a console_scheme" where
  "print_withoutnull buffer nbytes s =
     (let temp_buf = frame s;
          s = s\<lparr>mem := copy_loop temp_buf buffer nbytes 0 (mem s)\<rparr>;
          s = s\<lparr>mem := (mem s)(temp_buf + of_int nbytes := 0)\<rparr>
      in putfile temp_buf (of_int (nbytes + 1)) s)"

text \<open>\<open>test_interrupts\<close> increments every character cell.\<close>

definition test_interrupts :: "'a console_scheme \<Rightarrow> 'a console_scheme" where
  "test_interrupts s = s\<lparr>mem := fold (\<lambda>i m. m(cell_addr (video_mem s) i :=
     m (cell_addr (video_mem s) i) + 1)) [0..<25 * 80] (mem s)\<rparr>"

end
