(* ===== verification/Console_Laws.thy ===== *)
theory Console_Laws
  imports Console Lib_String
begin

text \<open>
  What the console routines do to the screen. The screen at a page is viewed as a list of
  2000 characters; \<open>spec_putc\<close> is the terminal that the code implements on such a list,
  and the interface \<open>char_device\<close> carries that refinement from one character to the
  printing loops.
\<close>

section \<open>The loops over cells\<close>

lemma cell_offset [simp]:
  assumes "i < 2000"
  shows "unat (cell_addr base i - base) = 2 * i" and "unat (cell_addr base i + 1 - base) = 2 * i + 1"
proof -
  have u: "unat (of_nat (2 * i) :: u32) = 2 * i" "unat (of_nat (2 * i + 1) :: u32) = 2 * i + 1"
    using assms by (simp_all only: unat_of_nat_small)
  show "unat (cell_addr base i - base) = 2 * i"
    unfolding cell_addr_def add_diff_cancel_left' by (rule u)
  have "cell_addr base i + 1 - base = of_nat (2 * i + 1)" by (simp add: cell_addr_def)
  then show "unat (cell_addr base i + 1 - base) = 2 * i + 1" by (simp only: u)
qed

lemma cell_eq_iff:
  assumes "i < 2000"
  shows "(a = cell_addr base i) = (unat (a - base) = 2 * i)"
    and "(a = cell_addr base i + 1) = (unat (a - base) = 2 * i + 1)"
  using cell_offset [OF assms, of base] by (metis offset_inject)+

lemma put_cell_apply:
  "i < 2000 \<Longrightarrow> put_cell base i c m a = (if unat (a - base) = 2 * i then c
     else if unat (a - base) = 2 * i + 1 then ATTRIB else m a)"
  by (simp add: put_cell_def cell_eq_iff fun_upd_apply)

lemma fold_put_cell:
  "hi \<le> 2000 \<Longrightarrow> fold (\<lambda>i. put_cell base i (g i)) [lo..<hi] m a
     = (if 2 * lo \<le> unat (a - base) \<and> unat (a - base) < 2 * hi
        then (if even (unat (a - base)) then g (unat (a - base) div 2) else ATTRIB) else m a)"
proof (induction hi)
  case (Suc hi)
  show ?case
  proof (cases "lo \<le> hi")
    case True
    let ?d = "unat (a - base)"
    have "fold (\<lambda>i. put_cell base i (g i)) [lo..<Suc hi] m a
        = put_cell base hi (g hi) (fold (\<lambda>i. put_cell base i (g i)) [lo..<hi] m) a"
      using True by simp
    also have "\<dots> = (if ?d = 2 * hi then g hi else if ?d = 2 * hi + 1 then ATTRIB
        else if 2 * lo \<le> ?d \<and> ?d < 2 * hi then (if even ?d then g (?d div 2) else ATTRIB) else m a)"
      using Suc by (simp add: put_cell_apply)
    also have "\<dots> = (if 2 * lo \<le> ?d \<and> ?d < 2 * Suc hi then (if even ?d then g (?d div 2) else ATTRIB)
        else m a)"
      using True by auto
    finally show ?thesis .
  next
    case False
    then show ?thesis by auto
  qed
qed simp

text \<open>The first loop of \<open>scroll\<close> reads cells that it has not written yet.\<close>

lemma fold_shift:
  "hi \<le> 1920 \<Longrightarrow> fold (\<lambda>i m. put_cell base i (m (cell_addr base (i + 80))) m) [lo..<hi] m
     = fold (\<lambda>i. put_cell base i (m (cell_addr base (i + 80)))) [lo..<hi] m"
proof (induction hi)
  case (Suc hi)
  show ?case
  proof (cases "lo \<le> hi")
    case True
    have "fold (\<lambda>i. put_cell base i (m (cell_addr base (i + 80)))) [lo..<hi] m
        (cell_addr base (hi + 80)) = m (cell_addr base (hi + 80))"
      using Suc.prems by (subst fold_put_cell) simp_all
    with Suc True show ?thesis by simp
  next
    case False
    then show ?thesis by simp
  qed
qed simp

section \<open>The screen of a page\<close>

definition screen_chars :: "mem \<Rightarrow> u32 \<Rightarrow> u8 list" where
  "screen_chars m base = map (\<lambda>i. m (cell_addr base i)) [0..<2000]"

definition attrs_ok :: "mem \<Rightarrow> u32 \<Rightarrow> bool" where
  "attrs_ok m base = list_all (\<lambda>i. m (cell_addr base i + 1) = ATTRIB) [0..<2000]"

lemma length_screen_chars [simp]: "length (screen_chars m base) = 2000"
  by (simp add: screen_chars_def)

lemma nth_screen_chars: "i < 2000 \<Longrightarrow> screen_chars m base ! i = m (cell_addr base i)"
  by (simp add: screen_chars_def)

lemma screen_chars_cong:
  "(\<And>a. in_region a base 4000 \<Longrightarrow> m a = m' a) \<Longrightarrow> screen_chars m base = screen_chars m' base"
  by (auto simp: screen_chars_def in_region_def)

lemma clear_page_apply:
  "clear_page base m a = (if in_region a base 4000
     then (if even (unat (a - base)) then 32 else ATTRIB) else m a)"
  unfolding clear_page_def by (subst fold_put_cell) (simp_all add: in_region_def)

lemma screen_clear_page: "screen_chars (clear_page base m) base = replicate 2000 32"
  by (rule nth_equalityI) (simp_all add: nth_screen_chars clear_page_apply in_region_def)

lemma attrs_clear_page: "attrs_ok (clear_page base m) base"
  by (simp add: attrs_ok_def list_all_iff clear_page_apply in_region_def)

lemma cell_addr_down: "even (unat (a - base)) \<Longrightarrow> cell_addr base (unat (a - base) div 2 + 80) = a + 160"
proof -
  assume "even (unat (a - base))"
  then have "2 * (unat (a - base) div 2 + 80) = unat (a - base) + 160" by simp
  then show ?thesis by (simp only: cell_addr_def of_nat_add) simp
qed

lemma scroll_page_apply:
  "scroll_page base m a = (let d = unat (a - base)
     in if d < 4000 then (if odd d then ATTRIB else if d < 3840 then m (a + 160) else 32) else m a)"
proof -
  have "scroll_page base m a = (let d = unat (a - base)
     in if 3840 \<le> d \<and> d < 4000 then (if even d then 32 else ATTRIB)
        else if d < 3840 then (if even d then m (cell_addr base (d div 2 + 80)) else ATTRIB) else m a)"
    unfolding scroll_page_def Let_def
    by (subst fold_put_cell, simp, subst fold_shift, simp, subst fold_put_cell, simp) simp
  then show ?thesis by (auto simp: Let_def cell_addr_down)
qed

lemma cell_addr_add: "cell_addr base i + 160 = cell_addr base (i + 80)"
  by (simp add: cell_addr_def)

lemma screen_scroll_page:
  "screen_chars (scroll_page base m) base = drop 80 (screen_chars m base) @ replicate 80 32"
proof (rule nth_equalityI)
  fix i
  assume "i < length (screen_chars (scroll_page base m) base)"
  then have i: "i < 2000" by simp
  show "screen_chars (scroll_page base m) base ! i
      = (drop 80 (screen_chars m base) @ replicate 80 32) ! i"
    using i by (cases "i < 1920")
      (simp_all add: nth_screen_chars scroll_page_apply Let_def nth_append cell_addr_add add.commute)
qed simp

lemma attrs_scroll_page: "attrs_ok (scroll_page base m) base"
  by (simp add: attrs_ok_def list_all_iff scroll_page_apply Let_def)

lemma scroll_page_outside: "\<not> in_region a base 4000 \<Longrightarrow> scroll_page base m a = m a"
  by (simp add: scroll_page_apply Let_def in_region_def)

lemma clear_page_outside: "\<not> in_region a base 4000 \<Longrightarrow> clear_page base m a = m a"
  by (simp add: clear_page_apply)

section \<open>The terminal that the code implements\<close>

text \<open>2000 characters and a cursor. A line feed or carriage return moves to the start of the
  next line, another character is stored at the cursor, which wraps at column 80, and a cursor
  below the last row scrolls the text up by one row.\<close>

record tview =
  tchars :: "u8 list"
  tx :: int
  ty :: int

definition spec_advance :: "u8 \<Rightarrow> tview \<Rightarrow> tview" where
  "spec_advance c v =
     (if c = 10 \<or> c = 13 then v\<lparr>tx := 0, ty := ty v + 1\<rparr>
      else v\<lparr>tchars := (tchars v)[nat (80 * ty v + tx v) := c],
             tx := (tx v + 1) mod 80, ty := ty v + (tx v + 1) div 80\<rparr>)"

definition spec_putc :: "u8 \<Rightarrow> tview \<Rightarrow> tview" where
  "spec_putc c v =
     (let v = spec_advance c v
      in if ty v \<ge> 25 then v\<lparr>tchars := drop 80 (tchars v) @ replicate 80 32, tx := 0, ty := ty v - 1\<rparr>
         else v)"

definition term_of :: "u32 \<Rightarrow> int \<Rightarrow> 'a console_scheme \<Rightarrow> tview" where
  "term_of base t s = \<lparr>tchars = screen_chars (mem s) base, tx = screen_x s t, ty = screen_y s t\<rparr>"

definition cursor_ok :: "int \<Rightarrow> 'a console_scheme \<Rightarrow> bool" where
  "cursor_ok t s \<longleftrightarrow> 0 \<le> screen_x s t \<and> screen_x s t < 80 \<and> 0 \<le> screen_y s t \<and> screen_y s t < 25"

lemma screen_put_cell:
  "k < 2000 \<Longrightarrow> screen_chars (put_cell base k c m) base = (screen_chars m base)[k := c]"
  by (rule nth_equalityI) (auto simp: nth_screen_chars put_cell_apply nth_list_update)

lemma attrs_put_cell: "k < 2000 \<Longrightarrow> attrs_ok m base \<Longrightarrow> attrs_ok (put_cell base k c m) base"
  by (simp add: attrs_ok_def list_all_iff put_cell_apply)

lemma put_cell_outside: "k < 2000 \<Longrightarrow> \<not> in_region a base 4000 \<Longrightarrow> put_cell base k c m a = m a"
  by (auto simp: put_cell_apply in_region_def)

text \<open>\<open>put_glyph\<close> with the wrap at the bottom, as \<open>putc\<close> and \<open>putc2\<close> both do it.\<close>

definition put_char_at :: "int \<Rightarrow> u32 \<Rightarrow> u8 \<Rightarrow> 'a console_scheme \<Rightarrow> 'a console_scheme" where
  "put_char_at t base c s =
     (let s = put_glyph t base c s
      in if screen_y s t \<ge> 25
         then s\<lparr>mem := scroll_page base (mem s), screen_y := (screen_y s)(t := screen_y s t - 1),
                screen_x := (screen_x s)(t := 0)\<rparr>
         else s)"

lemma put_glyph_newline:
  "c = 10 \<or> c = 13 \<Longrightarrow> put_glyph t base c s
     = s\<lparr>screen_y := (screen_y s)(t := screen_y s t + 1), screen_x := (screen_x s)(t := 0)\<rparr>"
  by (auto simp: put_glyph_def)

lemma put_glyph_char:
  assumes "c \<noteq> 10" "c \<noteq> 13" and ok: "cursor_ok t s"
  shows "put_glyph t base c s
     = s\<lparr>mem := put_cell base (nat (80 * screen_y s t + screen_x s t)) c (mem s),
         screen_x := (screen_x s)(t := (screen_x s t + 1) mod 80),
         screen_y := (screen_y s)(t := screen_y s t + (screen_x s t + 1) div 80)\<rparr>"
proof -
  let ?k = "80 * screen_y s t + screen_x s t"
  have "0 \<le> ?k" using ok by (simp add: cursor_ok_def)
  then have "base + of_int (2 * ?k) = cell_addr base (nat ?k)"
    by (simp add: cell_addr_def)
  then show ?thesis
    using assms by (simp add: put_glyph_def Let_def put_cell_def cursor_ok_def sdiv_nonneg smod_nonneg)
qed

lemma cell_index: "cursor_ok t s \<Longrightarrow> nat (80 * screen_y s t + screen_x s t) < 2000"
  unfolding cursor_ok_def by linarith

lemma put_char_at_term:
  assumes ok: "cursor_ok t s"
  shows "term_of base t (put_char_at t base c s) = spec_putc c (term_of base t s)"
proof (cases "c = 10 \<or> c = 13")
  case True
  then show ?thesis
    by (auto simp: put_char_at_def put_glyph_newline term_of_def spec_putc_def spec_advance_def
        Let_def screen_scroll_page)
next
  case False
  with ok cell_index [OF ok] show ?thesis
    by (simp add: put_char_at_def put_glyph_char term_of_def spec_putc_def spec_advance_def
        Let_def screen_scroll_page screen_put_cell)
qed

lemma put_char_at_cursor: "cursor_ok t s \<Longrightarrow> cursor_ok t (put_char_at t base c s)"
proof (cases "c = 10 \<or> c = 13")
  case True
  assume "cursor_ok t s"
  with True show ?thesis by (auto simp: put_char_at_def put_glyph_newline cursor_ok_def Let_def)
next
  case False
  assume ok: "cursor_ok t s"
  have "(screen_x s t + 1) div 80 = (if screen_x s t = 79 then 1 else 0)"
    using ok by (auto simp: cursor_ok_def)
  with False ok show ?thesis
    by (auto simp: put_char_at_def put_glyph_char cursor_ok_def Let_def)
qed

lemma put_char_at_mem:
  assumes "cursor_ok t s" and "\<not> in_region a base 4000"
  shows "mem (put_char_at t base c s) a = mem s a"
  using assms cell_index [of t s]
  by (cases "c = 10 \<or> c = 13")
    (auto simp: put_char_at_def put_glyph_newline put_glyph_char Let_def scroll_page_outside
      put_cell_outside)

lemma put_char_at_attrs:
  assumes "cursor_ok t s" and "attrs_ok (mem s) base"
  shows "attrs_ok (mem (put_char_at t base c s)) base"
  using assms cell_index [of t s]
  by (cases "c = 10 \<or> c = 13")
    (auto simp: put_char_at_def put_glyph_newline put_glyph_char Let_def attrs_scroll_page
      attrs_put_cell)

text \<open>The fields that printing a character does not write.\<close>

lemma put_char_at_frame:
  "video_mem (put_char_at t base c s) = video_mem s"
  "curr_terminal (put_char_at t base c s) = curr_terminal s"
  "curr_scheduled (put_char_at t base c s) = curr_scheduled s"
  "frame (put_char_at t base c s) = frame s"
  "i \<noteq> t \<Longrightarrow> screen_x (put_char_at t base c s) i = screen_x s i"
  "i \<noteq> t \<Longrightarrow> screen_y (put_char_at t base c s) i = screen_y s i"
  by (auto simp: put_char_at_def put_glyph_def Let_def)

lemma update_cursor_simps [simp]:
  "mem (update_cursor x y s) = mem s"
  "intr (update_cursor x y s) = intr s"
  "frame (update_cursor x y s) = frame s"
  by (simp_all add: update_cursor_def outb_def Let_def)

lemma update_cursor_console [simp]:
  "screen_x (update_cursor x y s) = screen_x s"
  "screen_y (update_cursor x y s) = screen_y s"
  "curr_terminal (update_cursor x y s) = curr_terminal s"
  "curr_scheduled (update_cursor x y s) = curr_scheduled s"
  "video_mem (update_cursor x y s) = video_mem s"
  for s :: "'a console_scheme"
  by (simp_all add: update_cursor_def outb_def Let_def)

lemma putc2_eq:
  "putc2 c s = (let t = curr_terminal s - 1; s' = put_char_at t VIDEO c s
     in update_cursor (screen_x s' t) (screen_y s' t) s')"
  by (simp add: putc2_def put_char_at_def scroll_def Let_def)

lemma putc_eq:
  "putc c s = (let t = curr_scheduled s - 1; s' = put_char_at t (video_mem s) c s
     in if curr_scheduled s = curr_terminal s then update_cursor (screen_x s' t) (screen_y s' t) s' else s')"
  by (simp add: putc_def put_char_at_def scroll_def put_glyph_def Let_def)

section \<open>The interface of a character device\<close>

text \<open>
  What \<open>putc\<close>, \<open>putc2\<close> and the choice between them promise the printing loops: in a state
  where the device is ready, printing a byte keeps it ready, changes its view as \<open>spec_putc\<close>
  says, and writes no memory outside the page at \<open>page\<close>.
\<close>

locale char_device =
  fixes put :: "u8 \<Rightarrow> 'a console_scheme \<Rightarrow> 'a console_scheme"
    and view :: "'a console_scheme \<Rightarrow> tview"
    and ready :: "'a console_scheme \<Rightarrow> bool"
    and page :: u32
  assumes view_put: "ready s \<Longrightarrow> view (put c s) = spec_putc c (view s)"
    and ready_put: "ready s \<Longrightarrow> ready (put c s)"
    and mem_put: "ready s \<Longrightarrow> \<not> in_region a page 4000 \<Longrightarrow> mem (put c s) a = mem s a"
    and frame_put: "ready s \<Longrightarrow> frame (put c s) = frame s"
begin

lemma fold_put:
  assumes "ready s"
  shows "ready (fold put cs s)" and "view (fold put cs s) = fold spec_putc cs (view s)"
    and "\<not> in_region a page 4000 \<Longrightarrow> mem (fold put cs s) a = mem s a" and "frame (fold put cs s) = frame s"
  using assms by (induction cs arbitrary: s) (simp_all add: view_put ready_put mem_put frame_put)

lemma puts_loop_fold:
  assumes "ready s"
    and "\<And>i. i < length cs \<Longrightarrow> mem s (str + index + of_nat i) = cs ! i \<and> cs ! i \<noteq> 0"
    and "mem s (str + index + of_nat (length cs)) = 0"
    and "\<And>i. i \<le> length cs \<Longrightarrow> \<not> in_region (str + index + of_nat i) page 4000"
  shows "puts_loop put str index s = Some (index + of_nat (length cs), fold put cs s)"
  using assms
proof (induction cs arbitrary: index s)
  case Nil
  then show ?case by (subst puts_loop.simps) simp
next
  case (Cons c cs)
  have c: "mem s (str + index) = c" "c \<noteq> 0" using Cons.prems(2) [of 0] by simp_all
  have keep: "mem (put c s) (str + (index + 1) + of_nat i) = mem s (str + index + of_nat (Suc i))"
    if "i \<le> length cs" for i
    using mem_put [OF Cons.prems(1) Cons.prems(4) [of "Suc i"], of c] that
    by (simp add: algebra_simps)
  have "puts_loop put str index s = puts_loop put str (index + 1) (put c s)"
    using c by (subst puts_loop.simps) simp
  also have "\<dots> = Some (index + 1 + of_nat (length cs), fold put cs (put c s))"
  proof (rule Cons.IH)
    show "ready (put c s)" by (rule ready_put) (rule Cons.prems(1))
    show "mem (put c s) (str + (index + 1) + of_nat i) = cs ! i \<and> cs ! i \<noteq> 0" if "i < length cs" for i
      using keep [of i] Cons.prems(2) [of "Suc i"] that by simp
    show "mem (put c s) (str + (index + 1) + of_nat (length cs)) = 0"
      using keep [of "length cs"] Cons.prems(3) by simp
    show "\<not> in_region (str + (index + 1) + of_nat i) page 4000" if "i \<le> length cs" for i
      using Cons.prems(4) [of "Suc i"] that by (simp add: algebra_simps)
  qed
  finally show ?case by (simp add: algebra_simps)
qed

text \<open>Printing a NUL-terminated string that does not lie in the screen.\<close>

lemma puts_str:
  assumes "ready s" and "str_at (mem s) str cs"
    and "\<And>i. i \<le> length cs \<Longrightarrow> \<not> in_region (str + of_nat i) page 4000"
  shows "puts_loop put str 0 s = Some (of_nat (length cs), fold put cs s)"
  using puts_loop_fold [of s cs str 0] assms str_at_nth [OF assms(2)] str_at_nz [OF assms(2)]
    str_at_end [OF assms(2)] by simp

end

text \<open>\<open>putc2\<close> is such a device on the displayed screen, with the cursor of the displayed
  terminal; \<open>putc\<close> is one on the page that \<open>video_mem\<close> points to, with the cursor of the
  scheduled terminal; \<open>put_user\<close> is one on the screen or that page.\<close>

definition screen_ready :: "int \<Rightarrow> 'a console_scheme \<Rightarrow> bool" where
  "screen_ready t s \<longleftrightarrow> curr_terminal s = t \<and> cursor_ok (t - 1) s"

definition page_ready :: "int \<Rightarrow> u32 \<Rightarrow> 'a console_scheme \<Rightarrow> bool" where
  "page_ready t base s \<longleftrightarrow> curr_scheduled s = t \<and> video_mem s = base \<and> cursor_ok (t - 1) s"

definition user_ready :: "int \<Rightarrow> int \<Rightarrow> u32 \<Rightarrow> 'a console_scheme \<Rightarrow> bool" where
  "user_ready t d base s \<longleftrightarrow> curr_scheduled s = t \<and> curr_terminal s = d \<and>
     (if t = d then base = VIDEO else video_mem s = base) \<and> cursor_ok (t - 1) s"

lemma cursor_ok_update [simp]: "cursor_ok t (update_cursor x y s) = cursor_ok t s"
  by (simp add: cursor_ok_def)

lemma term_of_update [simp]: "term_of base t (update_cursor x y s) = term_of base t s"
  by (simp add: term_of_def)

interpretation con2: char_device putc2 "term_of VIDEO (t - 1)" "screen_ready t" VIDEO for t
  by unfold_locales
    (auto simp: screen_ready_def putc2_eq Let_def put_char_at_term put_char_at_cursor
      put_char_at_mem put_char_at_frame)

interpretation con: char_device putc "term_of base (t - 1)" "page_ready t base" base for t base
  by unfold_locales
    (auto simp: page_ready_def putc_eq Let_def put_char_at_term put_char_at_cursor
      put_char_at_mem put_char_at_frame)

interpretation user: char_device put_user "term_of base (t - 1)" "user_ready t d base" base
  for t d base
  by unfold_locales
    (auto simp: user_ready_def put_user_def putc_eq putc2_eq Let_def put_char_at_term
      put_char_at_cursor put_char_at_mem put_char_at_frame split: if_splits)

section \<open>Switching terminals\<close>

text \<open>The loop of \<open>switch_terminal\<close> up to cell \<open>hi\<close>, for pages that do not overlap.\<close>

definition switch_step :: "u32 \<Rightarrow> u32 \<Rightarrow> nat \<Rightarrow> mem \<Rightarrow> mem" where
  "switch_step f t i m = (let m = m(cell_addr f i := m (cell_addr VIDEO i))
     in m(cell_addr VIDEO i := m (cell_addr t i)))"

lemma switch_page_fold: "switch_page f t m = fold (switch_step f t) [0..<2000] m"
  by (simp add: switch_page_def switch_step_def [abs_def] del: upt_rec_numeral)

lemma cell_in_region: "i < 2000 \<Longrightarrow> in_region (cell_addr base i) base 4000"
  by (simp add: in_region_def)

lemma cells_differ:
  "disjoint_regions b 4000 c 4000 \<Longrightarrow> i < 2000 \<Longrightarrow> j < 2000 \<Longrightarrow> cell_addr b i \<noteq> cell_addr c j"
  by (metis cell_in_region disjoint_regions_not_in)

lemma cell_inject: "i < 2000 \<Longrightarrow> j < 2000 \<Longrightarrow> (cell_addr b i = cell_addr b j) = (i = j)"
  by (simp add: cell_eq_iff)

lemma switch_step_cells:
  assumes fv: "disjoint_regions f 4000 VIDEO 4000" and tv: "disjoint_regions t 4000 VIDEO 4000"
    and ft: "disjoint_regions f 4000 t 4000" and "j < 2000" "i < 2000"
  shows "switch_step f t j m (cell_addr f i) = (if i = j then m (cell_addr VIDEO i) else m (cell_addr f i))"
    and "switch_step f t j m (cell_addr VIDEO i) = (if i = j then m (cell_addr t i) else m (cell_addr VIDEO i))"
    and "switch_step f t j m (cell_addr t i) = m (cell_addr t i)"
  using assms(4,5) cells_differ [OF fv, of i j] cells_differ [OF tv, of i j] cells_differ [OF ft, of i j]
    cells_differ [OF fv, of j i] cells_differ [OF ft, of j i]
  by (auto simp: switch_step_def Let_def cell_inject)

lemma switch_fold_cells:
  assumes fv: "disjoint_regions f 4000 VIDEO 4000" and tv: "disjoint_regions t 4000 VIDEO 4000"
    and ft: "disjoint_regions f 4000 t 4000" and i: "i < 2000"
  shows "hi \<le> 2000 \<Longrightarrow>
    fold (switch_step f t) [0..<hi] m (cell_addr f i)
       = (if i < hi then m (cell_addr VIDEO i) else m (cell_addr f i)) \<and>
    fold (switch_step f t) [0..<hi] m (cell_addr VIDEO i)
       = (if i < hi then m (cell_addr t i) else m (cell_addr VIDEO i)) \<and>
    fold (switch_step f t) [0..<hi] m (cell_addr t i) = m (cell_addr t i)"
proof (induction hi)
  case (Suc hi)
  then show ?case
    using switch_step_cells [OF fv tv ft _ i, of hi "fold (switch_step f t) [0..<hi] m"]
    by (auto simp: less_Suc_eq)
qed simp

lemma switch_step_outside:
  "j < 2000 \<Longrightarrow> \<not> in_region a f 4000 \<Longrightarrow> \<not> in_region a VIDEO 4000 \<Longrightarrow> switch_step f t j m a = m a"
  using cell_in_region [of j f] cell_in_region [of j VIDEO] by (auto simp: switch_step_def Let_def)

lemma switch_page_outside:
  assumes "\<not> in_region a f 4000" "\<not> in_region a VIDEO 4000"
  shows "switch_page f t m a = m a"
proof -
  have "hi \<le> 2000 \<Longrightarrow> fold (switch_step f t) [0..<hi] m a = m a" for hi
    using assms by (induction hi) (simp_all add: switch_step_outside)
  then show ?thesis unfolding switch_page_fold by blast
qed

text \<open>A switch saves the screen in the page of the old terminal, shows the page of the new one
  and leaves that page as it is.\<close>

lemma switch_page_screens:
  assumes "disjoint_regions f 4000 VIDEO 4000" and "disjoint_regions t 4000 VIDEO 4000"
    and "disjoint_regions f 4000 t 4000"
  shows "screen_chars (switch_page f t m) f = screen_chars m VIDEO"
    and "screen_chars (switch_page f t m) VIDEO = screen_chars m t"
    and "screen_chars (switch_page f t m) t = screen_chars m t"
proof -
  have cells: "switch_page f t m (cell_addr f i) = m (cell_addr VIDEO i)"
    "switch_page f t m (cell_addr VIDEO i) = m (cell_addr t i)"
    "switch_page f t m (cell_addr t i) = m (cell_addr t i)" if "i < 2000" for i
    unfolding switch_page_fold using switch_fold_cells [OF assms that order_refl] that by simp_all
  show "screen_chars (switch_page f t m) f = screen_chars m VIDEO"
    and "screen_chars (switch_page f t m) VIDEO = screen_chars m t"
    and "screen_chars (switch_page f t m) t = screen_chars m t"
    unfolding screen_chars_def using cells by auto
qed

text \<open>The four pages of the console do not overlap.\<close>

lemma pages_disjoint:
  assumes "b \<in> {VIDEO, VIDEO1, VIDEO2, VIDEO3}" and "c \<in> {VIDEO, VIDEO1, VIDEO2, VIDEO3}" and "b \<noteq> c"
  shows "disjoint_regions b 4000 c 4000"
  using assms by (auto simp: disjoint_regions_def)

lemma video_buf_page:
  "n \<in> {1, 2, 3} \<Longrightarrow> video_buf n s \<in> {VIDEO1, VIDEO2, VIDEO3}"
  by (auto simp: video_buf_def)

lemma video_buf_inject:
  "n \<in> {1, 2, 3} \<Longrightarrow> k \<in> {1, 2, 3} \<Longrightarrow> (video_buf n s = video_buf k s') = (n = k)"
  by (auto simp: video_buf_def)

lemma switch_terminal_mem:
  "mem (switch_terminal from to s) = switch_page (video_buf from s) (video_buf to s) (mem s)"
  by (simp add: switch_terminal_def Let_def video_buf_def cli_def)

lemma switch_terminal_console [simp]:
  "curr_terminal (switch_terminal from to s) = to"
  "curr_scheduled (switch_terminal from to s) = curr_scheduled s"
  "screen_x (switch_terminal from to s) = screen_x s"
  "screen_y (switch_terminal from to s) = screen_y s"
  "video_mem (switch_terminal from to s) = video_mem s"
  "intr (switch_terminal from to s) = False"
  "frame (switch_terminal from to s) = frame s"
  by (simp_all add: switch_terminal_def Let_def cli_def)

lemma switch_terminal_screens:
  assumes "from \<in> {1, 2, 3}" and "to \<in> {1, 2, 3}" and "from \<noteq> to"
  shows "screen_chars (mem (switch_terminal from to s)) (video_buf from s) = screen_chars (mem s) VIDEO"
    and "screen_chars (mem (switch_terminal from to s)) VIDEO = screen_chars (mem s) (video_buf to s)"
    and "screen_chars (mem (switch_terminal from to s)) (video_buf to s)
      = screen_chars (mem s) (video_buf to s)"
proof -
  have ne: "video_buf from s \<noteq> video_buf to s"
    using assms by (simp add: video_buf_inject)
  have d: "disjoint_regions (video_buf from s) 4000 VIDEO 4000"
    "disjoint_regions (video_buf to s) 4000 VIDEO 4000"
    "disjoint_regions (video_buf from s) 4000 (video_buf to s) 4000"
    using assms(1,2) ne video_buf_page [OF assms(1), of s] video_buf_page [OF assms(2), of s]
    by (auto intro!: pages_disjoint)
  show "screen_chars (mem (switch_terminal from to s)) (video_buf from s) = screen_chars (mem s) VIDEO"
    and "screen_chars (mem (switch_terminal from to s)) VIDEO = screen_chars (mem s) (video_buf to s)"
    and "screen_chars (mem (switch_terminal from to s)) (video_buf to s)
      = screen_chars (mem s) (video_buf to s)"
    unfolding switch_terminal_mem by (rule switch_page_screens [OF d])+
qed

text \<open>The page of a third terminal is not touched.\<close>

lemma switch_terminal_other:
  assumes "from \<in> {1, 2, 3}" and "to \<in> {1, 2, 3}" and "from \<noteq> to"
    and "n \<in> {1, 2, 3}" and "n \<noteq> from" and "n \<noteq> to"
  shows "screen_chars (mem (switch_terminal from to s)) (video_buf n s)
    = screen_chars (mem s) (video_buf n s)"
proof (rule screen_chars_cong)
  fix a
  assume a: "in_region a (video_buf n s) 4000"
  have "disjoint_regions (video_buf n s) 4000 (video_buf from s) 4000"
    "disjoint_regions (video_buf n s) 4000 VIDEO 4000"
    using assms by (auto intro!: pages_disjoint simp: video_buf_def)
  then show "mem (switch_terminal from to s) a = mem s a"
    unfolding switch_terminal_mem by (intro switch_page_outside) (rule disjoint_regions_not_in, assumption, rule a)+
qed

section \<open>Printing a buffer\<close>

lemma putfile_loop_run:
  assumes "user_ready t d base s" and "index \<le> len"
    and "\<And>i. i < unat len - unat index \<Longrightarrow> \<not> in_region (str + index + of_nat i) base 4000"
  shows "putfile_loop str len index s
    = (len, fold put_user (filter (\<lambda>c. c \<noteq> 0) (bytes (mem s) (str + index) (unat len - unat index))) s)"
  using assms
proof (induction "unat len - unat index" arbitrary: index s)
  case 0
  then show ?case
    by (simp add: putfile_loop.simps word_le_nat_alt word_less_nat_alt word_unat_eq_iff)
next
  case (Suc k)
  then have lt: "index < len" by (simp add: word_less_nat_alt)
  then have inc: "unat (index + 1) = Suc (unat index)" by (rule unat_inc_less)
  have k: "k = unat len - unat (index + 1)" using Suc.hyps(2) inc by linarith
  have le: "index + 1 \<le> len" using lt inc by (simp add: word_le_nat_alt word_less_nat_alt)
  let ?c = "mem s (str + index)"
  let ?s = "if ?c \<noteq> 0 then put_user ?c s else s"
  have ready: "user_ready t d base ?s" using user.ready_put [OF Suc.prems(1)] Suc.prems(1) by simp
  have out: "\<not> in_region (str + (index + 1) + of_nat i) base 4000" if "i < k" for i
    using Suc.prems(3) [of "Suc i"] that Suc.hyps(2) by (simp add: algebra_simps)
  have "bytes (mem ?s) (str + (index + 1)) k = bytes (mem s) (str + (index + 1)) k"
    using out user.mem_put [OF Suc.prems(1)] by (intro bytes_cong) auto
  moreover have "putfile_loop str len index s = putfile_loop str len (index + 1) ?s"
    using lt by (subst putfile_loop.simps) (simp add: Let_def)
  moreover have "putfile_loop str len (index + 1) ?s = (len, fold put_user
      (filter (\<lambda>c. c \<noteq> 0) (bytes (mem ?s) (str + (index + 1)) (unat len - unat (index + 1)))) ?s)"
    using out k by (intro Suc.hyps(1) [OF k ready le]) simp
  ultimately show ?case
    by (simp add: k [symmetric] Suc.hyps(2) [symmetric] add.assoc)
qed

lemma copy_loop_copy:
  "0 \<le> i \<Longrightarrow> nat (n - i) \<le> 4294967296 \<Longrightarrow> unat (dst - src) \<ge> nat (n - i) \<or> dst = src \<Longrightarrow>
   copy_loop dst src n i m = copy m (dst + of_int i) (src + of_int i) (nat (n - i))"
proof (induction dst src n i m rule: copy_loop.induct)
  case (1 dst src n i m)
  show ?case
  proof (cases "i < n")
    case True
    then have d: "nat (n - i) = Suc (nat (n - (i + 1)))" by linarith
    have "copy_loop dst src n i m = copy_loop dst src n (i + 1) (m(dst + of_int i := m (src + of_int i)))"
      using True by (subst copy_loop.simps) (simp del: fun_upd_apply)
    also have "\<dots> = copy (m(dst + of_int i := m (src + of_int i))) (dst + of_int i + 1)
        (src + of_int i + 1) (nat (n - (i + 1)))"
      using "1.prems" d by (subst "1.IH" [OF True]) (auto simp: ac_simps)
    also have "\<dots> = copy m (dst + of_int i) (src + of_int i) (nat (n - i))"
      unfolding d using "1.prems" d by (intro copy_Suc) auto
    finally show ?thesis .
  next
    case False
    then show ?thesis by (simp add: copy_loop.simps)
  qed
qed

text \<open>\<open>print_withoutnull\<close>: the non-NUL bytes of the buffer reach the process's terminal; the
  return value counts one byte more than was asked for.\<close>

lemma print_withoutnull_run:
  assumes ready: "user_ready t d base s" and n: "0 \<le> n" "n < 2147483648"
    and sep: "unat (frame s - buffer) \<ge> nat n \<or> frame s = buffer"
    and out: "\<And>i. i \<le> nat n \<Longrightarrow> \<not> in_region (frame s + of_nat i) base 4000"
  obtains m' where "print_withoutnull buffer n s = (of_int (n + 1),
      fold put_user (filter (\<lambda>c. c \<noteq> 0) (bytes (mem s) buffer (nat n))) (s\<lparr>mem := m'\<rparr>))"
    and "user_ready t d base (s\<lparr>mem := m'\<rparr>)"
    and "\<And>a. \<not> in_region a (frame s) (Suc (nat n)) \<Longrightarrow> m' a = mem s a"
proof -
  define tb where "tb = frame s"
  define m' where "m' = (copy (mem s) tb buffer (nat n))(tb + of_int n := 0)"
  have un: "unat (of_int (n + 1) :: u32) = Suc (nat n)"
    using n unat_of_int_u32 [of "n + 1"] by (simp add: nat_add_distrib del: of_int_add)
  have len: "unat (of_int (n + 1) :: u32) - unat (0 :: u32) = Suc (nat n)" using un by simp
  have ready': "user_ready t d base (s\<lparr>mem := m'\<rparr>)"
    using ready by (simp add: user_ready_def cursor_ok_def)
  have tbn: "tb + of_int n = tb + of_nat (nat n)" using n by simp
  have b: "bytes m' tb (Suc (nat n)) = bytes (mem s) buffer (nat n) @ [0]"
  proof (rule nth_equalityI)
    fix i
    assume "i < length (bytes m' tb (Suc (nat n)))"
    then have i: "i \<le> nat n" by simp
    have "tb + of_nat i = tb + of_nat (nat n) \<longleftrightarrow> i = nat n"
      using i n by (simp add: of_nat_u32_inject del: of_nat_nat)
    then show "bytes m' tb (Suc (nat n)) ! i = (bytes (mem s) buffer (nat n) @ [0]) ! i"
      using i n by (auto simp: nth_bytes nth_append m'_def tbn copy_def in_region_add
          simp del: bytes.simps of_nat_nat)
  qed simp
  have "copy_loop tb buffer n 0 (mem s) = copy (mem s) tb buffer (nat n)"
    using copy_loop_copy [of 0 n tb buffer "mem s"] sep n by (simp add: tb_def)
  then have "print_withoutnull buffer n s = putfile tb (of_int (n + 1)) (s\<lparr>mem := m'\<rparr>)"
    by (simp add: print_withoutnull_def Let_def m'_def tb_def del: of_int_add)
  also have "\<dots> = (of_int (n + 1), fold put_user (filter (\<lambda>c. c \<noteq> 0) (bytes m' tb (Suc (nat n)))) (s\<lparr>mem := m'\<rparr>))"
    using putfile_loop_run [OF ready', of 0 "of_int (n + 1)" tb] out
    unfolding putfile_def len by (simp add: tb_def less_Suc_eq_le del: bytes.simps of_int_add)
  finally have "print_withoutnull buffer n s = (of_int (n + 1),
      fold put_user (filter (\<lambda>c. c \<noteq> 0) (bytes (mem s) buffer (nat n))) (s\<lparr>mem := m'\<rparr>))"
    by (simp add: b del: bytes.simps of_int_add)
  moreover have "m' a = mem s a" if "\<not> in_region a (frame s) (Suc (nat n))" for a
  proof -
    have "a \<noteq> tb + of_nat (nat n)" "\<not> in_region a tb (nat n)"
      using that n in_region_add [of "nat n" "Suc (nat n)" tb]
      by (auto simp: tb_def in_region_def simp del: of_nat_nat)
    then show ?thesis by (simp add: m'_def tbn copy_outside del: of_nat_nat)
  qed
  ultimately show ?thesis using ready' by (intro that)
qed

section \<open>Output of a process that is not displayed\<close>

lemma put_char_at_ports [simp]: "ports (put_char_at t base c s) = ports s"
  by (simp add: put_char_at_def put_glyph_def Let_def)

lemma put_user_background:
  assumes "user_ready t d base s" and "t \<noteq> d"
  shows "ports (put_user c s) = ports s"
    and "screen_x (put_user c s) (d - 1) = screen_x s (d - 1)"
    and "screen_y (put_user c s) (d - 1) = screen_y s (d - 1)"
  using assms by (auto simp: user_ready_def put_user_def putc_eq Let_def put_char_at_frame)

lemma fold_put_user_background:
  assumes "user_ready t d base s" and "t \<noteq> d"
  shows "ports (fold put_user cs s) = ports s"
    and "screen_x (fold put_user cs s) (d - 1) = screen_x s (d - 1)"
    and "screen_y (fold put_user cs s) (d - 1) = screen_y s (d - 1)"
  using assms
  by (induction cs arbitrary: s) (simp_all add: put_user_background user.ready_put)

text \<open>A process of a terminal moves no other terminal's cursor.\<close>

lemma put_user_cursors:
  assumes "u \<noteq> curr_scheduled s - 1"
  shows "screen_x (put_user c s) u = screen_x s u" "screen_y (put_user c s) u = screen_y s u"
  using assms by (auto simp: put_user_def putc_def putc2_def put_glyph_def scroll_def update_cursor_def outb_def Let_def)

lemma put_user_scheduled: "curr_scheduled (put_user c s) = curr_scheduled s"
  by (auto simp: put_user_def putc_def putc2_def put_glyph_def scroll_def update_cursor_def outb_def Let_def)

lemma fold_put_user_cursors:
  assumes "u \<noteq> curr_scheduled s - 1"
  shows "screen_x (fold put_user cs s) u = screen_x s u" "screen_y (fold put_user cs s) u = screen_y s u"
  using assms by (induction cs arbitrary: s) (simp_all add: put_user_cursors put_user_scheduled)

lemma fold_put_user_screen:
  assumes ready: "user_ready t d base s" and dis: "disjoint_regions base 4000 other 4000"
  shows "screen_chars (mem (fold put_user cs s)) other = screen_chars (mem s) other"
proof (rule screen_chars_cong)
  fix a
  assume "in_region a other 4000"
  then have "\<not> in_region a base 4000"
    using dis disjoint_regions_not_in [of other 4000 base 4000 a] by (simp add: disjoint_regions_sym)
  then show "mem (fold put_user cs s) a = mem s a" by (rule user.fold_put(3) [OF ready])
qed

section \<open>Properties\<close>

lemma le_numeral_3: "(i \<le> (3::nat)) = (i = 0 \<or> i = 1 \<or> i = 2 \<or> i = 3)"
  by auto

text \<open>A console for the examples: terminal 1 on the screen, terminal 2 scheduled.\<close>

definition sample_console :: console where
  "sample_console = \<lparr>mem = \<lambda>a. if 0x9000 \<le> a \<and> a < 0x9005 then 65 else 0, ports = [], device = \<lambda>_ _. 0, intr = True,
     frame = 0x7FF000, uninit = 0, screen_x = \<lambda>_. 0, screen_y = \<lambda>_. 24,
     curr_terminal = 1, curr_scheduled = 2, video_mem = VIDEO2\<rparr>"

lemmas sample_simps = sample_console_def cursor_ok_def user_ready_def screen_ready_def

text \<open>C36. \<open>putc2\<close> implements the terminal \<open>spec_putc\<close> on the displayed screen: line feeds, the
  wrap at column 80 and scrolling at the last row included. The cursor stays on the screen and
  no memory outside the screen changes.\<close>

theorem putc2_refines:
  assumes "cursor_ok (curr_terminal s - 1) s"
  shows "term_of VIDEO (curr_terminal s - 1) (putc2 c s)
      = spec_putc c (term_of VIDEO (curr_terminal s - 1) s)
    \<and> cursor_ok (curr_terminal s - 1) (putc2 c s)
    \<and> (\<forall>a. in_region a VIDEO 4000 \<or> mem (putc2 c s) a = mem s a)"
proof -
  have r: "screen_ready (curr_terminal s) s" using assms by (simp add: screen_ready_def)
  have "screen_ready (curr_terminal s) (putc2 c s)" by (rule con2.ready_put [OF r])
  then show ?thesis using con2.view_put [OF r] con2.mem_put [OF r]
    by (auto simp: screen_ready_def)
qed

theorem putc2_refines_witness:
  "tchars (term_of VIDEO 0 (putc2 10 sample_console))
     = drop 80 (screen_chars (mem sample_console) VIDEO) @ replicate 80 32
   \<and> screen_y (putc2 10 sample_console) 0 = 24"
  using putc2_refines [of sample_console 10]
  by (auto simp: sample_simps term_of_def spec_putc_def spec_advance_def)

text \<open>C37. What a process prints while another terminal is displayed goes to the page of its own
  terminal alone: its page and cursor become what the terminal specification says, no other byte of
  memory changes (neither the screen nor the page of the third terminal), no other terminal's cursor
  moves, and nothing is sent to the CRT controller.\<close>

theorem background_output:
  assumes "curr_scheduled s \<in> {1, 2, 3}" and "curr_scheduled s \<noteq> curr_terminal s"
    and "video_mem s = video_buf (curr_scheduled s) s" and "cursor_ok (curr_scheduled s - 1) s"
  shows "term_of (video_buf (curr_scheduled s) s) (curr_scheduled s - 1) (fold put_user cs s)
      = fold spec_putc cs (term_of (video_buf (curr_scheduled s) s) (curr_scheduled s - 1) s)
    \<and> (\<forall>a. \<not> in_region a (video_buf (curr_scheduled s) s) 4000 \<longrightarrow> mem (fold put_user cs s) a = mem s a)
    \<and> (\<forall>t. t \<noteq> curr_scheduled s - 1 \<longrightarrow> screen_x (fold put_user cs s) t = screen_x s t
        \<and> screen_y (fold put_user cs s) t = screen_y s t)
    \<and> ports (fold put_user cs s) = ports s"
proof -
  let ?t = "curr_scheduled s" and ?d = "curr_terminal s" and ?b = "video_mem s"
  have "?b \<in> {VIDEO1, VIDEO2, VIDEO3}" using video_buf_page [OF assms(1)] assms(3) by simp
  then have r: "user_ready ?t ?d ?b s" using assms by (simp add: user_ready_def)
  have "mem (fold put_user cs s) a = mem s a" if "\<not> in_region a ?b 4000" for a
    using that by (rule user.fold_put(3) [OF r])
  then show ?thesis
    using user.fold_put(2) [OF r] fold_put_user_background(1) [OF r assms(2)] fold_put_user_cursors
    unfolding assms(3) by blast
qed

theorem background_output_witness:
  "term_of VIDEO2 1 (fold put_user [72, 105, 10] sample_console)
     = fold spec_putc [72, 105, 10] (term_of VIDEO2 1 sample_console)
   \<and> mem (fold put_user [72, 105, 10] sample_console) VIDEO3 = mem sample_console VIDEO3
   \<and> screen_y (fold put_user [72, 105, 10] sample_console) 2 = 24
   \<and> ports (fold put_user [72, 105, 10] sample_console) = []"
  using background_output [of sample_console "[72, 105, 10]"]
  by (simp add: sample_simps video_buf_def in_region_def del: fold.simps)

text \<open>\<open>puts2\<close> returns for every string that does not lie in the screen, with the number of
  characters printed, and the screen shows them in order.\<close>

theorem puts2_prints:
  assumes "cursor_ok (curr_terminal s - 1) s" and "str_at (mem s) str cs"
    and "\<forall>i \<le> length cs. \<not> in_region (str + of_nat i) VIDEO 4000"
  shows "\<exists>s'. puts2 str s = Some (of_nat (length cs), s')
    \<and> term_of VIDEO (curr_terminal s - 1) s' = fold spec_putc cs (term_of VIDEO (curr_terminal s - 1) s)"
proof -
  have r: "screen_ready (curr_terminal s) s" using assms by (simp add: screen_ready_def)
  then show ?thesis
    using con2.puts_str [OF r assms(2)] con2.fold_put(2) [OF r] assms(3) by (simp add: puts2_def)
qed

theorem puts2_prints_witness:
  "\<exists>s'. puts2 0x9000 sample_console = Some (5, s')
    \<and> term_of VIDEO 0 s' = fold spec_putc [65, 65, 65, 65, 65] (term_of VIDEO 0 sample_console)"
  using puts2_prints [of sample_console "0x9000" "[65, 65, 65, 65, 65]"]
  by (auto simp: sample_simps str_at_Cons str_at_Nil in_region_def le_Suc_eq
      simp del: fold.simps)

text \<open>C38. Switching from one terminal to another and back restores the screen, and the pages of
  the terminal that was shown in between and of the third terminal, as they were.\<close>

theorem switch_terminal_round_trip:
  assumes "a \<in> {1, 2, 3}" and "b \<in> {1, 2, 3}" and "a \<noteq> b"
  shows "let s' = switch_terminal b a (switch_terminal a b s)
    in screen_chars (mem s') VIDEO = screen_chars (mem s) VIDEO
     \<and> screen_chars (mem s') (video_buf b s) = screen_chars (mem s) (video_buf b s)
     \<and> screen_chars (mem s') (video_buf (6 - a - b) s) = screen_chars (mem s) (video_buf (6 - a - b) s)
     \<and> curr_terminal s' = a"
proof -
  let ?s1 = "switch_terminal a b s"
  have ba: "b \<noteq> a" using assms by auto
  have c: "6 - a - b \<in> {1, 2, 3}" "6 - a - b \<noteq> a" "6 - a - b \<noteq> b" using assms by auto
  have buf: "video_buf n ?s1 = video_buf n s" "video_buf n (switch_terminal b a ?s1) = video_buf n s"
    if "n \<in> {1, 2, 3}" for n
    using that by (auto simp: video_buf_def)
  note there = switch_terminal_screens [OF assms, of s]
    and home = switch_terminal_screens [OF assms(2,1) ba, of ?s1]
  have third: "screen_chars (mem (switch_terminal b a ?s1)) (video_buf (6 - a - b) s)
      = screen_chars (mem s) (video_buf (6 - a - b) s)"
    using switch_terminal_other [OF assms c(1-3), of s]
      switch_terminal_other [OF assms(2,1) ba c(1) c(3,2), of ?s1]
    by (simp only: buf [OF c(1)])
  show ?thesis
    using there home third buf [OF assms(1)] buf [OF assms(2)] by (simp add: Let_def)
qed

theorem switch_terminal_round_trip_witness:
  "screen_chars (mem (switch_terminal 2 1 (switch_terminal 1 2 sample_console))) VIDEO
    = screen_chars (mem sample_console) VIDEO"
  using switch_terminal_round_trip [of 1 2 sample_console] by (simp add: Let_def)

text \<open>\<open>print_withoutnull\<close> prints the non-NUL bytes of the buffer on the terminal of the
  running process and returns one more than the length it was given.\<close>

theorem print_withoutnull_prints:
  assumes "user_ready t d base s" and "0 \<le> n" and "n < 2147483648"
    and "unat (frame s - buffer) \<ge> nat n"
    and "\<forall>i \<le> nat n. \<not> in_region (frame s + of_nat i) base 4000"
  shows "fst (print_withoutnull buffer n s) = of_int (n + 1)
    \<and> term_of base (t - 1) (snd (print_withoutnull buffer n s))
      = fold spec_putc (filter (\<lambda>c. c \<noteq> 0) (bytes (mem s) buffer (nat n))) (term_of base (t - 1) s)"
proof -
  obtain m' where m': "print_withoutnull buffer n s = (of_int (n + 1),
      fold put_user (filter (\<lambda>c. c \<noteq> 0) (bytes (mem s) buffer (nat n))) (s\<lparr>mem := m'\<rparr>))"
    and ready: "user_ready t d base (s\<lparr>mem := m'\<rparr>)"
    and frame: "\<And>a. \<not> in_region a (frame s) (Suc (nat n)) \<Longrightarrow> m' a = mem s a"
    by (rule print_withoutnull_run [OF assms(1,2,3) disjI1 [OF assms(4)]]) (use assms(5) in auto)
  have "m' a = mem s a" if "in_region a base 4000" for a
  proof (rule frame)
    show "\<not> in_region a (frame s) (Suc (nat n))"
    proof
      assume "in_region a (frame s) (Suc (nat n))"
      then obtain i where "i < Suc (nat n)" "a = frame s + of_nat i" by (rule in_regionE)
      with that assms(5) show False by (simp add: less_Suc_eq_le)
    qed
  qed
  then have "term_of base (t - 1) (s\<lparr>mem := m'\<rparr>) = term_of base (t - 1) s"
    by (simp add: term_of_def cong: screen_chars_cong)
  then show ?thesis using m' user.fold_put(2) [OF ready] by simp
qed

theorem print_withoutnull_prints_witness:
  "fst (print_withoutnull 0x9000 3 sample_console) = 4
   \<and> term_of VIDEO2 1 (snd (print_withoutnull 0x9000 3 sample_console))
      = fold spec_putc [65, 65, 65] (term_of VIDEO2 1 sample_console)"
  using print_withoutnull_prints [of 2 1 VIDEO2 sample_console 3 "0x9000"]
  by (simp add: sample_simps le_numeral_3 in_region_def bytes_3 del: fold.simps)

end
