(* ===== verification/Filesys.thy ===== *)
theory Filesys
  imports Lib_Mem Lib_String
begin

text \<open>
  The read-only file system of \<open>student-distrib/filesys.c\<close>. The image sits in memory at
  \<open>filesys_addr\<close>, in blocks of 4096 bytes: the boot block (counts, then 64-byte directory
  entries from offset 64 on), one block per inode (length, then block numbers), and the data
  blocks. \<open>file_read\<close> and \<open>file_close\<close>, which work on the file table of a process, are in
  \<open>Sys_Calls\<close>.
\<close>

section \<open>State\<close>

abbreviation MEM_SIZE_4kB :: u32 where "MEM_SIZE_4kB \<equiv> 0x1000"
abbreviation FILE_NAME_SIZE :: int where "FILE_NAME_SIZE \<equiv> 32"

text \<open>A directory entry \<open>dentry_t\<close>: 64 bytes in memory, read as this record.\<close>

record dentry =
  file_name :: "u8 list"
  file_type :: int
  inode_num :: int
  reserved :: "u8 list"

definition load_dentry :: "mem \<Rightarrow> u32 \<Rightarrow> dentry" where
  "load_dentry m p = \<lparr>file_name = bytes m p 32, file_type = load_int m (p + 32),
     inode_num = load_int m (p + 36), reserved = bytes m (p + 40) 24\<rparr>"

section \<open>Directory entries\<close>

text \<open>The loop of \<open>read_dentry_by_name\<close>; the result is the return value and the memory, in
  which the entry found has been copied to \<open>dentry\<close>.\<close>

function find_dentry :: "u32 \<Rightarrow> u32 \<Rightarrow> int \<Rightarrow> int \<Rightarrow> u32 \<Rightarrow> mem \<Rightarrow> int \<times> mem" where
  "find_dentry fname dentry amt_dentrys count dentry_loop m =
     (if count < amt_dentrys then
        (if strncmp m dentry_loop fname 32 = 0 then (0, memcpy m dentry dentry_loop 64)
         else find_dentry fname dentry amt_dentrys (count + 1) (dentry_loop + 64) m)
      else (-1, m))"
  by pat_completeness auto
termination
  by (relation "measure (\<lambda>(fname, dentry, amt, count, p, m). nat (amt - count))") auto

declare find_dentry.simps [simp del]

definition read_dentry_by_name :: "u32 \<Rightarrow> u32 \<Rightarrow> u32 \<Rightarrow> mem \<Rightarrow> int \<times> mem" where
  "read_dentry_by_name filesys_addr fname dentry m =
     (if fname = 0 \<or> dentry = 0 then (-1, m)
      else find_dentry fname dentry (load_int m filesys_addr) 0 (filesys_addr + 64) m)"

text \<open>\<open>index > amt_dentrys\<close> compares as unsigned; \<open>index < 0\<close> never holds.\<close>

definition read_dentry_by_index :: "u32 \<Rightarrow> u32 \<Rightarrow> u32 \<Rightarrow> mem \<Rightarrow> int \<times> mem" where
  "read_dentry_by_index filesys_addr index dentry m =
     (if index > load32 m filesys_addr then (-1, m)
      else (0, memcpy m dentry (filesys_addr + 64 + 64 * index) 64))"

section \<open>File data\<close>

text \<open>The copying loop of \<open>read_data\<close>. \<open>count < file_length\<close> and \<open>count < length\<close> compare as
  unsigned; at the end of a data block the next block number is fetched from the inode.\<close>

function read_data_loop ::
    "u32 \<Rightarrow> u32 \<Rightarrow> u32 \<Rightarrow> u32 \<Rightarrow> u32 \<Rightarrow> u32 \<Rightarrow> u32 \<Rightarrow> mem \<Rightarrow> u32 \<times> mem" where
  "read_data_loop file_length len data_block inode_block at_db buf count m =
     (if count < file_length \<and> count < len then
        (let m = m(buf := m at_db);
             at_db = at_db + 1
         in if at_db mod MEM_SIZE_4kB = 0 then
              read_data_loop file_length len data_block (inode_block + 4)
                (data_block + load32 m (inode_block + 4) * MEM_SIZE_4kB) (buf + 1) (count + 1) m
            else read_data_loop file_length len data_block inode_block at_db (buf + 1) (count + 1) m)
      else (count, m))"
  by pat_completeness auto
termination
  by (relation "measure (\<lambda>(flen, len, db, ib, at, buf, count, m). unat len - unat count)")
     (auto simp: unat_inc_less word_less_nat_alt)

declare read_data_loop.simps [simp del]

definition read_data :: "u32 \<Rightarrow> u32 \<Rightarrow> u32 \<Rightarrow> u32 \<Rightarrow> u32 \<Rightarrow> mem \<Rightarrow> u32 \<times> mem" where
  "read_data filesys_addr inode offset buf len m =
     (let amt_inodes = load32 m (filesys_addr + 4);
          inode_block = filesys_addr + MEM_SIZE_4kB + inode * MEM_SIZE_4kB;
          file_length = load32 m inode_block
      in if offset > file_length then (0, m)
         else
           (let skip_dbs = offset div MEM_SIZE_4kB;
                offset_indb = offset mod MEM_SIZE_4kB;
                inode_block = inode_block + 4 + 4 * skip_dbs;
                data_block = filesys_addr + MEM_SIZE_4kB * (amt_inodes + 1);
                at_db = data_block + load32 m inode_block * MEM_SIZE_4kB + offset_indb
            in read_data_loop file_length len data_block inode_block at_db buf 0 m))"

definition file_size :: "u32 \<Rightarrow> int \<Rightarrow> mem \<Rightarrow> int" where
  "file_size filesys_addr inode m =
     load_int m (filesys_addr + MEM_SIZE_4kB + of_int (inode * 4096))"

text \<open>The file system has no writes, and opening a file is the work of the system call.\<close>

definition file_write :: "int \<Rightarrow> u32 \<Rightarrow> int \<Rightarrow> int" where
  "file_write fd buf nbytes = -1"

definition file_open :: "u32 \<Rightarrow> int" where
  "file_open filename = 0"

end
