(* ===== verification/Filesys_Laws.thy ===== *)
theory Filesys_Laws
  imports Filesys
begin

text \<open>
  What the file system routines read. A byte of a file is located by \<open>data_addr\<close>: the block
  number in the inode gives the data block, and the position within the block the byte.
  \<open>read_data\<close> copies such bytes in order; the lookups find the first entry with the name.
\<close>

section \<open>The layout of the image\<close>

definition inode_addr :: "u32 \<Rightarrow> u32 \<Rightarrow> u32" where
  "inode_addr fs inode = fs + 0x1000 + inode * 0x1000"

text \<open>The address of the number of the \<open>k\<close>-th data block of a file.\<close>

definition block_addr :: "u32 \<Rightarrow> u32 \<Rightarrow> nat \<Rightarrow> u32" where
  "block_addr fs inode k = inode_addr fs inode + 4 + 4 * of_nat k"

definition data_base :: "mem \<Rightarrow> u32 \<Rightarrow> u32" where
  "data_base m fs = fs + 0x1000 * (load32 m (fs + 4) + 1)"

definition data_addr :: "mem \<Rightarrow> u32 \<Rightarrow> u32 \<Rightarrow> nat \<Rightarrow> u32" where
  "data_addr m fs inode p =
     data_base m fs + load32 m (block_addr fs inode (p div 4096)) * 0x1000 + of_nat (p mod 4096)"

definition file_length :: "mem \<Rightarrow> u32 \<Rightarrow> u32 \<Rightarrow> nat" where
  "file_length m fs inode = unat (load32 m (inode_addr fs inode))"

definition file_bytes :: "mem \<Rightarrow> u32 \<Rightarrow> u32 \<Rightarrow> nat \<Rightarrow> nat \<Rightarrow> u8 list" where
  "file_bytes m fs inode offset n = map (\<lambda>i. m (data_addr m fs inode (offset + i))) [0..<n]"

text \<open>The first \<open>n\<close> bytes of the file, the block numbers that lead to them and the counts of
  the boot block lie in the \<open>sz\<close> bytes of the image.\<close>

definition in_image :: "u32 \<Rightarrow> nat \<Rightarrow> u32 \<Rightarrow> bool" where
  "in_image fs sz a \<longleftrightarrow> unat (a - fs) + 4 \<le> sz"

definition file_in_image :: "mem \<Rightarrow> u32 \<Rightarrow> nat \<Rightarrow> u32 \<Rightarrow> nat \<Rightarrow> bool" where
  "file_in_image m fs sz inode n \<longleftrightarrow> sz \<le> 4294967296 \<and> in_image fs sz (fs + 4)
     \<and> list_all (\<lambda>p. in_region (data_addr m fs inode p) fs sz
         \<and> in_image fs sz (block_addr fs inode (p div 4096))) [0..<n]"

lemma in_image_bytes:
  assumes "in_image fs sz a" "sz \<le> 4294967296" "k < 4"
  shows "in_region (a + of_nat k) fs sz"
proof -
  have off: "a + of_nat k - fs = (a - fs) + of_nat k" by simp
  have "unat ((a - fs) + of_nat k) = unat (a - fs) + k"
    using assms by (simp add: in_image_def unat_word_ariths unat_of_nat_small)
  then show ?thesis using assms by (simp add: in_image_def in_region_def off)
qed

text \<open>Memories that agree on the image hold the same file system.\<close>

definition same_image :: "u32 \<Rightarrow> nat \<Rightarrow> mem \<Rightarrow> mem \<Rightarrow> bool" where
  "same_image fs sz m m' \<longleftrightarrow> (\<forall>a. in_region a fs sz \<longrightarrow> m' a = m a)"

lemma same_image_refl [simp]: "same_image fs sz m m"
  by (simp add: same_image_def)

lemma same_image_trans: "same_image fs sz m m' \<Longrightarrow> same_image fs sz m' m'' \<Longrightarrow> same_image fs sz m m''"
  by (simp add: same_image_def)

lemma same_image_load:
  assumes "same_image fs sz m m'" "in_image fs sz a" "sz \<le> 4294967296"
  shows "load32 m' a = load32 m a"
proof -
  have "m' (a + of_nat k) = m (a + of_nat k)" if "k < 4" for k
    using in_image_bytes [OF assms(2,3) that] assms(1) by (simp add: same_image_def)
  from this [of 0] this [of 1] this [of 2] this [of 3] show ?thesis
    by (intro load32_cong) simp_all
qed

lemma same_image_data:
  assumes "same_image fs sz m m'" "file_in_image m fs sz inode n" "p < n"
  shows "data_addr m' fs inode p = data_addr m fs inode p"
    and "m' (data_addr m fs inode p) = m (data_addr m fs inode p)"
  using assms same_image_load [OF assms(1)]
  by (simp_all add: file_in_image_def list_all_iff data_addr_def data_base_def same_image_def)

lemma same_image_file_in_image:
  assumes "same_image fs sz m m'" "file_in_image m fs sz inode n"
  shows "file_in_image m' fs sz inode n"
  using assms same_image_data(1) [OF assms]
  by (simp add: file_in_image_def list_all_iff)

lemma same_image_upd: "\<not> in_region x fs sz \<Longrightarrow> same_image fs sz m (m(x := v))"
  by (auto simp: same_image_def)

section \<open>Positions and block boundaries\<close>

lemma unat_mod_4096: "unat (x mod 0x1000 :: u32) = unat x mod 4096"
  by (simp add: unat_mod)

lemma block_aligned:
  assumes "fs mod 0x1000 = (0 :: u32)" and "p < 4294967296"
  shows "unat (fs + 0x1000 * a + b * 0x1000 + of_nat p) mod 4096 = p mod 4096"
proof -
  have fs: "unat fs mod 4096 = 0" using assms(1) unat_mod_4096 [of fs] by simp
  have "unat (fs + 0x1000 * a + b * 0x1000 + of_nat p)
      = (unat fs + 4096 * unat a + unat b * 4096 + p) mod 4294967296"
    using assms(2) by (simp add: unat_word_ariths unat_of_nat mod_simps)
  also have "\<dots> mod 4096 = (unat fs + 4096 * unat a + unat b * 4096 + p) mod 4096"
    by (rule mod_mod_cancel) simp
  also have "\<dots> = p mod 4096"
  proof -
    obtain k where "unat fs = 4096 * k" using fs by (metis mod_0_imp_dvd dvdE)
    then have "unat fs + 4096 * unat a + unat b * 4096 + p = p + 4096 * (k + unat a + unat b)" by simp
    then show ?thesis by (simp only: mod_mult_self2)
  qed
  finally show ?thesis .
qed

lemma data_addr_mod:
  assumes "fs mod 0x1000 = 0"
  shows "unat (data_addr m fs inode p) mod 4096 = p mod 4096"
proof -
  have "p mod 4096 < 4294967296" by (rule less_trans [of _ 4096]) simp_all
  from block_aligned [OF assms this] show ?thesis unfolding data_addr_def data_base_def by (simp only: mod_mod_trivial)
qed

lemma data_addr_next:
  assumes "fs mod 0x1000 = 0"
  shows "(data_addr m fs inode p + 1) mod 0x1000 = 0 \<longleftrightarrow> Suc p mod 4096 = 0"
    and "Suc p mod 4096 \<noteq> 0 \<Longrightarrow> data_addr m fs inode (Suc p) = data_addr m fs inode p + 1"
    and "Suc p mod 4096 = 0 \<Longrightarrow> data_addr m fs inode (Suc p)
      = data_base m fs + load32 m (block_addr fs inode (p div 4096) + 4) * 0x1000"
    and "Suc p mod 4096 = 0 \<Longrightarrow> block_addr fs inode (Suc p div 4096) = block_addr fs inode (p div 4096) + 4"
    and "Suc p mod 4096 \<noteq> 0 \<Longrightarrow> Suc p div 4096 = p div 4096"
proof -
  have "unat ((data_addr m fs inode p + 1) mod 0x1000) = Suc p mod 4096"
  proof -
    have "unat ((data_addr m fs inode p + 1) mod 0x1000) = Suc (unat (data_addr m fs inode p)) mod 4294967296 mod 4096"
      unfolding unat_mod_4096 by (simp add: unat_word_ariths)
    also have "\<dots> = Suc (unat (data_addr m fs inode p)) mod 4096"
      by (rule mod_mod_cancel) simp
    also have "\<dots> = Suc p mod 4096"
      using data_addr_mod [OF assms, of m inode p] by (metis mod_Suc_eq)
    finally show ?thesis .
  qed
  then show "(data_addr m fs inode p + 1) mod 0x1000 = 0 \<longleftrightarrow> Suc p mod 4096 = 0"
    by (metis unat_0 unat_eq_0)
  show "Suc p div 4096 = p div 4096" if "Suc p mod 4096 \<noteq> 0"
    using that by (simp add: div_Suc)
  then show "data_addr m fs inode (Suc p) = data_addr m fs inode p + 1" if "Suc p mod 4096 \<noteq> 0"
    using that by (simp add: data_addr_def mod_Suc split: if_splits)
  have d: "Suc p div 4096 = Suc (p div 4096)" if "Suc p mod 4096 = 0"
    using that by (simp add: div_Suc)
  then show "block_addr fs inode (Suc p div 4096) = block_addr fs inode (p div 4096) + 4"
    if "Suc p mod 4096 = 0"
    using that by (simp add: block_addr_def algebra_simps)
  with d show "data_addr m fs inode (Suc p)
      = data_base m fs + load32 m (block_addr fs inode (p div 4096) + 4) * 0x1000" if "Suc p mod 4096 = 0"
    using that by (simp add: data_addr_def)
qed

section \<open>read_data copies the bytes of the file\<close>

lemma read_data_loop_copies:
  assumes fs: "fs mod 0x1000 = 0"
  shows "d = min (unat flen) (unat len) - unat count \<Longrightarrow>
    file_in_image m fs sz inode (p + d) \<Longrightarrow>
    (\<And>i. i < d \<Longrightarrow> \<not> in_region (buf + of_nat i) fs sz) \<Longrightarrow>
    unat count \<le> min (unat flen) (unat len) \<Longrightarrow>
    read_data_loop flen len (data_base m fs) (block_addr fs inode (p div 4096))
        (data_addr m fs inode p) buf count m
      = (of_nat (min (unat flen) (unat len)),
         fill_with m buf d (\<lambda>i. m (data_addr m fs inode (p + i))))"
proof (induction d arbitrary: m p buf count)
  case 0
  then have le: "unat count = min (unat flen) (unat len)" by simp
  then have "\<not> (count < flen \<and> count < len)" by (auto simp: word_less_nat_alt)
  moreover have "of_nat (min (unat flen) (unat len)) = count" by (simp flip: le)
  ultimately show ?case by (subst read_data_loop.simps) (simp only: if_False fill_with_0)
next
  case (Suc d)
  let ?a = "data_addr m fs inode"
  let ?m = "m(buf := m (?a p))"
  have lt: "count < flen" "count < len" using Suc.prems(1) by (auto simp: word_less_nat_alt)
  have inc: "unat (count + 1) = Suc (unat count)" by (rule unat_inc_less) (rule lt(1))
  have d: "d = min (unat flen) (unat len) - unat (count + 1)" using Suc.prems(1) inc by linarith
  have le: "unat (count + 1) \<le> min (unat flen) (unat len)" using Suc.prems(1) inc by linarith
  have img: "same_image fs sz m ?m" using Suc.prems(3) [of 0] by (simp add: same_image_upd)
  note data = same_image_data [OF img Suc.prems(2)]
  have img4: "in_image fs sz (fs + 4)" "sz \<le> 4294967296"
    using Suc.prems(2) by (simp_all add: file_in_image_def)
  have base: "data_base ?m fs = data_base m fs"
    using same_image_load [OF img img4] by (simp add: data_base_def)
  have fimg: "file_in_image ?m fs sz inode (Suc p + d)"
    using same_image_file_in_image [OF img Suc.prems(2)] by simp
  have out: "\<not> in_region (buf + 1 + of_nat i) fs sz" if "i < d" for i
    using Suc.prems(3) [of "Suc i"] that by (simp add: algebra_simps)
  have unfold: "read_data_loop flen len (data_base m fs) (block_addr fs inode (p div 4096)) (?a p) buf count m
      = read_data_loop flen len (data_base ?m fs) (block_addr fs inode (Suc p div 4096))
          (data_addr ?m fs inode (Suc p)) (buf + 1) (count + 1) ?m"
  proof (cases "Suc p mod 4096 = 0")
    case True
    then show ?thesis
      using lt data_addr_next(1) [OF fs, of m inode p] data_addr_next(3) [OF fs True, of ?m inode]
        data_addr_next(4) [OF fs True, of inode]
      by (subst read_data_loop.simps) (simp add: Let_def base del: fun_upd_apply)
  next
    case False
    have "data_addr ?m fs inode (Suc p) = data_addr ?m fs inode p + 1"
      by (rule data_addr_next(2) [OF fs False])
    also have "\<dots> = ?a p + 1" by (simp only: data(1) [of p])
    finally show ?thesis
      using False lt data_addr_next(1) [OF fs, of m inode p] data_addr_next(5) [OF fs False]
      by (subst read_data_loop.simps) (simp add: Let_def base del: fun_upd_apply)
  qed
  have "read_data_loop flen len (data_base ?m fs) (block_addr fs inode (Suc p div 4096))
          (data_addr ?m fs inode (Suc p)) (buf + 1) (count + 1) ?m
      = (of_nat (min (unat flen) (unat len)),
         fill_with ?m (buf + 1) d (\<lambda>i. ?m (data_addr ?m fs inode (Suc p + i))))"
    by (rule Suc.IH [OF d fimg out le])
  also have "fill_with ?m (buf + 1) d (\<lambda>i. ?m (data_addr ?m fs inode (Suc p + i)))
      = fill_with ?m (buf + 1) d (\<lambda>i. m (?a (p + Suc i)))"
  proof (rule fill_with_cong)
    show "?m (data_addr ?m fs inode (Suc p + i)) = m (?a (p + Suc i))" if "i < d" for i
      using data [of "Suc p + i"] that by simp
  qed
  also have "\<dots> = fill_with m buf (Suc d) (\<lambda>i. m (?a (p + i)))"
  proof -
    have "Suc d \<le> 4294967296" using Suc.prems(1) unat_u32_bound [of flen] by linarith
    from fill_with_Suc [OF this, of m buf "\<lambda>i. m (?a (p + i))"] show ?thesis by simp
  qed
  finally show ?case unfolding unfold .
qed

lemma inode_block_eq:
  "fs + MEM_SIZE_4kB + inode * MEM_SIZE_4kB = inode_addr fs inode"
  by (simp add: inode_addr_def)

lemma read_data_copies:
  fixes m fs inode len offset
  defines "n \<equiv> min (file_length m fs inode) (unat len)"
  assumes fs: "fs mod 0x1000 = 0" and off: "unat offset \<le> file_length m fs inode"
    and img: "file_in_image m fs sz inode (unat offset + n)"
    and buf: "\<And>i. i < n \<Longrightarrow> \<not> in_region (buf + of_nat i) fs sz"
  shows "read_data fs inode offset buf len m
    = (of_nat n, fill_with m buf n (\<lambda>i. m (data_addr m fs inode (unat offset + i))))"
proof -
  have "block_addr fs inode (unat offset div 4096)
      = inode_addr fs inode + 4 + 4 * (offset div 0x1000)"
    using of_nat_div_u32 [of 4096 offset] unfolding block_addr_def by simp
  moreover have "data_addr m fs inode (unat offset) = data_base m fs
      + load32 m (inode_addr fs inode + 4 + 4 * (offset div 0x1000)) * 0x1000 + offset mod 0x1000"
    using of_nat_mod_u32 [of 4096 offset] unfolding data_addr_def calculation by simp
  moreover have "\<not> offset > load32 m (inode_addr fs inode)"
    using off by (simp add: file_length_def word_less_nat_alt)
  ultimately have "read_data fs inode offset buf len m
      = read_data_loop (load32 m (inode_addr fs inode)) len (data_base m fs)
          (block_addr fs inode (unat offset div 4096)) (data_addr m fs inode (unat offset)) buf 0 m"
    unfolding read_data_def Let_def inode_block_eq by (simp add: data_base_def)
  also have "\<dots> = (of_nat n, fill_with m buf n (\<lambda>i. m (data_addr m fs inode (unat offset + i))))"
    using read_data_loop_copies [OF fs, of n "load32 m (inode_addr fs inode)" len 0 m sz inode "unat offset" buf]
      img buf by (simp add: n_def file_length_def)
  finally show ?thesis .
qed

section \<open>Looking up a name\<close>

definition entry_addr :: "u32 \<Rightarrow> nat \<Rightarrow> u32" where
  "entry_addr fs i = fs + 64 + 64 * of_nat i"

definition entry_name :: "mem \<Rightarrow> u32 \<Rightarrow> nat \<Rightarrow> u8 list" where
  "entry_name m fs i = str_prefix m (entry_addr fs i) 32"

lemma entry_addr_Suc: "entry_addr fs (Suc i) = entry_addr fs i + 64"
  by (simp add: entry_addr_def)

lemma strncmp_name: "(strncmp m a b 32 = 0) = (str_prefix m a 32 = str_prefix m b 32)"
  using strncmp_eq_0 [of m a b 32] by simp

text \<open>The search returns the first entry, from the \<open>k\<close>-th on, whose name is the one asked for.\<close>

lemma find_dentry_first:
  "find_dentry fname dentry (int n) (int k) (entry_addr fs k) m
    = (case List.find (\<lambda>i. entry_name m fs i = str_prefix m fname 32) [k..<n] of
         None \<Rightarrow> (- 1, m)
       | Some i \<Rightarrow> (0, memcpy m dentry (entry_addr fs i) 64))"
proof (induction "n - k" arbitrary: k)
  case 0
  then show ?case by (subst find_dentry.simps) simp
next
  case (Suc d)
  then have lt: "k < n" by simp
  have d: "d = n - Suc k" using Suc.hyps(2) by simp
  show ?case
    using lt Suc.hyps(1) [OF d]
    by (subst find_dentry.simps)
      (simp add: strncmp_name entry_name_def upt_conv_Cons entry_addr_Suc add.commute)
qed

lemma read_dentry_by_name_first:
  assumes "fname \<noteq> 0" "dentry \<noteq> 0" "load_int m fs = int n"
  shows "read_dentry_by_name fs fname dentry m
    = (case List.find (\<lambda>i. entry_name m fs i = str_prefix m fname 32) [0..<n] of
         None \<Rightarrow> (- 1, m)
       | Some i \<Rightarrow> (0, memcpy m dentry (entry_addr fs i) 64))"
  using assms find_dentry_first [of fname dentry n 0 fs m]
  by (simp add: read_dentry_by_name_def entry_addr_def)

text \<open>A copied entry reads back as the entry.\<close>

lemma load_dentry_copy:
  "load_dentry (copy m p q 64) p = load_dentry m q"
proof -
  have at: "copy m p q 64 (p + of_nat i) = m (q + of_nat i)" if "i < 64" for i
    using that by (simp add: copy_def in_region_add)
  have b: "bytes (copy m p q 64) (p + of_nat k) n = bytes m (q + of_nat k) n" if "k + n \<le> 64" for k n
  proof (rule nth_equalityI)
    show "bytes (copy m p q 64) (p + of_nat k) n ! i = bytes m (q + of_nat k) n ! i"
      if "i < length (bytes (copy m p q 64) (p + of_nat k) n)" for i
      using at [of "k + i"] that \<open>k + n \<le> 64\<close> by (simp add: nth_bytes add.assoc)
  qed simp
  have l: "load32 (copy m p q 64) (p + of_nat k) = load32 m (q + of_nat k)" if "k + 4 \<le> 64" for k
    using that at [of k] at [of "k + 1"] at [of "k + 2"] at [of "k + 3"]
    by (simp add: load32_def ac_simps)
  from l [of 32] l [of 36] show ?thesis
    using b [of 0 32] b [of 40 24] by (simp add: load_dentry_def load_int_def)
qed

lemma bytes_fill_with: "n < 4294967296 \<Longrightarrow> bytes (fill_with m d n f) d n = map f [0..<n]"
  by (rule nth_equalityI) (simp_all add: nth_bytes fill_with_def in_region_add unat_of_nat_small)

section \<open>Properties\<close>

lemma find_first:
  "List.find P [0..<n] = None \<longleftrightarrow> (\<forall>i<n. \<not> P i)"
  "i < n \<Longrightarrow> P i \<Longrightarrow> (\<forall>j<i. \<not> P j) \<Longrightarrow> List.find P [0..<n] = Some i"
proof -
  show "List.find P [0..<n] = None \<longleftrightarrow> (\<forall>i<n. \<not> P i)" by (auto simp: find_None_iff)
  assume "i < n" "P i" "\<forall>j<i. \<not> P j"
  then show "List.find P [0..<n] = Some i" by (auto simp: find_Some_iff intro!: exI [of _ i])
qed

text \<open>An image for the examples, at 0x10000: one directory entry with the name \<open>a\<close>, one inode
  with 5 bytes in data block 0, and the data block with the bytes \<open>A\<close> to \<open>E\<close>.\<close>

definition sample_image :: mem where
  "sample_image a =
     (if a = 0x10000 then 1 else if a = 0x10004 then 1
      else if a = 0x10040 then 97 else if a = 0x10060 then 2
      else if a = 0x11000 then 5
      else if a = 0x12000 then 65 else if a = 0x12001 then 66 else if a = 0x12002 then 67
      else if a = 0x12003 then 68 else if a = 0x12004 then 69
      else if a = 0x20000 then 97 else 0)"

lemma sample_loads:
  "load32 sample_image 0x10000 = 1" "load32 sample_image 0x10004 = 1" "load32 sample_image 0x11000 = 5"
  "load32 sample_image 0x11004 = 0"
  by (simp_all add: load32_def sample_image_def)

lemma sample_addrs:
  "p < 4096 \<Longrightarrow> data_addr sample_image 0x10000 0 p = 0x12000 + of_nat p"
  "block_addr 0x10000 0 0 = 0x11004" "file_length sample_image 0x10000 0 = 5"
  by (simp_all add: data_addr_def data_base_def block_addr_def inode_addr_def file_length_def sample_loads)

lemma sample_in_image:
  assumes "n \<le> 4096"
  shows "file_in_image sample_image 0x10000 0x3000 0 n"
proof -
  have "in_region (data_addr sample_image 0x10000 0 p) 0x10000 0x3000
      \<and> in_image 0x10000 0x3000 (block_addr 0x10000 0 (p div 4096))" if "p < n" for p
  proof -
    have p: "p < 4096" using that assms by simp
    have "0x12000 + of_nat p - 0x10000 = (of_nat (0x2000 + p) :: u32)" by simp
    moreover have "unat (of_nat (0x2000 + p) :: u32) = 0x2000 + p"
      using p by (intro unat_of_nat_small) simp
    ultimately have "unat (0x12000 + of_nat p - 0x10000 :: u32) = 0x2000 + p" by (simp only:)
    then have "in_region (0x12000 + of_nat p) 0x10000 0x3000"
      using p unfolding in_region_def by simp
    then show ?thesis using p by (simp add: sample_addrs in_image_def)
  qed
  then show ?thesis by (simp add: file_in_image_def in_image_def list_all_iff)
qed

lemma sample_buffer:
  assumes "i < 4096"
  shows "\<not> in_region (0x20000 + of_nat i) 0x10000 0x3000"
proof -
  have "0x20000 + of_nat i - 0x10000 = (of_nat (0x10000 + i) :: u32)" by simp
  moreover have "unat (of_nat (0x10000 + i) :: u32) = 0x10000 + i"
    using assms by (intro unat_of_nat_small) simp
  ultimately have "unat (0x20000 + of_nat i - 0x10000 :: u32) = 0x10000 + i" by (simp only:)
  then show ?thesis unfolding in_region_def by simp
qed

text \<open>C27. \<open>read_data\<close> copies the bytes of the file in order from the offset on, across data block
  boundaries, returns how many it copied, and changes nothing outside the buffer: for a read from the
  start, which stops at the end of the file, and for a read that lies inside the file. An offset
  behind the end of the file gives 0 and no byte. (A read from inside the file that asks for more
  than is left is not cut at the end of the file; \<open>read_data_at_end\<close> is its extreme.)\<close>

theorem read_data_reads:
  assumes "fs mod 0x1000 = 0" and "n = min (file_length m fs inode - unat offset) (unat len)"
    and "file_in_image m fs sz inode (unat offset + n)"
    and "\<forall>i<n. \<not> in_region (buf + of_nat i) fs sz"
  shows "(offset = 0 \<or> unat offset + unat len \<le> file_length m fs inode \<longrightarrow>
      fst (read_data fs inode offset buf len m) = of_nat n
      \<and> bytes (snd (read_data fs inode offset buf len m)) buf n = file_bytes m fs inode (unat offset) n
      \<and> (\<forall>a. in_region a buf n \<or> snd (read_data fs inode offset buf len m) a = m a))
    \<and> (file_length m fs inode < unat offset \<longrightarrow> read_data fs inode offset buf len m = (0, m))"
proof (intro conjI impI)
  assume inside: "offset = 0 \<or> unat offset + unat len \<le> file_length m fs inode"
  then have off: "unat offset \<le> file_length m fs inode" by auto
  have same: "min (file_length m fs inode) (unat len) = n" using inside assms(2) by auto
  have n: "n < 4294967296" using assms(2) unat_u32_bound [of len] by linarith
  have "read_data fs inode offset buf len m
      = (of_nat n, fill_with m buf n (\<lambda>i. m (data_addr m fs inode (unat offset + i))))"
    using assms(3,4) read_data_copies [OF assms(1) off, where len = len and sz = sz and buf = buf]
    unfolding same by simp
  then show "fst (read_data fs inode offset buf len m) = of_nat n"
    and "bytes (snd (read_data fs inode offset buf len m)) buf n = file_bytes m fs inode (unat offset) n"
    and "\<forall>a. in_region a buf n \<or> snd (read_data fs inode offset buf len m) a = m a"
    using n by (simp_all add: bytes_fill_with file_bytes_def) (simp add: fill_with_def)
next
  assume "file_length m fs inode < unat offset"
  then have "offset > load32 m (inode_addr fs inode)" by (simp add: file_length_def word_less_nat_alt)
  then show "read_data fs inode offset buf len m = (0, m)"
    unfolding read_data_def Let_def inode_block_eq by simp
qed

theorem read_data_reads_witness:
  "fst (read_data 0x10000 0 1 0x20000 3 sample_image) = 3
   \<and> bytes (snd (read_data 0x10000 0 1 0x20000 3 sample_image)) 0x20000 3 = [66, 67, 68]
   \<and> read_data 0x10000 0 6 0x20000 3 sample_image = (0, sample_image)"
proof -
  have "[0..<3] = [0, 1, 2::nat]" by (simp add: upt_rec)
  then have "file_bytes sample_image 0x10000 0 1 3 = [66, 67, 68]"
    by (simp add: file_bytes_def sample_addrs) (simp add: sample_image_def)
  then show ?thesis
  using read_data_reads [where fs = "0x10000" and offset = 1 and m = sample_image and inode = 0 and n = 3
      and len = 3 and sz = "0x3000" and buf = "0x20000"]
    read_data_reads [where fs = "0x10000" and offset = 6 and m = sample_image and inode = 0 and n = 0
      and len = 3 and sz = "0x3000" and buf = "0x20000"]
  by (simp add: sample_addrs sample_in_image sample_buffer del: bytes.simps)
qed

text \<open>The end-of-file test of \<open>read_data\<close> ignores the offset: a read that starts exactly at the
  end of a non-empty file does not return 0, it returns as many bytes as a read from the start.\<close>

theorem read_data_at_end:
  assumes "fs mod 0x1000 = 0" and "unat offset = file_length m fs inode"
    and "n = min (file_length m fs inode) (unat len)"
    and "file_in_image m fs sz inode (unat offset + n)"
    and "\<forall>i<n. \<not> in_region (buf + of_nat i) fs sz"
  shows "fst (read_data fs inode offset buf len m) = of_nat n"
  using assms read_data_copies [OF assms(1), where offset = offset and m = m and inode = inode
      and len = len and sz = sz and buf = buf] by simp

theorem read_data_at_end_witness: "fst (read_data 0x10000 0 5 0x20000 100 sample_image) = 5"
proof -
  have "fst (read_data 0x10000 0 5 0x20000 100 sample_image) = of_nat 5"
    by (rule read_data_at_end [where sz = "0x3000"])
      (simp_all add: sample_addrs sample_in_image sample_buffer)
  then show ?thesis by simp
qed

text \<open>C28. \<open>read_dentry_by_name\<close> succeeds exactly when some entry carries the name (up to 32 bytes);
  it then delivers the first such entry, and otherwise leaves the memory as it is.\<close>

theorem read_dentry_by_name_finds:
  assumes "fname \<noteq> 0" and "dentry \<noteq> 0" and "load_int m fs = int n"
    and "\<forall>i<n. unat (dentry - entry_addr fs i) \<ge> 64"
  shows "case read_dentry_by_name fs fname dentry m of (r, m') \<Rightarrow>
      (if r = 0 then \<exists>i<n. entry_name m fs i = str_prefix m fname 32
           \<and> list_all (\<lambda>j. entry_name m fs j \<noteq> str_prefix m fname 32) [0..<i]
           \<and> load_dentry m' dentry = load_dentry m (entry_addr fs i)
       else r = - 1 \<and> m' = m \<and> list_all (\<lambda>i. entry_name m fs i \<noteq> str_prefix m fname 32) [0..<n])"
proof (cases "\<forall>i<n. entry_name m fs i \<noteq> str_prefix m fname 32")
  case True
  then have "List.find (\<lambda>i. entry_name m fs i = str_prefix m fname 32) [0..<n] = None"
    by (simp add: find_first(1))
  then have "read_dentry_by_name fs fname dentry m = (- 1, m)"
    using read_dentry_by_name_first [OF assms(1-3)] by simp
  then show ?thesis using True by (simp add: list_all_iff)
next
  case False
  then obtain i where i: "i < n" "entry_name m fs i = str_prefix m fname 32"
    "\<forall>j<i. entry_name m fs j \<noteq> str_prefix m fname 32"
  proof -
    let ?P = "\<lambda>i. i < n \<and> entry_name m fs i = str_prefix m fname 32"
    from False obtain k where k: "?P k" by blast
    have l: "?P (LEAST i. ?P i)" by (rule LeastI [of ?P, OF k])
    have "entry_name m fs j \<noteq> str_prefix m fname 32" if "j < (LEAST i. ?P i)" for j
    proof -
      have "j < n" using l that by (meson order_less_trans)
      then show ?thesis using not_less_Least [of j ?P] that by blast
    qed
    then have least: "\<forall>j<(LEAST i. ?P i). entry_name m fs j \<noteq> str_prefix m fname 32" by blast
    show thesis by (rule that [OF conjunct1 [OF l] conjunct2 [OF l] least])
  qed
  have "read_dentry_by_name fs fname dentry m = (0, memcpy m dentry (entry_addr fs i) 64)"
    unfolding read_dentry_by_name_first [OF assms(1-3)]
      find_first(2) [of i n "\<lambda>i. entry_name m fs i = str_prefix m fname 32", OF i]
    by (simp only: option.case)
  moreover have "memcpy m dentry (entry_addr fs i) 64 = copy m dentry (entry_addr fs i) 64"
    using assms(4) i(1) memcpy_eq_copy [of 64 dentry "entry_addr fs i" m] by simp
  moreover have "entry_name m fs i = str_prefix m fname 32
      \<and> list_all (\<lambda>j. entry_name m fs j \<noteq> str_prefix m fname 32) [0..<i]
      \<and> load_dentry (copy m dentry (entry_addr fs i) 64) dentry = load_dentry m (entry_addr fs i)"
    using i by (simp add: load_dentry_copy list_all_iff)
  ultimately show ?thesis using i(1) by (simp only: prod.case simp_thms if_True) blast
qed

theorem read_dentry_by_name_finds_witness:
  "case read_dentry_by_name 0x10000 0x20000 0x30000 sample_image of (r, m') \<Rightarrow>
      r = 0 \<and> load_dentry m' 0x30000 = load_dentry sample_image 0x10040"
proof -
  have n: "entry_name sample_image 0x10000 0 = [97]" "str_prefix sample_image 0x20000 32 = [97]"
    using str_prefix_Suc [of sample_image _ 31] str_prefix_Suc [of sample_image _ 30]
    by (simp_all add: entry_name_def entry_addr_def sample_image_def)
  show ?thesis
    using read_dentry_by_name_finds [of "0x20000" "0x30000" sample_image "0x10000" 1] n
    by (auto simp: load_int_def sample_loads entry_addr_def split: if_splits)
qed

text \<open>\<open>read_dentry_by_index\<close> delivers the entry with the index, and fails for an index above the
  number of entries; the index that equals the number of entries, one past the last, is accepted.\<close>

theorem read_dentry_by_index_delivers:
  assumes "unat (dentry - (fs + 64 + 64 * index)) \<ge> 64"
  shows "case read_dentry_by_index fs index dentry m of (r, m') \<Rightarrow>
      (if index \<le> load32 m fs
       then r = 0 \<and> load_dentry m' dentry = load_dentry m (entry_addr fs (unat index))
       else r = - 1 \<and> m' = m)"
  using assms memcpy_eq_copy [of 64 dentry "fs + 64 + 64 * index" m]
  by (auto simp: read_dentry_by_index_def not_le load_dentry_copy entry_addr_def)

theorem read_dentry_by_index_delivers_witness:
  "case read_dentry_by_index 0x10000 1 0x30000 sample_image of (r, m') \<Rightarrow>
     r = 0 \<and> load_dentry m' 0x30000 = load_dentry sample_image (entry_addr 0x10000 1)"
  using read_dentry_by_index_delivers [of "0x30000" "0x10000" 1 sample_image]
  by (simp add: sample_loads)

end
