(* ===== verification/I8259.thy ===== *)
theory I8259
  imports Console
begin

text \<open>
  The driver of the two interrupt controllers, \<open>student-distrib/i8259.c\<close>: the masks, the
  initialisation sequence, enabling and disabling a line, and the end-of-interrupt signal.
\<close>

section \<open>State\<close>

record pic = console +
  master_mask :: u8
  slave_mask :: u8

abbreviation MASTER_8259_PORT :: u16 where "MASTER_8259_PORT \<equiv> 0x20"
abbreviation SLAVE_8259_PORT :: u16 where "SLAVE_8259_PORT \<equiv> 0xA0"

section \<open>Operations\<close>

definition i8259_init :: "'a pic_scheme \<Rightarrow> 'a pic_scheme" where
  "i8259_init s =
     (let s = cli s;
          s = outb (master_mask s) (MASTER_8259_PORT + 1) s;
          s = outb (slave_mask s) (SLAVE_8259_PORT + 1) s;
          s = outb 0x11 MASTER_8259_PORT s;
          s = outb 0x20 (MASTER_8259_PORT + 1) s;
          s = outb 0x04 (MASTER_8259_PORT + 1) s;
          s = outb 0x01 (MASTER_8259_PORT + 1) s;
          s = outb 0x11 SLAVE_8259_PORT s;
          s = outb 0x28 (SLAVE_8259_PORT + 1) s;
          s = outb 0x02 (SLAVE_8259_PORT + 1) s;
          s = outb 0x01 (SLAVE_8259_PORT + 1) s;
          s = outb (master_mask s) (MASTER_8259_PORT + 1) s;
          s = outb (slave_mask s) (SLAVE_8259_PORT + 1) s
      in sti s)"

text \<open>The code assigns the port number, not the mask read from the port; \<open>tmp_mask\<close> is a
  \<open>char\<close>. A shift by more than 31 is undefined in C; no call passes a number above 15.\<close>

definition enable_irq :: "u32 \<Rightarrow> 'a pic_scheme \<Rightarrow> 'a pic_scheme" where
  "enable_irq irq_num s =
     (if irq_num < 8 then
        (let s = s\<lparr>master_mask := ucast (MASTER_8259_PORT + 1)\<rparr>;
             tmp_mask = (ucast (NOT (push_bit (unat irq_num) (1 :: u32))) :: u8);
             s = s\<lparr>master_mask := master_mask s AND tmp_mask\<rparr>
         in outb (master_mask s) (MASTER_8259_PORT + 1) s)
      else
        (let s = s\<lparr>slave_mask := ucast (SLAVE_8259_PORT + 1)\<rparr>;
             tmp_mask = (ucast (NOT (push_bit (unat (irq_num - 8)) (1 :: u32))) :: u8);
             s = s\<lparr>slave_mask := slave_mask s AND tmp_mask\<rparr>
         in outb (slave_mask s) (SLAVE_8259_PORT + 1) s))"

definition disable_irq :: "u32 \<Rightarrow> 'a pic_scheme \<Rightarrow> 'a pic_scheme" where
  "disable_irq irq_num s =
     (if irq_num < 8 then
        (let s = s\<lparr>master_mask := ucast (MASTER_8259_PORT + 1)\<rparr>;
             tmp_mask = (ucast (push_bit (unat irq_num) (1 :: u32)) :: u8);
             s = s\<lparr>master_mask := master_mask s OR tmp_mask\<rparr>
         in outb (master_mask s) (MASTER_8259_PORT + 1) s)
      else
        (let s = s\<lparr>slave_mask := ucast (SLAVE_8259_PORT + 1)\<rparr>;
             tmp_mask = (ucast (push_bit (unat (irq_num - 8)) (1 :: u32)) :: u8);
             s = s\<lparr>slave_mask := slave_mask s OR tmp_mask\<rparr>
         in outb (slave_mask s) (SLAVE_8259_PORT + 1) s))"

definition send_eoi :: "u32 \<Rightarrow> 'a machine_scheme \<Rightarrow> 'a machine_scheme" where
  "send_eoi irq_num s =
     (if irq_num < 8 then outb (ucast (0x60 OR irq_num)) MASTER_8259_PORT s
      else
        (let s = outb 0x62 MASTER_8259_PORT s
         in outb (ucast (0x60 OR (irq_num - 8))) SLAVE_8259_PORT s))"

section \<open>What the operations leave alone\<close>

lemma send_eoi_simps [simp]:
  "mem (send_eoi irq s) = mem s"
  "intr (send_eoi irq s) = intr s"
  "frame (send_eoi irq s) = frame s"
  "device (send_eoi irq s) = device s"
  by (simp_all add: send_eoi_def outb_def Let_def)

lemma send_eoi_ports: "send_eoi irq s = s\<lparr>ports := ports (send_eoi irq s)\<rparr>"
  by (simp add: send_eoi_def outb_def Let_def)

section \<open>Which lines are masked\<close>

lemma bit_0x21: "n < 8 \<Longrightarrow> bit (0x21 :: u8) n = (n = 0 \<or> n = 5)"
  and bit_0xA1: "n < 8 \<Longrightarrow> bit (0xA1 :: u8) n = (n = 0 \<or> n = 5 \<or> n = 7)"
  by (auto simp: less_Suc_eq eval_nat_numeral)

lemma enable_irq_mask:
  assumes "n < 8"
  shows "irq < 8 \<Longrightarrow> bit (master_mask (enable_irq irq s)) n = ((n = 0 \<or> n = 5) \<and> n \<noteq> unat irq)"
    and "8 \<le> irq \<Longrightarrow> bit (slave_mask (enable_irq irq s)) n
      = ((n = 0 \<or> n = 5 \<or> n = 7) \<and> n \<noteq> unat (irq - 8))"
  using assms bit_0x21 [OF assms] bit_0xA1 [OF assms]
  by (auto simp: enable_irq_def outb_def Let_def bit_and_iff bit_ucast_iff bit_not_iff
      bit_push_bit_iff bit_1_iff bit_exp_iff)

section \<open>Properties\<close>

text \<open>\<open>enable_irq\<close> unmasks its line, but it does not keep the other lines: whatever was
  enabled before, afterwards a master line is masked exactly when it is line 0 or 5 and not the
  one enabled, because the mask starts from the port number 0x21 (0xA1 for the slave).\<close>

theorem enable_irq_masks:
  assumes "irq < 16" and "n < 8"
  shows "bit (if irq < 8 then master_mask (enable_irq irq s) else slave_mask (enable_irq irq s)) n
    = (n \<in> (if irq < 8 then {0, 5} - {unat irq} else {0, 5, 7} - {unat (irq - 8)}))"
  using enable_irq_mask [OF assms(2), of irq s] by (auto simp: not_less)

theorem enable_irq_masks_witness:
  "\<forall>s :: pic. bit (master_mask (enable_irq 1 (enable_irq 0 s))) 0"
  using enable_irq_masks [of 1 0 "enable_irq 0 s" for s :: pic] by simp

text \<open>\<open>i8259_init\<close> sends each controller its four initialisation words in order, between two
  writes of the masks, maps the lines to the vectors 0x20 and 0x28 on, and ends with
  interrupts enabled.\<close>

theorem i8259_init_sequence:
  "rev (ports (i8259_init s)) = rev (ports s)
     @ [Outb (master_mask s) 0x21, Outb (slave_mask s) 0xA1,
        Outb 0x11 0x20, Outb 0x20 0x21, Outb 0x04 0x21, Outb 0x01 0x21,
        Outb 0x11 0xA0, Outb 0x28 0xA1, Outb 0x02 0xA1, Outb 0x01 0xA1,
        Outb (master_mask s) 0x21, Outb (slave_mask s) 0xA1]
   \<and> intr (i8259_init s)"
  by (simp add: i8259_init_def cli_def sti_def outb_def Let_def)

end
