(* ===== verification/Rtc.thy ===== *)
theory Rtc
  imports I8259
begin

text \<open>
  The real-time clock driver, \<open>student-distrib/rtc.c\<close>. The clock runs at 1024 Hz; every
  terminal has a counter of ticks still to wait and a virtual rate. The wait loop of
  \<open>rtc_read\<close> is a recursion over the interrupts that are served while it runs; with no
  interrupt left it is still waiting (\<open>None\<close>).
\<close>

section \<open>State\<close>

record rtc = pic +
  rtc_active :: int
  rtc_rates :: "int \<Rightarrow> int"
  rtc_counter :: "int \<Rightarrow> int"

abbreviation RTC_REG :: u16 where "RTC_REG \<equiv> 0x70"
abbreviation RTC_RW :: u16 where "RTC_RW \<equiv> 0x71"
abbreviation REG_A :: u8 where "REG_A \<equiv> 0x8A"
abbreviation REG_C :: u8 where "REG_C \<equiv> 0x0C"
abbreviation F_1024 :: int where "F_1024 \<equiv> 1024"
abbreviation F_2 :: int where "F_2 \<equiv> 2"

section \<open>Operations\<close>

text \<open>The two statements that \<open>rtc_handler\<close> has for each counter.\<close>

definition tick_counter :: "int \<Rightarrow> 'a rtc_scheme \<Rightarrow> 'a rtc_scheme" where
  "tick_counter i s =
     (let s = s\<lparr>rtc_counter := (rtc_counter s)(i := rtc_counter s i - 1)\<rparr>
      in if rtc_counter s i < 0 then s\<lparr>rtc_counter := (rtc_counter s)(i := 0)\<rparr> else s)"

definition rtc_handler :: "'a rtc_scheme \<Rightarrow> 'a rtc_scheme" where
  "rtc_handler s =
     (let s = tick_counter 0 s;
          s = tick_counter 1 s;
          s = tick_counter 2 s;
          s = outb REG_C RTC_REG s;
          (_, s) = inb RTC_RW s
      in send_eoi 8 s)"

text \<open>A second call runs into \<open>return;\<close> in a function that returns \<open>int\<close>: the result is
  \<open>None\<close>, some value left in a register, and interrupts stay disabled.\<close>

definition rtc_open :: "u32 \<Rightarrow> 'a rtc_scheme \<Rightarrow> int option \<times> 'a rtc_scheme" where
  "rtc_open fd s =
     (let s = cli s
      in if rtc_active s \<noteq> 0 then (None, s)
         else
           (let s = s\<lparr>rtc_active := 1\<rparr>;
                (prev, s) = inb RTC_RW s;
                s = outb REG_A RTC_REG s;
                (prev, s) = inb RTC_RW s;
                s = outb REG_A RTC_REG s;
                s = outb (0x0E OR (prev AND 0xF0)) RTC_RW s;
                s = outb REG_A RTC_REG s;
                (prev, s) = inb RTC_RW s;
                s = outb REG_A RTC_REG s;
                s = outb (0x06 OR (prev AND 0xF0)) RTC_RW s
            in (Some 0, sti s)))"

definition rtc_close :: "int \<Rightarrow> int" where
  "rtc_close fd = 0"

fun rtc_wait ::
    "('a rtc_scheme \<Rightarrow> 'a rtc_scheme) list \<Rightarrow> 'a rtc_scheme \<Rightarrow>
     ('a rtc_scheme \<times> ('a rtc_scheme \<Rightarrow> 'a rtc_scheme) list) option" where
  "rtc_wait [] s = (if rtc_counter s (curr_scheduled s - 1) > 0 then None else Some (s, []))"
| "rtc_wait (interrupt # rest) s =
     (if rtc_counter s (curr_scheduled s - 1) > 0 then rtc_wait rest (interrupt s)
      else Some (s, interrupt # rest))"

text \<open>The result of \<open>rtc_read\<close>: its value, the state, and the interrupts not yet served. A rate
  of 0 would be a divide error; \<open>rtc_ok\<close> below excludes it.\<close>

definition rtc_read ::
    "int \<Rightarrow> u32 \<Rightarrow> int \<Rightarrow> ('a rtc_scheme \<Rightarrow> 'a rtc_scheme) list \<Rightarrow> 'a rtc_scheme \<Rightarrow>
     (int \<times> 'a rtc_scheme \<times> ('a rtc_scheme \<Rightarrow> 'a rtc_scheme) list) option" where
  "rtc_read fd buf nbytes interrupts s =
     (let t = curr_scheduled s - 1;
          s = s\<lparr>rtc_counter := (rtc_counter s)(t := F_1024 sdiv rtc_rates s t)\<rparr>
      in case rtc_wait interrupts s of
           None \<Rightarrow> None
         | Some (s, rest) \<Rightarrow> Some (0, s, rest))"

definition rtc_write :: "int \<Rightarrow> u32 \<Rightarrow> int \<Rightarrow> 'a rtc_scheme \<Rightarrow> int \<times> 'a rtc_scheme" where
  "rtc_write fd buf nbytes s =
     (if nbytes \<noteq> 4 \<or> buf = 0 then (-1, s)
      else
        (let freq = load_int (mem s) buf
         in if freq > F_1024 \<or> freq < F_2 then (-1, s)
            else (0, s\<lparr>rtc_rates := (rtc_rates s)(curr_scheduled s - 1 := freq)\<rparr>)))"

section \<open>The invariant of the driver\<close>

definition rtc_ok :: "'a rtc_scheme \<Rightarrow> bool" where
  "rtc_ok s \<longleftrightarrow> list_all (\<lambda>i. 1 \<le> rtc_rates s i \<and> rtc_rates s i \<le> 1024
     \<and> 0 \<le> rtc_counter s i \<and> rtc_counter s i \<le> 1024) [0, 1, 2]"

lemma tick_counter_simps [simp]:
  "rtc_counter (tick_counter i s) = (rtc_counter s)(i := max 0 (rtc_counter s i - 1))"
  "rtc_rates (tick_counter i s) = rtc_rates s"
  "rtc_active (tick_counter i s) = rtc_active s"
  by (auto simp: tick_counter_def Let_def)

lemma tick_counter_machine [simp]:
  "mem (tick_counter i s) = mem s" "intr (tick_counter i s) = intr s"
  "frame (tick_counter i s) = frame s" "ports (tick_counter i s) = ports s"
  "device (tick_counter i s) = device s"
  "curr_scheduled (tick_counter i s) = curr_scheduled s"
  "curr_terminal (tick_counter i s) = curr_terminal s"
  by (simp_all add: tick_counter_def Let_def)

lemma io_rtc [simp]:
  "rtc_counter (outb d p s) = rtc_counter s" "rtc_counter (snd (inb p s)) = rtc_counter s"
  "rtc_counter (send_eoi irq s) = rtc_counter s"
  "rtc_rates (outb d p s) = rtc_rates s" "rtc_rates (snd (inb p s)) = rtc_rates s"
  "rtc_rates (send_eoi irq s) = rtc_rates s"
  for s :: "'a rtc_scheme"
  by (simp_all add: outb_def inb_def send_eoi_def Let_def)

lemma io_console [simp]:
  "curr_scheduled (outb d p s) = curr_scheduled s" "curr_scheduled (snd (inb p s)) = curr_scheduled s"
  "curr_scheduled (send_eoi irq s) = curr_scheduled s"
  "curr_terminal (outb d p s) = curr_terminal s" "curr_terminal (snd (inb p s)) = curr_terminal s"
  "curr_terminal (send_eoi irq s) = curr_terminal s"
  for s :: "'a console_scheme"
  by (simp_all add: outb_def inb_def send_eoi_def Let_def)

lemma io_mem [simp]:
  "mem (outb d p s) = mem s" "mem (snd (inb p s)) = mem s"
  by (simp_all add: outb_def inb_def)

lemma rtc_handler_simps [simp]:
  "rtc_counter (rtc_handler s) = (rtc_counter s)(0 := max 0 (rtc_counter s 0 - 1),
     1 := max 0 (rtc_counter s 1 - 1), 2 := max 0 (rtc_counter s 2 - 1))"
  "rtc_rates (rtc_handler s) = rtc_rates s"
  "curr_scheduled (rtc_handler s) = curr_scheduled s"
  "curr_terminal (rtc_handler s) = curr_terminal s"
  "mem (rtc_handler s) = mem s"
  by (simp_all add: rtc_handler_def Let_def split_def)

lemma rtc_handler_ok: "rtc_ok s \<Longrightarrow> rtc_ok (rtc_handler s)"
  by (simp add: rtc_ok_def)

lemma rtc_write_ok:
  "rtc_ok s \<Longrightarrow> curr_scheduled s \<in> {1, 2, 3} \<Longrightarrow> rtc_ok (snd (rtc_write fd buf nbytes s))"
  by (auto simp: rtc_write_def rtc_ok_def Let_def)

text \<open>The wait of the scheduled terminal under clock ticks.\<close>

lemma rtc_wait_ticks:
  assumes "curr_scheduled s \<in> {1, 2, 3}"
  shows "rtc_wait (replicate n rtc_handler) s
    = (if int n < rtc_counter s (curr_scheduled s - 1) then None
       else let q = nat (rtc_counter s (curr_scheduled s - 1))
            in Some ((rtc_handler ^^ q) s, replicate (n - q) rtc_handler))"
  using assms
proof (induction n arbitrary: s)
  case 0
  then show ?case by simp
next
  case (Suc n)
  let ?c = "rtc_counter s (curr_scheduled s - 1)"
  show ?case
  proof (cases "?c > 0")
    case True
    have c': "rtc_counter (rtc_handler s) (curr_scheduled s - 1) = ?c - 1"
      using Suc.prems True by auto
    have q: "nat ?c = Suc (nat (?c - 1))" using True by simp
    have "rtc_wait (replicate (Suc n) rtc_handler) s = rtc_wait (replicate n rtc_handler) (rtc_handler s)"
      using True by simp
    also have "\<dots> = (if int n < ?c - 1 then None
       else Some ((rtc_handler ^^ nat (?c - 1)) (rtc_handler s), replicate (n - nat (?c - 1)) rtc_handler))"
      using Suc.prems c' by (subst Suc.IH) (simp_all add: Let_def)
    finally show ?thesis unfolding q Let_def by (auto simp: funpow_swap1)
  next
    case False
    then show ?thesis by simp
  qed
qed

interpretation rtcw: busy_wait rtc_wait "\<lambda>s. \<not> rtc_counter s (curr_scheduled s - 1) > 0"
  by unfold_locales simp_all

section \<open>Properties\<close>

text \<open>Every operation of the driver keeps the rates between 1 and 1024 and the counters
  between 0 and 1024, whatever interrupts \<open>rtc_read\<close> waits through, if they do so too; a rate
  outside 2 to 1024, a wrong size or a null buffer is refused and changes nothing.\<close>

theorem rtc_operations_ok:
  assumes "rtc_ok s" and "curr_scheduled s \<in> {1, 2, 3}"
    and "\<forall>i \<in> set interrupts. \<forall>s. rtc_ok s \<longrightarrow> rtc_ok (i s)"
  shows "rtc_ok (rtc_handler s) \<and> rtc_ok (snd (rtc_write fd buf nbytes s))
    \<and> (case rtc_read fd buf nbytes interrupts s of None \<Rightarrow> True | Some (_, s', _) \<Rightarrow> rtc_ok s')
    \<and> (if nbytes = 4 \<and> buf \<noteq> 0 \<and> load_int (mem s) buf \<in> {2..1024}
       then rtc_write fd buf nbytes s
         = (0, s\<lparr>rtc_rates := (rtc_rates s)(curr_scheduled s - 1 := load_int (mem s) buf)\<rparr>)
       else rtc_write fd buf nbytes s = (-1, s))"
proof -
  let ?t = "curr_scheduled s - 1"
  let ?s = "s\<lparr>rtc_counter := (rtc_counter s)(?t := 1024 sdiv rtc_rates s ?t)\<rparr>"
  have "1 \<le> rtc_rates s ?t" "rtc_rates s ?t \<le> 1024" using assms by (auto simp: rtc_ok_def)
  then have "0 \<le> 1024 sdiv rtc_rates s ?t" "1024 sdiv rtc_rates s ?t \<le> 1024"
    using zdiv_mono2 [of 1024 1 "rtc_rates s ?t"] by (auto simp: sdiv_nonneg pos_imp_zdiv_nonneg_iff)
  then have ok: "rtc_ok ?s" using assms by (auto simp: rtc_ok_def)
  have "rtc_ok s'" if "rtc_wait interrupts ?s = Some (s', rest)" for s' rest
    using rtcw.wait_invariant [OF that, of rtc_ok] ok assms(3) by blast
  then have "case rtc_read fd buf nbytes interrupts s of None \<Rightarrow> True | Some (_, s', _) \<Rightarrow> rtc_ok s'"
    by (auto simp: rtc_read_def Let_def split: option.splits)
  then show ?thesis
    using rtc_handler_ok [OF assms(1)] rtc_write_ok [OF assms(1,2)]
    by (simp add: rtc_write_def Let_def)
qed

text \<open>A clock for the examples: terminal 1 runs at 512 Hz, the buffer at 0x9000 holds 32.\<close>

definition sample_rtc :: rtc where
  "sample_rtc = \<lparr>mem = (\<lambda>_. 0)(0x9000 := 32), ports = [], device = \<lambda>_ _. 0, intr = True,
     frame = 0x7FF000, uninit = 0, screen_x = \<lambda>_. 0, screen_y = \<lambda>_. 0, curr_terminal = 1,
     curr_scheduled = 1, video_mem = VIDEO, master_mask = 0xFF, slave_mask = 0xFF,
     rtc_active = 1, rtc_rates = \<lambda>i. if i = 0 then 512 else 1, rtc_counter = \<lambda>_. 1\<rparr>"

theorem rtc_operations_ok_witness:
  "rtc_ok sample_rtc \<and> rtc_ok (rtc_handler sample_rtc)
   \<and> rtc_write 3 0x9000 4 sample_rtc
     = (0, sample_rtc\<lparr>rtc_rates := (rtc_rates sample_rtc)(0 := 32)\<rparr>)"
proof -
  have ok: "rtc_ok sample_rtc" "curr_scheduled sample_rtc \<in> {1, 2, 3}"
    by (simp_all add: rtc_ok_def sample_rtc_def)
  have l: "load_int (mem sample_rtc) 0x9000 = 32" "curr_scheduled sample_rtc = 1"
    by (simp_all add: sample_rtc_def load_int_def load32_def)
  have i: "\<forall>i \<in> set [rtc_handler]. \<forall>s. rtc_ok s \<longrightarrow> rtc_ok (i s)" by (simp add: rtc_handler_ok)
  show ?thesis
    using rtc_operations_ok [OF ok i, of 3 "0x9000" 4] ok l by simp
qed



end
