(* ===== verification/Keyboard.thy ===== *)
theory Keyboard
  imports Rtc
begin

text \<open>
  The keyboard and terminal driver, \<open>student-distrib/keyboard.c\<close>: the interrupt handler that
  turns scan codes into characters of the current line, the line buffers of the three
  terminals, and the read and write routines of the terminal.
\<close>

section \<open>State\<close>

text \<open>The \<open>int\<close> flags are 0 or 1. \<open>switch_flag\<close> belongs to \<open>scheduler.c\<close>: the handler asks for a
  switch, the timer interrupt performs it.\<close>

record keyboard = rtc +
  shift_key :: int
  alt_key :: int
  cap_flag :: int
  ctrl_key :: int
  keyboard_buffer_index :: int
  enter_flag :: int
  keyboard_buffer :: "u8 list"
  keyboard_buffer1 :: "u8 list"
  keyboard_buffer2 :: "u8 list"
  keyboard_buffer3 :: "u8 list"
  kb1_pos :: int
  kb2_pos :: int
  kb3_pos :: int
  switch_flag :: int

abbreviation KB_BUF_SIZE :: int where "KB_BUF_SIZE \<equiv> 128"

definition char_list :: "u8 list" where
  "char_list =
     [0, 49, 50, 51, 52, 53, 54, 55, 56, 57, 48, 45, 61, 0, 0,
      113, 119, 101, 114, 116, 121, 117, 105, 111, 112, 91, 93, 10, 0,
      97, 115, 100, 102, 103, 104, 106, 107, 108, 59, 39, 96, 0, 92,
      122, 120, 99, 118, 98, 110, 109, 44, 46, 47]"

definition upper_char_list :: "u8 list" where
  "upper_char_list =
     [0, 33, 64, 35, 36, 37, 94, 38, 42, 40, 41, 95, 43, 0, 0,
      81, 87, 69, 82, 84, 89, 85, 73, 79, 80, 123, 125, 10, 0,
      65, 83, 68, 70, 71, 72, 74, 75, 76, 58, 34, 126, 0, 124,
      90, 88, 67, 86, 66, 78, 77, 60, 62, 63]"

section \<open>The keyboard handler\<close>

text \<open>The first two \<open>if\<close> chains: shift, then alt, caps lock and control.\<close>

definition kb_shift :: "u8 \<Rightarrow> 'a keyboard_scheme \<Rightarrow> 'a keyboard_scheme" where
  "kb_shift c s =
     (if c = 0x2A \<or> c = 0x36 then s\<lparr>shift_key := 1\<rparr>
      else if c = 0xAA \<or> c = 0xB6 then s\<lparr>shift_key := 0\<rparr>
      else s)"

definition kb_modifiers :: "u8 \<Rightarrow> 'a keyboard_scheme \<Rightarrow> 'a keyboard_scheme" where
  "kb_modifiers c s =
     (if c = 0x38 then s\<lparr>alt_key := 1\<rparr>
      else if c = 0xB8 then s\<lparr>alt_key := 0\<rparr>
      else if c = 0x3A then s\<lparr>cap_flag := (if cap_flag s = 0 then 1 else 0)\<rparr>
      else if c = 0x1D then s\<lparr>ctrl_key := 1\<rparr>
      else if c = 0x9D then s\<lparr>ctrl_key := 0\<rparr>
      else s)"

text \<open>The loop over \<open>j\<close> with \<open>kb_ptr[j] = keyboard_buffer[j]\<close> and \<open>keyboard_buffer[j] =
  keyboard_bufferN[j]\<close>: the buffers are different arrays and are copied whole. \<open>kb_ptr\<close> is the
  buffer of the displayed terminal, which is one of 1, 2, 3.\<close>

definition kb_save :: "'a keyboard_scheme \<Rightarrow> 'a keyboard_scheme" where
  "kb_save s =
     (if curr_terminal s = 1 then s\<lparr>keyboard_buffer1 := keyboard_buffer s\<rparr>
      else if curr_terminal s = 2 then s\<lparr>keyboard_buffer2 := keyboard_buffer s\<rparr>
      else if curr_terminal s = 3 then s\<lparr>keyboard_buffer3 := keyboard_buffer s\<rparr>
      else s)"

definition kb_switch :: "u8 \<Rightarrow> 'a keyboard_scheme \<Rightarrow> 'a keyboard_scheme" where
  "kb_switch c s =
     (if c = 0x3B \<and> curr_terminal s \<noteq> 1 then
        (let s = kb_save s;
             s = s\<lparr>keyboard_buffer := keyboard_buffer1 s\<rparr>;
             s = (if curr_terminal s = 2 then s\<lparr>kb2_pos := keyboard_buffer_index s\<rparr>
                  else if curr_terminal s = 3 then s\<lparr>kb3_pos := keyboard_buffer_index s\<rparr> else s);
             s = s\<lparr>keyboard_buffer_index := kb1_pos s\<rparr>
         in s\<lparr>switch_flag := 1\<rparr>)
      else if c = 0x3C \<and> curr_terminal s \<noteq> 2 then
        (let s = kb_save s;
             s = s\<lparr>keyboard_buffer := keyboard_buffer2 s\<rparr>;
             s = (if curr_terminal s = 1 then s\<lparr>kb1_pos := keyboard_buffer_index s\<rparr>
                  else if curr_terminal s = 3 then s\<lparr>kb3_pos := keyboard_buffer_index s\<rparr> else s);
             s = s\<lparr>keyboard_buffer_index := kb2_pos s\<rparr>
         in s\<lparr>switch_flag := 2\<rparr>)
      else if c = 0x3D \<and> curr_terminal s \<noteq> 3 then
        (let s = kb_save s;
             s = s\<lparr>keyboard_buffer := keyboard_buffer3 s\<rparr>;
             s = (if curr_terminal s = 1 then s\<lparr>kb1_pos := keyboard_buffer_index s\<rparr>
                  else if curr_terminal s = 2 then s\<lparr>kb2_pos := keyboard_buffer_index s\<rparr> else s);
             s = s\<lparr>keyboard_buffer_index := kb3_pos s\<rparr>
         in s\<lparr>switch_flag := 3\<rparr>)
      else s)"

text \<open>Storing and echoing a character, guarded by the size of the buffer.\<close>

definition kb_store :: "u8 \<Rightarrow> 'a keyboard_scheme \<Rightarrow> 'a keyboard_scheme" where
  "kb_store print_char s =
     (let s = s\<lparr>keyboard_buffer := (keyboard_buffer s)[nat (keyboard_buffer_index s) := print_char]\<rparr>;
          s = s\<lparr>keyboard_buffer_index := keyboard_buffer_index s + 1\<rparr>
      in putc2 print_char s)"

definition kb_backspace :: "'a keyboard_scheme \<Rightarrow> 'a keyboard_scheme" where
  "kb_backspace s =
     (if get_screenx s = 0 \<and> get_screeny s = 0 then s
      else
        (let s = set_cursors (get_screenx s - 1) (get_screeny s) s;
             s = putc2 32 s;
             s = set_cursors (get_screenx s - 1) (get_screeny s) s;
             s = update_cursor (get_screenx s) (get_screeny s) s
         in s\<lparr>keyboard_buffer_index := keyboard_buffer_index s - 1\<rparr>))"

text \<open>The character of a scan code from 1 to 0x35 under shift and caps lock.\<close>

definition kb_char :: "u8 \<Rightarrow> int \<Rightarrow> int \<Rightarrow> u8" where
  "kb_char c shift caps =
     (let letter = 0x10 \<le> c \<and> c \<le> 0x19 \<or> 0x1E \<le> c \<and> c \<le> 0x26 \<or> 0x2C \<le> c \<and> c \<le> 0x32
      in if caps \<noteq> 0 \<and> letter \<and> shift = 0 then upper_char_list ! unat (c - 1)
         else if shift = 0 \<or> shift \<noteq> 0 \<and> caps \<noteq> 0 then char_list ! unat (c - 1)
         else upper_char_list ! unat (c - 1))"

text \<open>The last \<open>if\<close> chain, and the body of the handler after the scan code has been read and
  acknowledged.\<close>

definition kb_action :: "u8 \<Rightarrow> 'a keyboard_scheme \<Rightarrow> 'a keyboard_scheme" where
  "kb_action c s =
     (if ctrl_key s \<noteq> 0 \<and> c = 0x26 then update_cursor 0 0 (set_cursors 0 0 (clear s))
      else if alt_key s = 1 \<and> (c = 0x3B \<or> c = 0x3C \<or> c = 0x3D) then kb_switch c s
      else if c = 0x39 then
        (if keyboard_buffer_index s < KB_BUF_SIZE then kb_store 32 s else s)
      else if c = 0x0E \<and> keyboard_buffer_index s > 0 then kb_backspace s
      else if c = 0x1C then s\<lparr>enter_flag := 1\<rparr>
      else if c \<le> 0x35 \<and> c \<ge> 0x01 then
        (let print_char = kb_char c (shift_key s) (cap_flag s)
         in if keyboard_buffer_index s < KB_BUF_SIZE \<and> print_char \<noteq> 0 then kb_store print_char s
            else s)
      else s)"

definition kb_scancode :: "u8 \<Rightarrow> 'a keyboard_scheme \<Rightarrow> 'a keyboard_scheme" where
  "kb_scancode c s = kb_action c (kb_modifiers c (kb_shift c s))"

definition keyboard_handler :: "'a keyboard_scheme \<Rightarrow> 'a keyboard_scheme" where
  "keyboard_handler s =
     (let (c, s) = inb 0x60 s;
          s = send_eoi 1 s
      in kb_scancode c s)"

section \<open>The terminal as a file\<close>

definition terminal_open :: "u32 \<Rightarrow> int" where
  "terminal_open filename = 0"

definition terminal_close :: "int \<Rightarrow> int" where
  "terminal_close fd = 0"

text \<open>The busy wait of \<open>terminal_read\<close>, over the interrupts served meanwhile.\<close>

fun terminal_wait ::
    "('a keyboard_scheme \<Rightarrow> 'a keyboard_scheme) list \<Rightarrow> 'a keyboard_scheme \<Rightarrow>
     ('a keyboard_scheme \<times> ('a keyboard_scheme \<Rightarrow> 'a keyboard_scheme) list) option" where
  "terminal_wait [] s =
     (if \<not> (enter_flag s = 1 \<and> curr_terminal s = curr_scheduled s) then None else Some (s, []))"
| "terminal_wait (interrupt # rest) s =
     (if \<not> (enter_flag s = 1 \<and> curr_terminal s = curr_scheduled s) then terminal_wait rest (interrupt s)
      else Some (s, interrupt # rest))"

text \<open>The copying loop, and clearing a line buffer.\<close>

definition store_line :: "u32 \<Rightarrow> u8 list \<Rightarrow> nat \<Rightarrow> mem \<Rightarrow> mem" where
  "store_line buf line n m = fold (\<lambda>i m. m(buf + of_nat i := line ! i)) [0..<n] m"

definition clear_line :: "u8 list" where
  "clear_line = replicate 128 0"

definition terminal_read ::
    "int \<Rightarrow> u32 \<Rightarrow> int \<Rightarrow> ('a keyboard_scheme \<Rightarrow> 'a keyboard_scheme) list \<Rightarrow> 'a keyboard_scheme \<Rightarrow>
     (int \<times> 'a keyboard_scheme \<times> ('a keyboard_scheme \<Rightarrow> 'a keyboard_scheme) list) option" where
  "terminal_read fd buf nbytes interrupts s =
     (if nbytes < 0 then Some (-1, s, interrupts)
      else
        (case terminal_wait interrupts (sti s) of
           None \<Rightarrow> None
         | Some (s, rest) \<Rightarrow>
             (let s = s\<lparr>enter_flag := 0\<rparr>;
                  s = putc2 10 s;
                  index = (if nbytes < keyboard_buffer_index s then nbytes else keyboard_buffer_index s);
                  index = (if index < 0 then 0 else index);
                  s = s\<lparr>mem := store_line buf (keyboard_buffer s) (nat index) (mem s)\<rparr>;
                  s = s\<lparr>keyboard_buffer := clear_line\<rparr>
              in Some (index, s\<lparr>keyboard_buffer_index := 0\<rparr>, rest))))"

text \<open>\<open>terminal_write\<close> prints and then empties the saved line of the scheduled terminal.\<close>

definition terminal_write :: "int \<Rightarrow> u32 \<Rightarrow> int \<Rightarrow> 'a keyboard_scheme \<Rightarrow> int \<times> 'a keyboard_scheme" where
  "terminal_write fd buf nbytes s =
     (if buf = 0 \<or> nbytes < 0 then (-1, s)
      else if nbytes = 0 then (0, s)
      else
        (let (x, s) = print_withoutnull buf nbytes s;
             s = cli s;
             s = (if curr_scheduled s = 1 then s\<lparr>keyboard_buffer1 := clear_line\<rparr>
                  else if curr_scheduled s = 2 then s\<lparr>keyboard_buffer2 := clear_line\<rparr>
                  else if curr_scheduled s = 3 then s\<lparr>keyboard_buffer3 := clear_line\<rparr> else s);
             s = (if curr_scheduled s = 1 then s\<lparr>kb1_pos := 0\<rparr>
                  else if curr_scheduled s = 2 then s\<lparr>kb2_pos := 0\<rparr>
                  else if curr_scheduled s = 3 then s\<lparr>kb3_pos := 0\<rparr> else s);
             s = sti s
         in (sint x, s)))"

end
