(* ===== verification/Keyboard_Laws.thy ===== *)
theory Keyboard_Laws
  imports Keyboard Console_Laws
begin

text \<open>
  What the keyboard and terminal driver does: its invariant, the decoding of scan codes, the
  line that a sequence of key presses builds up and \<open>terminal_read\<close> delivers, and the line
  buffers across a switch of terminals.
\<close>

section \<open>Console operations leave the keyboard state alone\<close>

lemma update_cursor_kb [simp]:
  "keyboard_buffer (update_cursor x y s) = keyboard_buffer s"
  "keyboard_buffer1 (update_cursor x y s) = keyboard_buffer1 s"
  "keyboard_buffer2 (update_cursor x y s) = keyboard_buffer2 s"
  "keyboard_buffer3 (update_cursor x y s) = keyboard_buffer3 s"
  "keyboard_buffer_index (update_cursor x y s) = keyboard_buffer_index s"
  "kb1_pos (update_cursor x y s) = kb1_pos s"
  "kb2_pos (update_cursor x y s) = kb2_pos s"
  "kb3_pos (update_cursor x y s) = kb3_pos s"
  "shift_key (update_cursor x y s) = shift_key s"
  "alt_key (update_cursor x y s) = alt_key s"
  "cap_flag (update_cursor x y s) = cap_flag s"
  "ctrl_key (update_cursor x y s) = ctrl_key s"
  "enter_flag (update_cursor x y s) = enter_flag s"
  "switch_flag (update_cursor x y s) = switch_flag s"
  for s :: "'a keyboard_scheme"
  by (simp_all add: update_cursor_def outb_def Let_def)

lemma put_char_at_kb [simp]:
  "keyboard_buffer (put_char_at t b c s) = keyboard_buffer s"
  "keyboard_buffer1 (put_char_at t b c s) = keyboard_buffer1 s"
  "keyboard_buffer2 (put_char_at t b c s) = keyboard_buffer2 s"
  "keyboard_buffer3 (put_char_at t b c s) = keyboard_buffer3 s"
  "keyboard_buffer_index (put_char_at t b c s) = keyboard_buffer_index s"
  "kb1_pos (put_char_at t b c s) = kb1_pos s"
  "kb2_pos (put_char_at t b c s) = kb2_pos s"
  "kb3_pos (put_char_at t b c s) = kb3_pos s"
  "shift_key (put_char_at t b c s) = shift_key s"
  "alt_key (put_char_at t b c s) = alt_key s"
  "cap_flag (put_char_at t b c s) = cap_flag s"
  "ctrl_key (put_char_at t b c s) = ctrl_key s"
  "enter_flag (put_char_at t b c s) = enter_flag s"
  "switch_flag (put_char_at t b c s) = switch_flag s"
  for s :: "'a keyboard_scheme"
  by (simp_all add: put_char_at_def put_glyph_def Let_def)

lemma putc2_kb [simp]:
  "keyboard_buffer (putc2 c s) = keyboard_buffer s"
  "keyboard_buffer1 (putc2 c s) = keyboard_buffer1 s"
  "keyboard_buffer2 (putc2 c s) = keyboard_buffer2 s"
  "keyboard_buffer3 (putc2 c s) = keyboard_buffer3 s"
  "keyboard_buffer_index (putc2 c s) = keyboard_buffer_index s"
  "kb1_pos (putc2 c s) = kb1_pos s"
  "kb2_pos (putc2 c s) = kb2_pos s"
  "kb3_pos (putc2 c s) = kb3_pos s"
  "shift_key (putc2 c s) = shift_key s"
  "alt_key (putc2 c s) = alt_key s"
  "cap_flag (putc2 c s) = cap_flag s"
  "ctrl_key (putc2 c s) = ctrl_key s"
  "enter_flag (putc2 c s) = enter_flag s"
  "switch_flag (putc2 c s) = switch_flag s"
  for s :: "'a keyboard_scheme"
  by (simp_all add: putc2_eq Let_def)

lemma putc2_console [simp]:
  "curr_terminal (putc2 c s) = curr_terminal s"
  "curr_scheduled (putc2 c s) = curr_scheduled s"
  "video_mem (putc2 c s) = video_mem s"
  "frame (putc2 c s) = frame s"
  by (simp_all add: putc2_eq Let_def put_char_at_frame)

lemma set_cursors_kb [simp]:
  "keyboard_buffer (set_cursors x y s) = keyboard_buffer s"
  "keyboard_buffer1 (set_cursors x y s) = keyboard_buffer1 s"
  "keyboard_buffer2 (set_cursors x y s) = keyboard_buffer2 s"
  "keyboard_buffer3 (set_cursors x y s) = keyboard_buffer3 s"
  "keyboard_buffer_index (set_cursors x y s) = keyboard_buffer_index s"
  "kb1_pos (set_cursors x y s) = kb1_pos s"
  "kb2_pos (set_cursors x y s) = kb2_pos s"
  "kb3_pos (set_cursors x y s) = kb3_pos s"
  "shift_key (set_cursors x y s) = shift_key s"
  "alt_key (set_cursors x y s) = alt_key s"
  "cap_flag (set_cursors x y s) = cap_flag s"
  "ctrl_key (set_cursors x y s) = ctrl_key s"
  "enter_flag (set_cursors x y s) = enter_flag s"
  "switch_flag (set_cursors x y s) = switch_flag s"
  for s :: "'a keyboard_scheme"
  by (simp_all add: set_cursors_def Let_def)

lemma set_cursors_console [simp]:
  "curr_terminal (set_cursors x y s) = curr_terminal s"
  "curr_scheduled (set_cursors x y s) = curr_scheduled s"
  "mem (set_cursors x y s) = mem s"
  by (simp_all add: set_cursors_def Let_def)

lemma clear_fields [simp]:
  "screen_x (clear s) = screen_x s" "screen_y (clear s) = screen_y s"
  "curr_terminal (clear s) = curr_terminal s" "curr_scheduled (clear s) = curr_scheduled s"
  for s :: "'a console_scheme"
  by (simp_all add: clear_def)

lemma clear_kb [simp]:
  "keyboard_buffer (clear s) = keyboard_buffer s"
  "keyboard_buffer1 (clear s) = keyboard_buffer1 s"
  "keyboard_buffer2 (clear s) = keyboard_buffer2 s"
  "keyboard_buffer3 (clear s) = keyboard_buffer3 s"
  "keyboard_buffer_index (clear s) = keyboard_buffer_index s"
  "kb1_pos (clear s) = kb1_pos s"
  "kb2_pos (clear s) = kb2_pos s"
  "kb3_pos (clear s) = kb3_pos s"
  "shift_key (clear s) = shift_key s"
  "alt_key (clear s) = alt_key s"
  "cap_flag (clear s) = cap_flag s"
  "ctrl_key (clear s) = ctrl_key s"
  "enter_flag (clear s) = enter_flag s"
  "switch_flag (clear s) = switch_flag s"
  for s :: "'a keyboard_scheme"
  by (simp_all add: clear_def)

lemma switch_terminal_kb:
  "keyboard_buffer (switch_terminal f t s) = keyboard_buffer s"
  "keyboard_buffer1 (switch_terminal f t s) = keyboard_buffer1 s"
  "keyboard_buffer2 (switch_terminal f t s) = keyboard_buffer2 s"
  "keyboard_buffer3 (switch_terminal f t s) = keyboard_buffer3 s"
  "keyboard_buffer_index (switch_terminal f t s) = keyboard_buffer_index s"
  "kb1_pos (switch_terminal f t s) = kb1_pos s"
  "kb2_pos (switch_terminal f t s) = kb2_pos s"
  "kb3_pos (switch_terminal f t s) = kb3_pos s"
  "shift_key (switch_terminal f t s) = shift_key s"
  "alt_key (switch_terminal f t s) = alt_key s"
  "cap_flag (switch_terminal f t s) = cap_flag s"
  "ctrl_key (switch_terminal f t s) = ctrl_key s"
  "enter_flag (switch_terminal f t s) = enter_flag s"
  "switch_flag (switch_terminal f t s) = switch_flag s"
  for s :: "'a keyboard_scheme"
  by (simp_all add: switch_terminal_def cli_def Let_def)

section \<open>The cursors of the three terminals\<close>

definition cursors_ok :: "'a console_scheme \<Rightarrow> bool" where
  "cursors_ok s \<longleftrightarrow> curr_terminal s \<in> {1, 2, 3} \<and> list_all (\<lambda>t. cursor_ok t s) [0, 1, 2]"

lemma cursors_ok_current: "cursors_ok s \<Longrightarrow> cursor_ok (curr_terminal s - 1) s"
  by (auto simp: cursors_ok_def)

lemma cursor_ok_put_char_at:
  "cursor_ok t s \<Longrightarrow> cursor_ok u s \<Longrightarrow> cursor_ok u (put_char_at t b c s)"
  by (cases "u = t") (simp_all add: put_char_at_cursor, simp add: cursor_ok_def put_char_at_frame)

lemma cursors_ok_putc2: "cursors_ok s \<Longrightarrow> cursors_ok (putc2 c s)"
  using cursors_ok_current [of s]
  by (auto simp: cursors_ok_def putc2_eq Let_def cursor_ok_put_char_at put_char_at_frame)

lemma cursors_ok_set_cursors: "cursors_ok s \<Longrightarrow> cursors_ok (set_cursors x y s)"
  by (auto simp: cursors_ok_def set_cursors_def cursor_ok_def Let_def)

lemma cursors_ok_frame [simp]:
  "cursors_ok (update_cursor x y s) = cursors_ok s"
  "cursors_ok (clear s) = cursors_ok s"
  for s :: "'a console_scheme"
  by (simp_all add: cursors_ok_def cursor_ok_def)

lemma cursors_ok_kb [simp]:
  "cursors_ok (s\<lparr>keyboard_buffer_index := i\<rparr>) = cursors_ok s"
  "cursors_ok (s\<lparr>keyboard_buffer := xs\<rparr>) = cursors_ok s"
  "cursors_ok (s\<lparr>enter_flag := e\<rparr>) = cursors_ok s"
  for s :: "'a keyboard_scheme"
  by (simp_all add: cursors_ok_def cursor_ok_def)

section \<open>The invariant of the driver\<close>

definition kb_ok :: "'a keyboard_scheme \<Rightarrow> bool" where
  "kb_ok s \<longleftrightarrow> length (keyboard_buffer s) = 128 \<and> length (keyboard_buffer1 s) = 128
     \<and> length (keyboard_buffer2 s) = 128 \<and> length (keyboard_buffer3 s) = 128
     \<and> keyboard_buffer_index s \<in> {0..128} \<and> kb1_pos s \<in> {0..128} \<and> kb2_pos s \<in> {0..128}
     \<and> kb3_pos s \<in> {0..128} \<and> switch_flag s \<in> {0..3}
     \<and> shift_key s \<in> {0, 1} \<and> alt_key s \<in> {0, 1} \<and> cap_flag s \<in> {0, 1} \<and> ctrl_key s \<in> {0, 1}
     \<and> enter_flag s \<in> {0, 1} \<and> cursors_ok s"

lemma kb_shift_ok: "kb_ok s \<Longrightarrow> kb_ok (kb_shift c s)"
  by (simp add: kb_ok_def kb_shift_def cursors_ok_def cursor_ok_def)

lemma kb_modifiers_ok: "kb_ok s \<Longrightarrow> kb_ok (kb_modifiers c s)"
  by (simp add: kb_ok_def kb_modifiers_def cursors_ok_def cursor_ok_def)

lemma kb_switch_ok: "kb_ok s \<Longrightarrow> kb_ok (kb_switch c s)"
  by (auto simp: kb_ok_def kb_switch_def kb_save_def cursors_ok_def cursor_ok_def Let_def)

lemma kb_store_ok:
  assumes "kb_ok s" "keyboard_buffer_index s < 128"
  shows "kb_ok (kb_store c s)"
proof -
  have "cursors_ok (kb_store c s)"
    using assms by (simp add: kb_store_def Let_def cursors_ok_putc2 kb_ok_def)
  then show ?thesis using assms by (simp add: kb_ok_def kb_store_def Let_def)
qed

lemma kb_backspace_ok:
  assumes "kb_ok s" "keyboard_buffer_index s > 0"
  shows "kb_ok (kb_backspace s)"
proof -
  have "cursors_ok (kb_backspace s)"
    using assms by (simp add: kb_backspace_def Let_def cursors_ok_putc2 cursors_ok_set_cursors kb_ok_def)
  then show ?thesis using assms by (auto simp: kb_ok_def kb_backspace_def Let_def)
qed

lemma kb_clear_ok: "kb_ok s \<Longrightarrow> kb_ok (update_cursor 0 0 (set_cursors 0 0 (clear s)))"
  by (simp add: kb_ok_def cursors_ok_set_cursors)

lemma kb_enter_ok: "kb_ok s \<Longrightarrow> kb_ok (s\<lparr>enter_flag := 1\<rparr>)"
  by (simp add: kb_ok_def cursors_ok_def cursor_ok_def)

lemma kb_action_ok: "kb_ok s \<Longrightarrow> kb_ok (kb_action c s)"
  by (simp add: kb_action_def Let_def kb_clear_ok kb_switch_ok kb_store_ok kb_backspace_ok kb_enter_ok)

lemma kb_scancode_ok: "kb_ok s \<Longrightarrow> kb_ok (kb_scancode c s)"
  by (simp add: kb_scancode_def kb_action_ok kb_modifiers_ok kb_shift_ok)

lemma kb_ok_io [simp]: "kb_ok (s\<lparr>ports := p\<rparr>) = kb_ok s"
  by (simp add: kb_ok_def cursors_ok_def cursor_ok_def)

lemma kb_ok_device [simp]: "kb_ok (s\<lparr>device := d\<rparr>) = kb_ok s"
  by (simp add: kb_ok_def cursors_ok_def cursor_ok_def)

text \<open>The handler is \<open>kb_scancode\<close> after some port accesses.\<close>

lemma keyboard_handler_eq:
  obtains p where "keyboard_handler s = kb_scancode (device s (ports s) 0x60) (s\<lparr>ports := p\<rparr>)"
  by (rule that [of "ports (send_eoi 1 (snd (inb 0x60 s)))"])
    (simp add: keyboard_handler_def inb_def Let_def send_eoi_def outb_def)

lemma keyboard_handler_ok: "kb_ok s \<Longrightarrow> kb_ok (keyboard_handler s)"
  by (rule keyboard_handler_eq [of s]) (simp add: kb_scancode_ok)

section \<open>Decoding a scan code\<close>

text \<open>What the tables mean: a letter is upper case when exactly one of shift and caps lock is
  on; another key gives its shifted symbol when shift is on and caps lock is off.\<close>

definition spec_char :: "u8 \<Rightarrow> bool \<Rightarrow> bool \<Rightarrow> u8" where
  "spec_char c shift caps =
     (let b = char_list ! (unat c - 1); u = upper_char_list ! (unat c - 1)
      in if 97 \<le> b \<and> b \<le> 122 then (if shift \<noteq> caps then b - 32 else b)
         else if shift \<and> \<not> caps then u else b)"

lemma scancode_cases:
  assumes "(1 :: u8) \<le> c" "c \<le> 0x35" and "list_all P (map of_nat [1..<54])"
  shows "P c"
proof -
  have "1 \<le> unat c" "unat c < 54" using assms(1,2) by (simp_all add: word_le_nat_alt)
  then have "of_nat (unat c) \<in> set (map (of_nat :: nat \<Rightarrow> u8) [1..<54])" by force
  then show ?thesis using assms(3) by (auto simp: list_all_iff simp del: upt_rec_numeral)
qed

lemma kb_char_table:
  "list_all (\<lambda>c. kb_char c 0 0 = spec_char c False False \<and> kb_char c 1 0 = spec_char c True False
     \<and> kb_char c 0 1 = spec_char c False True \<and> kb_char c 1 1 = spec_char c True True)
   (map of_nat [1..<54])"
  by code_simp

lemma kb_char_spec:
  assumes "1 \<le> c" "c \<le> 0x35" "sh \<in> {0, 1}" "cp \<in> {0, 1}"
  shows "kb_char c sh cp = spec_char c (sh = 1) (cp = 1)"
  using scancode_cases [OF assms(1,2) kb_char_table] assms(3,4) by auto

section \<open>The line that key presses build up\<close>

record kview =
  kline :: "u8 list"
  kshift :: bool
  kalt :: bool
  kcaps :: bool
  kctrl :: bool
  kenter :: bool

definition kview_of :: "'a keyboard_scheme \<Rightarrow> kview" where
  "kview_of s = \<lparr>kline = take (nat (keyboard_buffer_index s)) (keyboard_buffer s),
     kshift = (shift_key s = 1), kalt = (alt_key s = 1), kcaps = (cap_flag s = 1),
     kctrl = (ctrl_key s = 1), kenter = (enter_flag s = 1)\<rparr>"

definition spec_push :: "u8 \<Rightarrow> kview \<Rightarrow> kview" where
  "spec_push c v = (if length (kline v) < 128 then v\<lparr>kline := kline v @ [c]\<rparr> else v)"

definition spec_modifiers :: "u8 \<Rightarrow> kview \<Rightarrow> kview" where
  "spec_modifiers c v =
     (if c = 0x2A \<or> c = 0x36 then v\<lparr>kshift := True\<rparr>
      else if c = 0xAA \<or> c = 0xB6 then v\<lparr>kshift := False\<rparr>
      else if c = 0x38 then v\<lparr>kalt := True\<rparr>
      else if c = 0xB8 then v\<lparr>kalt := False\<rparr>
      else if c = 0x3A then v\<lparr>kcaps := \<not> kcaps v\<rparr>
      else if c = 0x1D then v\<lparr>kctrl := True\<rparr>
      else if c = 0x9D then v\<lparr>kctrl := False\<rparr>
      else v)"

definition spec_key :: "u8 \<Rightarrow> kview \<Rightarrow> kview" where
  "spec_key c v =
     (let v = spec_modifiers c v
      in if kctrl v \<and> c = 0x26 then v
         else if c = 0x39 then spec_push 32 v
         else if c = 0x0E then v\<lparr>kline := butlast (kline v)\<rparr>
         else if c = 0x1C then v\<lparr>kenter := True\<rparr>
         else if 1 \<le> c \<and> c \<le> 0x35 \<and> spec_char c (kshift v) (kcaps v) \<noteq> 0
              then spec_push (spec_char c (kshift v) (kcaps v)) v
         else v)"

lemma kview_modifiers:
  "kb_ok s \<Longrightarrow> kview_of (kb_modifiers c (kb_shift c s)) = spec_modifiers c (kview_of s)"
  by (auto simp: kview_of_def kb_modifiers_def kb_shift_def spec_modifiers_def kb_ok_def)

lemma kview_store:
  assumes "kb_ok s"
  shows "(if keyboard_buffer_index s < 128 then kview_of (kb_store c s) else kview_of s)
    = spec_push c (kview_of s)"
proof (cases "keyboard_buffer_index s < 128")
  case True
  let ?i = "nat (keyboard_buffer_index s)"
  have i: "?i < length (keyboard_buffer s)" "0 \<le> keyboard_buffer_index s"
    using True assms by (auto simp: kb_ok_def)
  have "take (Suc ?i) ((keyboard_buffer s)[?i := c]) = take ?i (keyboard_buffer s) @ [c]"
    using i(1) by (simp add: take_Suc_conv_app_nth)
  then show ?thesis using True i
    by (simp add: kview_of_def kb_store_def Let_def spec_push_def nat_add_distrib)
qed (use assms in \<open>auto simp: kview_of_def spec_push_def kb_ok_def\<close>)

lemma kview_backspace:
  assumes "kb_ok s" "keyboard_buffer_index s > 0" "\<not> (get_screenx s = 0 \<and> get_screeny s = 0)"
  shows "kview_of (kb_backspace s) = (kview_of s)\<lparr>kline := butlast (kline (kview_of s))\<rparr>"
proof -
  have "butlast (take (nat (keyboard_buffer_index s)) (keyboard_buffer s))
      = take (nat (keyboard_buffer_index s - 1)) (keyboard_buffer s)"
    using assms(1,2) by (subst butlast_take) (auto simp: kb_ok_def nat_diff_distrib)
  then show ?thesis using assms(3) by (auto simp: kview_of_def kb_backspace_def Let_def)
qed

lemma char_0x0E: "kb_char 0x0E sh cp = 0"
  by (simp add: kb_char_def char_list_def upper_char_list_def)

text \<open>A key press that does not switch the terminal: the handler does to the line and the flags
  what \<open>spec_key\<close> says. The backspace key is ignored when the cursor is in the top left corner.\<close>

lemma kview_action:
  assumes ok: "kb_ok s" and fn: "\<not> (alt_key s = 1 \<and> c \<in> {0x3B, 0x3C, 0x3D})"
    and home: "\<not> (c = 0x0E \<and> get_screenx s = 0 \<and> get_screeny s = 0)"
  shows "kview_of (kb_action c s) =
     (let v = kview_of s
      in if kctrl v \<and> c = 0x26 then v
         else if c = 0x39 then spec_push 32 v
         else if c = 0x0E then v\<lparr>kline := butlast (kline v)\<rparr>
         else if c = 0x1C then v\<lparr>kenter := True\<rparr>
         else if 1 \<le> c \<and> c \<le> 0x35 \<and> spec_char c (kshift v) (kcaps v) \<noteq> 0
              then spec_push (spec_char c (kshift v) (kcaps v)) v
         else v)"
proof -
  have char: "kb_char c (shift_key s) (cap_flag s) = spec_char c (shift_key s = 1) (cap_flag s = 1)"
    if "1 \<le> c" "c \<le> 0x35"
    using ok that by (intro kb_char_spec) (auto simp: kb_ok_def)
  have ctrl: "(ctrl_key s \<noteq> 0) = kctrl (kview_of s)" using ok by (auto simp: kb_ok_def kview_of_def)
  have sel: "kshift (kview_of s) = (shift_key s = 1)" "kcaps (kview_of s) = (cap_flag s = 1)"
    by (simp_all add: kview_of_def)
  consider (clear) "kctrl (kview_of s)" "c = 0x26"
    | (space) "c = 0x39" | (bksp) "c = 0x0E" | (enter) "c = 0x1C"
    | (other) "\<not> (kctrl (kview_of s) \<and> c = 0x26)" "c \<noteq> 0x39" "c \<noteq> 0x0E" "c \<noteq> 0x1C"
    by blast
  then show ?thesis
  proof cases
    case clear
    then show ?thesis using ctrl by (simp add: kb_action_def kview_of_def Let_def)
  next
    case space
    then show ?thesis using kview_store [OF ok, of 32] by (auto simp: kb_action_def Let_def split: if_splits)
  next
    case bksp
    show ?thesis
    proof (cases "keyboard_buffer_index s > 0")
      case True
      then show ?thesis using bksp kview_backspace [OF ok True] home by (simp add: kb_action_def Let_def)
    next
      case False
      then have "kline (kview_of s) = []" by (simp add: kview_of_def)
      then show ?thesis using bksp False by (simp add: kb_action_def char_0x0E Let_def)
    qed
  next
    case enter
    then show ?thesis by (simp add: kb_action_def kview_of_def Let_def)
  next
    case other
    have act: "kb_action c s = (if 1 \<le> c \<and> c \<le> 0x35
        then (if keyboard_buffer_index s < 128 \<and> kb_char c (shift_key s) (cap_flag s) \<noteq> 0
              then kb_store (kb_char c (shift_key s) (cap_flag s)) s else s)
        else s)"
      using other fn ctrl by (auto simp: kb_action_def Let_def)
    show ?thesis
    proof (cases "1 \<le> c \<and> c \<le> 0x35")
      case True
      have spec: "(let v = kview_of s in if kctrl v \<and> c = 0x26 then v
         else if c = 0x39 then spec_push 32 v
         else if c = 0x0E then v\<lparr>kline := butlast (kline v)\<rparr>
         else if c = 0x1C then v\<lparr>kenter := True\<rparr>
         else if 1 \<le> c \<and> c \<le> 0x35 \<and> spec_char c (kshift v) (kcaps v) \<noteq> 0
              then spec_push (spec_char c (kshift v) (kcaps v)) v
         else v) = (if kb_char c (shift_key s) (cap_flag s) \<noteq> 0
           then spec_push (kb_char c (shift_key s) (cap_flag s)) (kview_of s) else kview_of s)"
        unfolding Let_def sel char [OF conjunct1 [OF True] conjunct2 [OF True]]
        using True other by auto
      show ?thesis
        unfolding spec act using True kview_store [OF ok, of "kb_char c (shift_key s) (cap_flag s)"]
        by (auto split: if_splits)
    next
      case False
      then show ?thesis unfolding act Let_def using other by auto
    qed
  qed
qed

lemma modifiers_keys:
  "get_screenx (kb_modifiers c (kb_shift c s)) = get_screenx s"
  "get_screeny (kb_modifiers c (kb_shift c s)) = get_screeny s"
  by (simp_all add: kb_modifiers_def kb_shift_def get_screenx_def get_screeny_def)

lemma kview_scancode:
  assumes "kb_ok s" and "c \<notin> {0x3B, 0x3C, 0x3D}"
    and "\<not> (c = 0x0E \<and> get_screenx s = 0 \<and> get_screeny s = 0)"
  shows "kview_of (kb_scancode c s) = spec_key c (kview_of s)"
  unfolding kb_scancode_def spec_key_def kview_modifiers [OF assms(1), symmetric]
  using assms by (intro kview_action) (auto simp: kb_modifiers_ok kb_shift_ok modifiers_keys)

lemma kb_steps_console [simp]:
  "curr_terminal (kb_shift c s) = curr_terminal s" "curr_scheduled (kb_shift c s) = curr_scheduled s"
  "curr_terminal (kb_modifiers c s) = curr_terminal s"
  "curr_scheduled (kb_modifiers c s) = curr_scheduled s"
  "curr_terminal (kb_save s) = curr_terminal s" "curr_scheduled (kb_save s) = curr_scheduled s"
  "curr_terminal (kb_store c s) = curr_terminal s" "curr_scheduled (kb_store c s) = curr_scheduled s"
  "curr_terminal (kb_backspace s) = curr_terminal s" "curr_scheduled (kb_backspace s) = curr_scheduled s"
  by (simp_all add: kb_modifiers_def kb_shift_def kb_save_def kb_store_def kb_backspace_def Let_def)

lemma kb_switch_console [simp]:
  "curr_terminal (kb_switch c s) = curr_terminal s" "curr_scheduled (kb_switch c s) = curr_scheduled s"
  by (simp_all add: kb_switch_def Let_def)

lemma kb_action_console [simp]:
  "curr_terminal (kb_action c s) = curr_terminal s" "curr_scheduled (kb_action c s) = curr_scheduled s"
  by (simp_all add: kb_action_def Let_def)

lemma kb_scancode_console [simp]:
  "curr_terminal (kb_scancode c s) = curr_terminal s"
  "curr_scheduled (kb_scancode c s) = curr_scheduled s"
  by (simp_all add: kb_scancode_def)

section \<open>Reading the line\<close>

interpretation termw: busy_wait terminal_wait "\<lambda>s. enter_flag s = 1 \<and> curr_terminal s = curr_scheduled s"
  by unfold_locales auto

text \<open>The interrupt of a key: the keyboard presents the scan code and the handler runs.\<close>

definition press :: "u8 \<Rightarrow> 'a keyboard_scheme \<Rightarrow> 'a keyboard_scheme" where
  "press c s = keyboard_handler (s\<lparr>device := \<lambda>_ _. c\<rparr>)"

lemma press_eq:
  obtains p d where "press c s = kb_scancode c (s\<lparr>device := d, ports := p\<rparr>)"
  by (rule keyboard_handler_eq [of "s\<lparr>device := \<lambda>_ _. c\<rparr>"]) (simp add: press_def)

lemma press_simps [simp]:
  "curr_terminal (press c s) = curr_terminal s" "curr_scheduled (press c s) = curr_scheduled s"
  by (rule press_eq [of c s], simp)+

lemma press_ok: "kb_ok s \<Longrightarrow> kb_ok (press c s)"
  by (rule press_eq [of c s]) (simp add: kb_scancode_ok)

lemma kview_press:
  assumes "kb_ok s" and "c \<notin> {0x0E, 0x3B, 0x3C, 0x3D}"
  shows "kview_of (press c s) = spec_key c (kview_of s)"
proof -
  obtain p d where p: "press c s = kb_scancode c (s\<lparr>device := d, ports := p\<rparr>)" by (rule press_eq)
  have "kview_of (kb_scancode c (s\<lparr>device := d, ports := p\<rparr>))
      = spec_key c (kview_of (s\<lparr>device := d, ports := p\<rparr>))"
    using assms by (intro kview_scancode) auto
  then show ?thesis by (simp add: p kview_of_def)
qed

lemma fold_press:
  assumes "kb_ok s" and "set cs \<inter> {0x0E, 0x3B, 0x3C, 0x3D} = {}"
  shows "kb_ok (fold press cs s)" and "kview_of (fold press cs s) = fold spec_key cs (kview_of s)"
    and "curr_terminal (fold press cs s) = curr_terminal s"
    and "curr_scheduled (fold press cs s) = curr_scheduled s"
  using assms by (induction cs arbitrary: s) (simp_all add: press_ok kview_press)

lemma fold_map_press: "fold (\<lambda>i. i) (map press cs) s = fold press cs s"
  by (induction cs arbitrary: s) simp_all

lemma kenter_spec_key: "c \<noteq> 0x1C \<Longrightarrow> kenter (spec_key c v) = kenter v"
  by (simp add: spec_key_def spec_modifiers_def spec_push_def Let_def)

lemma kenter_fold: "0x1C \<notin> set cs \<Longrightarrow> kenter (fold spec_key cs v) = kenter v"
  by (induction cs arbitrary: v) (auto simp: kenter_spec_key)

text \<open>While a line is typed, \<open>terminal_read\<close> waits; the enter key ends the wait.\<close>

lemma terminal_wait_line:
  assumes ok: "kb_ok s" and cs: "set cs \<inter> {0x0E, 0x1C, 0x3B, 0x3C, 0x3D} = {}"
    and "enter_flag s = 0" and fg: "curr_terminal s = curr_scheduled s"
  shows "terminal_wait (map press (cs @ [0x1C]) @ rest) s = Some (fold press (cs @ [0x1C]) s, rest)"
proof -
  have flag: "enter_flag (fold press (take k cs) s) \<noteq> 1" for k
  proof -
    have sub: "set (take k cs) \<inter> {0x0E, 0x3B, 0x3C, 0x3D} = {}" "0x1C \<notin> set (take k cs)"
      using cs set_take_subset [of k cs] by auto
    from fold_press(2) [OF ok sub(1)] kenter_fold [OF sub(2), of "kview_of s"] assms(3)
    show ?thesis by (auto simp: kview_of_def dest: arg_cong [where f = kenter])
  qed
  have "terminal_wait (map press cs @ (press 0x1C # rest)) s
      = terminal_wait (press 0x1C # rest) (fold (\<lambda>i. i) (map press cs) s)"
    using flag by (intro termw.wait_skips) (simp add: take_map fold_map_press)
  moreover have sub: "set cs \<inter> {0x0E, 0x3B, 0x3C, 0x3D} = {}" using cs by auto
  have "enter_flag (press 0x1C (fold press cs s)) = 1"
  proof -
    have "kenter (kview_of (press 0x1C (fold press cs s)))"
      using fold_press(1) [OF ok sub]
      by (subst kview_press) (auto simp: spec_key_def spec_modifiers_def Let_def)
    then show ?thesis by (simp add: kview_of_def)
  qed
  moreover have "enter_flag (fold press cs s) \<noteq> 1" using flag [of "length cs"] by simp
  ultimately show ?thesis
    using fg fold_press(3,4) [OF ok sub] by (cases rest) (simp_all add: fold_map_press)
qed

lemma store_line_fill:
  assumes "n \<le> length line" "n \<le> 4294967296"
  shows "store_line buf line n m = fill_with m buf n (\<lambda>i. line ! i)"
  using assms
proof (induction n)
  case 0
  then show ?case by (simp add: store_line_def)
next
  case (Suc n)
  then have "store_line buf line (Suc n) m
      = (fill_with m buf n (\<lambda>i. line ! i))(buf + of_nat n := line ! n)"
    by (simp add: store_line_def)
  also have "\<dots> = fill_with m buf (Suc n) (\<lambda>i. line ! i)"
  proof
    fix a
    have "unat (a - buf) = n \<longleftrightarrow> a = buf + of_nat n"
      using Suc.prems offset_eq [of buf a] by (auto simp: unat_of_nat_small)
    then show "((fill_with m buf n (\<lambda>i. line ! i))(buf + of_nat n := line ! n)) a
        = fill_with m buf (Suc n) (\<lambda>i. line ! i) a"
      by (auto simp: fill_with_def in_region_def less_Suc_eq)
  qed
  finally show ?case .
qed

lemma bytes_store_line:
  "n \<le> length line \<Longrightarrow> n < 4294967296 \<Longrightarrow> bytes (store_line buf line n m) buf n = take n line"
  by (rule nth_equalityI)
    (simp_all add: store_line_fill nth_bytes fill_with_def in_region_add unat_of_nat_small)

section \<open>Properties\<close>

text \<open>A keyboard for the examples: an empty line on terminal 1, which is also the one that runs.\<close>

definition sample_keyboard :: keyboard where
  "sample_keyboard = \<lparr>mem = \<lambda>_. 0, ports = [], device = \<lambda>_ _. 0, intr = True,
     frame = 0x7FF000, uninit = 0, screen_x = \<lambda>_. 7, screen_y = \<lambda>_. 3, curr_terminal = 1,
     curr_scheduled = 1, video_mem = VIDEO, master_mask = 0xFF, slave_mask = 0xFF,
     rtc_active = 1, rtc_rates = \<lambda>_. 1, rtc_counter = \<lambda>_. 0,
     shift_key = 0, alt_key = 0, cap_flag = 0, ctrl_key = 0, keyboard_buffer_index = 0,
     enter_flag = 0, keyboard_buffer = replicate 128 0, keyboard_buffer1 = replicate 128 0,
     keyboard_buffer2 = replicate 128 0, keyboard_buffer3 = replicate 128 0,
     kb1_pos = 0, kb2_pos = 0, kb3_pos = 0, switch_flag = 0\<rparr>"

lemma sample_keyboard_ok: "kb_ok sample_keyboard"
  by (simp add: kb_ok_def sample_keyboard_def cursors_ok_def cursor_ok_def)

text \<open>C21. Whatever scan codes arrive, the keyboard handler keeps the line buffers at 128 bytes, the
  index and the saved positions between 0 and 128, every flag at 0 or 1 and all cursors on the
  screen; so no key sequence writes outside a buffer.\<close>

theorem keyboard_invariant:
  assumes "kb_ok s"
  shows "kb_ok (fold (\<lambda>c s. keyboard_handler (s\<lparr>device := \<lambda>_ _. c\<rparr>)) codes s)"
  using assms by (induction codes arbitrary: s) (simp_all add: keyboard_handler_ok)

theorem keyboard_invariant_witness:
  "kb_ok (fold (\<lambda>c s. keyboard_handler (s\<lparr>device := \<lambda>_ _. c\<rparr>)) [0x1E, 0x38, 0x3C, 0x0E] sample_keyboard)"
  by (rule keyboard_invariant [OF sample_keyboard_ok])

text \<open>The decoding of a scan code under shift and caps lock, for every key in the tables: a
  letter is upper case when exactly one of the two is on, and any other key gives its shifted
  symbol only when shift is on and caps lock is off.\<close>

theorem kb_char_decodes:
  assumes "1 \<le> c" and "c \<le> 0x35" and "sh \<in> {0, 1}" and "cp \<in> {0, 1}"
  shows "kb_char c sh cp =
    (let b = char_list ! (unat c - 1); u = upper_char_list ! (unat c - 1)
     in if 97 \<le> b \<and> b \<le> 122 then (if (sh = 1) \<noteq> (cp = 1) then b - 32 else b)
        else if sh = 1 \<and> cp = 0 then u else b)"
  using kb_char_spec [OF assms] assms(4) by (auto simp: spec_char_def Let_def)

theorem kb_char_decodes_witness: "kb_char 0x1E 1 0 = 65 \<and> kb_char 0x02 1 0 = 33"
  using kb_char_decodes [of "0x1E" 1 0] kb_char_decodes [of 2 1 0]
  by (simp add: char_list_def upper_char_list_def)

text \<open>C20. One key press does to the line, the modifiers and the enter flag what the key
  specification says; in particular a full line takes no more characters and backspace removes
  the last one. The three function keys with alt, and backspace with the cursor in the top left
  corner, are the exceptions.\<close>

theorem keyboard_handler_refines:
  assumes "kb_ok s" and "device s (ports s) 0x60 \<notin> {0x3B, 0x3C, 0x3D}"
    and "\<not> (device s (ports s) 0x60 = 0x0E \<and> get_screenx s = 0 \<and> get_screeny s = 0)"
  shows "kview_of (keyboard_handler s) = spec_key (device s (ports s) 0x60) (kview_of s)"
proof -
  obtain p where p: "keyboard_handler s = kb_scancode (device s (ports s) 0x60) (s\<lparr>ports := p\<rparr>)"
    by (rule keyboard_handler_eq)
  have "kview_of (kb_scancode (device s (ports s) 0x60) (s\<lparr>ports := p\<rparr>))
      = spec_key (device s (ports s) 0x60) (kview_of (s\<lparr>ports := p\<rparr>))"
    using assms by (intro kview_scancode) (auto simp: get_screenx_def get_screeny_def)
  then show ?thesis by (simp add: p kview_of_def)
qed

theorem keyboard_handler_refines_witness:
  "kline (kview_of (keyboard_handler (sample_keyboard\<lparr>device := \<lambda>_ _. 0x1E\<rparr>))) = [97]"
proof -
  let ?s = "sample_keyboard\<lparr>device := \<lambda>_ _. 0x1E\<rparr>"
  have "kview_of (keyboard_handler ?s) = spec_key 0x1E (kview_of ?s)"
    using keyboard_handler_refines [of ?s] by (simp add: sample_keyboard_ok)
  moreover have "kline (spec_key 0x1E (kview_of ?s)) = [97]"
    by (simp add: kview_of_def sample_keyboard_def spec_key_def spec_modifiers_def
      spec_push_def spec_char_def char_list_def upper_char_list_def)
  ultimately show ?thesis by simp
qed

text \<open>C22. A line that is typed while the terminal of the reader is displayed is delivered:
  \<open>terminal_read\<close> waits through the keys, returns when enter is pressed, has stored the
  characters of the line, at most \<open>nbytes\<close> of them, in the buffer, returns their number, and
  leaves an empty line.\<close>

theorem terminal_read_line:
  assumes "kb_ok s" and "enter_flag s = 0" and "curr_terminal s = curr_scheduled s" and "0 \<le> nbytes"
    and "set codes \<inter> {0x0E, 0x1C, 0x3B, 0x3C, 0x3D} = {}"
  defines "line \<equiv> kline (fold spec_key codes (kview_of s))"
  shows "case terminal_read fd buf nbytes (map press (codes @ [0x1C]) @ rest) s of
      None \<Rightarrow> False
    | Some (n, s', rest') \<Rightarrow> n = int (min (nat nbytes) (length line)) \<and> rest' = rest
        \<and> bytes (mem s') buf (nat n) = take (nat n) line
        \<and> keyboard_buffer_index s' = 0 \<and> enter_flag s' = 0 \<and> keyboard_buffer s' = replicate 128 0"
proof -
  let ?w = "fold press (codes @ [0x1C]) (sti s)"
  have ok: "kb_ok (sti s)" using assms(1)
    by (simp add: sti_def kb_ok_def cursors_ok_def cursor_ok_def)
  have keys: "set codes \<inter> {0x0E, 0x3B, 0x3C, 0x3D} = {}" using assms(5) by auto
  have wait: "terminal_wait (map press (codes @ [0x1C]) @ rest) (sti s) = Some (?w, rest)"
    using assms(2,3,5) by (intro terminal_wait_line ok) (simp_all add: sti_def)
  have view: "kview_of (sti s) = kview_of s" by (simp add: kview_of_def sti_def)
  have w: "kb_ok ?w" "kview_of ?w = spec_key 0x1C (fold spec_key codes (kview_of s))"
    using fold_press [OF ok keys] view by (simp_all add: press_ok kview_press)
  have "kline (spec_key 0x1C v) = kline v" for v
    by (simp add: spec_key_def spec_modifiers_def Let_def)
  then have line: "take (nat (keyboard_buffer_index ?w)) (keyboard_buffer ?w) = line"
    using w(2) by (auto simp: line_def kview_of_def dest: arg_cong [where f = kline])
  have idx: "0 \<le> keyboard_buffer_index ?w" "keyboard_buffer_index ?w \<le> 128"
    "length (keyboard_buffer ?w) = 128"
    using w(1) by (simp_all add: kb_ok_def)
  have len: "length line = nat (keyboard_buffer_index ?w)" using idx by (simp flip: line)
  define k where "k = min (nat nbytes) (length line)"
  have k: "k \<le> length (keyboard_buffer ?w)" "k < 4294967296" "k \<le> length line"
    using len idx by (auto simp: k_def)
  have i: "nbytes < keyboard_buffer_index ?w \<Longrightarrow> nbytes = int k"
    "\<not> nbytes < keyboard_buffer_index ?w \<Longrightarrow> keyboard_buffer_index ?w = int k"
    using len idx assms(4) by (auto simp: k_def)
  have take: "take k (keyboard_buffer ?w) = take k line"
    using k(3) len by (simp flip: line)
  have "\<exists>s'. terminal_read fd buf nbytes (map press (codes @ [0x1C]) @ rest) s = Some (int k, s', rest)
      \<and> (\<exists>m. mem s' = store_line buf (keyboard_buffer ?w) k m)
      \<and> keyboard_buffer_index s' = 0 \<and> enter_flag s' = 0 \<and> keyboard_buffer s' = replicate 128 0"
  proof (cases "nbytes < keyboard_buffer_index ?w")
    case True
    then show ?thesis using assms(4) i(1) wait
      by (auto simp: terminal_read_def clear_line_def Let_def simp del: fold_append)
  next
    case False
    then show ?thesis using assms(4) i(2) wait
      by (auto simp: terminal_read_def clear_line_def Let_def simp del: fold_append)
  qed
  then obtain s' m where r:
    "terminal_read fd buf nbytes (map press (codes @ [0x1C]) @ rest) s = Some (int k, s', rest)"
    "mem s' = store_line buf (keyboard_buffer ?w) k m"
    "keyboard_buffer_index s' = 0" "enter_flag s' = 0" "keyboard_buffer s' = replicate 128 0"
    by blast
  have "bytes (mem s') buf k = take k line"
    unfolding r(2) bytes_store_line [OF k(1,2)] by (rule take)
  then show ?thesis unfolding r(1) by (simp add: k_def [symmetric] r(3-5))
qed

theorem terminal_read_line_witness:
  "case terminal_read 0 0x8048000 3 (map press ([0x26, 0x1F] @ [0x1C]) @ []) sample_keyboard of
     None \<Rightarrow> False
   | Some (n, s', rest') \<Rightarrow> n = 2 \<and> bytes (mem s') 0x8048000 2 = [108, 115]"
proof -
  have "kline (fold spec_key [0x26, 0x1F] (kview_of sample_keyboard)) = [108, 115]"
    by (simp add: kview_of_def sample_keyboard_def spec_key_def spec_modifiers_def
      spec_push_def spec_char_def char_list_def upper_char_list_def)
  then show ?thesis
    using terminal_read_line [OF sample_keyboard_ok, where nbytes = 3 and codes = "[0x26, 0x1F]" and fd = 0
      and buf = "0x8048000" and rest = "[]"]
    by (auto simp: sample_keyboard_def split: option.splits)
qed

text \<open>Alt with a function key, the switch of the display, and the way back: the line that was
  being typed on the first terminal and its position are restored, in between the line of the
  second terminal is the current one, and the third terminal's line is not touched.\<close>

theorem kb_switch_round_trip:
  assumes "curr_terminal s = a" and "a \<in> {1, 2, 3}" and "b \<in> {1, 2, 3}" and "a \<noteq> b"
  shows "let s1 = kb_switch (of_int (0x3A + b)) s;
        s2 = switch_terminal (curr_terminal s1) (switch_flag s1) s1;
        s3 = kb_switch (of_int (0x3A + a)) s2;
        saved = (\<lambda>t s. if t = 1 then (keyboard_buffer1 s, kb1_pos s)
                  else if t = 2 then (keyboard_buffer2 s, kb2_pos s)
                  else (keyboard_buffer3 s, kb3_pos s))
     in keyboard_buffer s3 = keyboard_buffer s \<and> keyboard_buffer_index s3 = keyboard_buffer_index s
      \<and> switch_flag s3 = a \<and> curr_terminal s2 = b
      \<and> (keyboard_buffer s2, keyboard_buffer_index s2) = saved b s
      \<and> saved b s3 = saved b s \<and> saved (6 - a - b) s3 = saved (6 - a - b) s"
proof -
  consider "a = 1 \<and> b = 2" | "a = 1 \<and> b = 3" | "a = 2 \<and> b = 1" | "a = 2 \<and> b = 3"
    | "a = 3 \<and> b = 1" | "a = 3 \<and> b = 2"
    using assms by auto
  then show ?thesis
    using assms(1) by cases (simp_all add: kb_switch_def kb_save_def Let_def switch_terminal_kb)
qed

theorem kb_switch_round_trip_witness:
  "keyboard_buffer (kb_switch 0x3B (switch_terminal 1 2 (kb_switch 0x3C
      (sample_keyboard\<lparr>keyboard_buffer := replicate 128 65\<rparr>)))) = replicate 128 65"
  using kb_switch_round_trip [of "sample_keyboard\<lparr>keyboard_buffer := replicate 128 65\<rparr>" 1 2]
  by (simp add: sample_keyboard_def kb_switch_def Let_def)

end
