(* ===== verification/Directory.thy ===== *)
theory Directory
  imports Filesys_Laws Keyboard
begin

text \<open>
  The directory as a file: \<open>dir_read\<close>, \<open>dir_write\<close>, \<open>dir_open\<close> and \<open>dir_close\<close> of
  \<open>student-distrib/filesys.c\<close>. The position \<open>dir_index\<close> is one global variable, shared by all
  processes.
\<close>

section \<open>State and operations\<close>

record directory = keyboard +
  filesys_addr :: u32
  dir_index :: int

text \<open>The loop that measures the name: up to \<open>bytes_cpy\<close> characters before a NUL.\<close>

function name_length :: "mem \<Rightarrow> u32 \<Rightarrow> u8 \<Rightarrow> int \<Rightarrow> int" where
  "name_length m name bytes_cpy i =
     (if i < uint bytes_cpy then
        (if m (name + of_int i) = 0 then i else name_length m name bytes_cpy (i + 1))
      else i)"
  by pat_completeness auto
termination
  by (relation "measure (\<lambda>(m, name, bytes_cpy, i). nat (uint bytes_cpy - i))") auto

declare name_length.simps [simp del]

text \<open>The local \<open>dentry_test\<close> lies at \<open>frame\<close>. \<open>bytes_cpy\<close> is a \<open>uint8_t\<close>, and \<open>i + 1\<close> bytes are
  copied to the buffer.\<close>

definition dir_read :: "int \<Rightarrow> u32 \<Rightarrow> int \<Rightarrow> 'a directory_scheme \<Rightarrow> int \<times> 'a directory_scheme" where
  "dir_read fd buf nbytes s =
     (let amt_dentrys = load_int (mem s) (filesys_addr s)
      in if dir_index s \<ge> amt_dentrys then (0, s)
         else
           (let dentry_test = frame s;
                (r, m) = read_dentry_by_index (filesys_addr s) (of_int (dir_index s)) dentry_test (mem s);
                s = s\<lparr>mem := m\<rparr>
            in if r \<noteq> 0 then (-1, s)
               else
                 (let bytes_cpy = (of_int (if nbytes > FILE_NAME_SIZE then FILE_NAME_SIZE else nbytes) :: u8);
                      i = name_length (mem s) dentry_test bytes_cpy 0;
                      s = s\<lparr>mem := memcpy (mem s) buf dentry_test (of_int (i + 1))\<rparr>;
                      s = s\<lparr>dir_index := dir_index s + 1\<rparr>
                  in (i, s))))"

definition dir_write :: "int \<Rightarrow> u32 \<Rightarrow> int \<Rightarrow> int" where
  "dir_write fd buf nbytes = -1"

definition dir_open :: "u32 \<Rightarrow> 'a directory_scheme \<Rightarrow> int \<times> 'a directory_scheme" where
  "dir_open filename s = (0, s\<lparr>dir_index := 0\<rparr>)"

definition dir_close :: "int \<Rightarrow> 'a directory_scheme \<Rightarrow> int \<times> 'a directory_scheme" where
  "dir_close fd s = (0, s\<lparr>dir_index := 0\<rparr>)"

section \<open>Reading one name\<close>

lemma name_length_prefix:
  "0 \<le> i \<Longrightarrow> i \<le> uint b \<Longrightarrow>
   name_length m name b i = i + int (length (str_prefix m (name + of_int i) (nat (uint b - i))))"
proof (induction m name b i rule: name_length.induct)
  case (1 m name b i)
  show ?case
  proof (cases "i < uint b")
    case True
    then have d: "nat (uint b - i) = Suc (nat (uint b - (i + 1)))" by linarith
    show ?thesis
    proof (cases "m (name + of_int i) = 0")
      case True
      then show ?thesis unfolding d str_prefix_Suc using \<open>i < uint b\<close> by (simp add: name_length.simps)
    next
      case False
      have "name_length m name b i = name_length m name b (i + 1)"
        using True False by (subst name_length.simps) simp
      also have "\<dots> = i + 1 + int (length (str_prefix m (name + of_int (i + 1)) (nat (uint b - (i + 1)))))"
        using "1.prems" True by (intro "1.IH" [OF True False]) auto
      finally show ?thesis unfolding d str_prefix_Suc using False by (simp add: add.assoc)
    qed
  next
    case False
    with "1.prems" show ?thesis by (subst name_length.simps) (simp add: str_prefix_def)
  qed
qed

text \<open>How many bytes a read of \<open>nbytes\<close> may deliver.\<close>

definition name_limit :: "int \<Rightarrow> nat" where
  "name_limit nbytes = nat (min nbytes 32)"

lemma bytes_cpy_limit:
  assumes "0 \<le> nbytes"
  shows "nat (uint (of_int (if nbytes > 32 then 32 else nbytes) :: u8)) = name_limit nbytes"
proof -
  have "uint (of_int (min nbytes 32) :: u8) = min nbytes 32"
    using assms by (simp add: uint_word_of_int)
  moreover have "(if nbytes > 32 then 32 else nbytes) = min nbytes 32" by simp
  ultimately show ?thesis by (simp only: name_limit_def)
qed

lemma str_prefix_copy:
  assumes "k \<le> n" "n \<le> 4294967296"
  shows "str_prefix (copy m d s n) d k = str_prefix m s k"
proof -
  have "bytes (copy m d s n) d k = bytes m s k"
    using assms by (simp add: list_eq_iff_nth_eq nth_bytes copy_def in_region_add)
  then show ?thesis by (simp add: str_prefix_def)
qed

text \<open>The buffers that the routine writes do not overlap the image, nor each other.\<close>

definition dir_buffers :: "u32 \<Rightarrow> nat \<Rightarrow> u32 \<Rightarrow> u32 \<Rightarrow> bool" where
  "dir_buffers fs sz tmp buf \<longleftrightarrow> sz \<le> 4294967296 \<and> disjoint_regions tmp 64 fs sz
     \<and> disjoint_regions buf 33 fs sz \<and> 33 \<le> unat (buf - tmp)"

definition entries_in_image :: "u32 \<Rightarrow> nat \<Rightarrow> nat \<Rightarrow> bool" where
  "entries_in_image fs sz n \<longleftrightarrow> n < 2147483648 \<and> in_image fs sz fs
     \<and> list_all (\<lambda>i. unat (entry_addr fs i - fs) + 64 \<le> sz) [0..<n]"

lemma entry_in_image:
  assumes "entries_in_image fs sz n" "i < n" "k < 64" "sz \<le> 4294967296"
  shows "in_region (entry_addr fs i + of_nat k) fs sz"
proof -
  have le: "unat (entry_addr fs i - fs) + 64 \<le> sz"
    using assms(1,2) by (simp add: entries_in_image_def list_all_iff)
  have off: "entry_addr fs i + of_nat k - fs = (entry_addr fs i - fs) + of_nat k" by simp
  have "unat ((entry_addr fs i - fs) + of_nat k) = unat (entry_addr fs i - fs) + k"
    using le assms(3,4) by (simp add: unat_word_ariths unat_of_nat_small)
  then show ?thesis using le assms(3) by (simp add: in_region_def off)
qed

lemma same_image_entry_name:
  assumes "same_image fs sz m m'" "entries_in_image fs sz n" "i < n" "sz \<le> 4294967296" "k \<le> 64"
  shows "str_prefix m' (entry_addr fs i) k = str_prefix m (entry_addr fs i) k"
  using assms entry_in_image [OF assms(2,3) _ assms(4)]
  by (intro str_prefix_cong) (auto simp: same_image_def)

lemma copy_same_image:
  assumes "disjoint_regions d k fs sz" "n \<le> k"
  shows "same_image fs sz m (copy m d s n)"
  using disjoint_regions_not_in [OF assms(1)] assms(2)
  by (auto simp: same_image_def copy_def in_region_def)

text \<open>One read of the directory at a valid position.\<close>

lemma dir_read_entry:
  fixes s :: "'a directory_scheme"
  defines "fs \<equiv> filesys_addr s" and "i \<equiv> nat (dir_index s)"
  assumes count: "load_int (mem s) fs = int n" and pos: "0 \<le> dir_index s" "dir_index s < int n"
    and img: "entries_in_image fs sz n" and bufs: "dir_buffers fs sz (frame s) buf"
    and nb: "0 \<le> nbytes"
  obtains m' where "dir_read fd buf nbytes s
      = (int (length (str_prefix (mem s) (entry_addr fs i) (name_limit nbytes))),
         s\<lparr>mem := m', dir_index := dir_index s + 1\<rparr>)"
    and "bytes m' buf (length (str_prefix (mem s) (entry_addr fs i) (name_limit nbytes)))
      = str_prefix (mem s) (entry_addr fs i) (name_limit nbytes)"
    and "same_image fs sz (mem s) m'"
    and "\<And>a. \<not> in_region a (frame s) 64 \<Longrightarrow> \<not> in_region a buf 33 \<Longrightarrow> m' a = mem s a"
proof -
  let ?a = "entry_addr fs i" and ?k = "name_limit nbytes"
  let ?b = "of_int (if nbytes > 32 then 32 else nbytes) :: u8"
  define l where "l = length (str_prefix (mem s) ?a ?k)"
  have sz: "sz \<le> 4294967296" using bufs by (simp add: dir_buffers_def)
  have k32: "?k \<le> 32" by (simp add: name_limit_def)
  have l: "l \<le> ?k" unfolding l_def by (rule length_str_prefix)
  have n: "n < 2147483648" using img by (simp add: entries_in_image_def)
  have i: "i < n" "int i = dir_index s" using pos by (simp_all add: i_def)
  have idx: "(of_int (dir_index s) :: u32) = of_nat i" by (simp flip: i(2))
  have cnt: "load32 (mem s) fs = of_nat n"
  proof -
    have "load32 (mem s) fs = of_int (load_int (mem s) fs)" by (simp add: load_int_def)
    then show ?thesis by (simp add: count)
  qed
  have le: "\<not> (of_nat i :: u32) > of_nat n"
    using i(1) n by (simp add: word_less_nat_alt unat_of_nat_small)
  let ?m1 = "copy (mem s) (frame s) ?a 64"
  have sep1: "unat (frame s - ?a) \<ge> 64"
  proof (rule ccontr)
    assume "\<not> 64 \<le> unat (frame s - ?a)"
    then have "in_region (?a + of_nat (unat (frame s - ?a))) fs sz"
      by (intro entry_in_image [OF img i(1) _ sz]) simp
    then have "in_region (frame s) fs sz" by (simp only: offset_eq)
    moreover have "in_region (frame s) (frame s) 64" by (simp add: in_region_def)
    ultimately show False
      using disjoint_regions_not_in [of "frame s" 64 fs sz] bufs by (simp add: dir_buffers_def)
  qed
  have cp1: "memcpy (mem s) (frame s) ?a 64 = ?m1"
    using sep1 memcpy_eq_copy [of 64 "frame s" ?a "mem s"] by simp
  have by_index: "read_dentry_by_index fs (of_int (dir_index s)) (frame s) (mem s) = (0, ?m1)"
    unfolding read_dentry_by_index_def idx cnt if_not_P [OF le]
    using cp1 by (simp add: entry_addr_def)
  have ub: "0 \<le> uint ?b" "nat (uint ?b) = ?k" using bytes_cpy_limit [OF nb] by simp_all
  have len: "name_length ?m1 (frame s) ?b 0 = int l"
    using name_length_prefix [of 0 ?b ?m1 "frame s"] ub(2) k32
    by (simp add: str_prefix_copy l_def)
  have ul: "unat (of_int (int l + 1) :: u32) = Suc l"
    using l k32 unat_of_int_u32 [of "int l + 1"] by (simp add: nat_add_distrib del: of_int_add)
  have sep2: "unat (buf - frame s) \<ge> Suc l" using bufs l k32 by (simp add: dir_buffers_def)
  let ?m2 = "copy ?m1 buf (frame s) (Suc l)"
  have cp2: "memcpy ?m1 buf (frame s) (of_int (int l + 1)) = ?m2"
    using memcpy_eq_copy [of "of_int (int l + 1)" buf "frame s" ?m1] sep2 ul by (simp del: of_int_add)
  have "dir_read fd buf nbytes s = (int l, s\<lparr>mem := ?m2, dir_index := dir_index s + 1\<rparr>)"
    using pos by_index len cp2
    unfolding dir_read_def Let_def fs_def [symmetric] count by (simp del: of_int_add)
  moreover have "bytes ?m2 buf l = str_prefix (mem s) ?a ?k"
  proof -
    have "bytes ?m2 buf l = bytes ?m1 (frame s) l"
      using l k32 by (simp add: list_eq_iff_nth_eq nth_bytes copy_def in_region_add)
    also have "\<dots> = bytes (mem s) ?a l"
      using l k32 by (simp add: list_eq_iff_nth_eq nth_bytes copy_def in_region_add)
    finally show ?thesis unfolding l_def bytes_str_prefix .
  qed
  moreover have "same_image fs sz (mem s) ?m2"
  proof (rule same_image_trans)
    show "same_image fs sz (mem s) ?m1"
      using bufs by (intro copy_same_image) (auto simp: dir_buffers_def)
    show "same_image fs sz ?m1 ?m2"
      using bufs l k32 by (intro copy_same_image) (auto simp: dir_buffers_def)
  qed
  moreover have "?m2 a = mem s a" if "\<not> in_region a (frame s) 64" "\<not> in_region a buf 33" for a
  proof -
    have "\<not> in_region a buf (Suc l)" using that(2) l k32 by (auto simp: in_region_def)
    then show ?thesis using that(1) by (simp add: copy_outside)
  qed
  ultimately show ?thesis using that unfolding l_def by blast
qed

section \<open>Properties\<close>

text \<open>A state for the example: the image of \<open>Filesys_Laws\<close>, with its one entry \<open>a\<close>.\<close>

definition sample_directory :: directory where
  "sample_directory = \<lparr>mem = sample_image, ports = [], device = \<lambda>_ _. 0, intr = True,
     frame = 0x7FF000, uninit = 0, screen_x = \<lambda>_. 0, screen_y = \<lambda>_. 0, curr_terminal = 1,
     curr_scheduled = 1, video_mem = VIDEO, master_mask = 0xFF, slave_mask = 0xFF,
     rtc_active = 1, rtc_rates = \<lambda>_. 1, rtc_counter = \<lambda>_. 0,
     shift_key = 0, alt_key = 0, cap_flag = 0, ctrl_key = 0, keyboard_buffer_index = 0,
     enter_flag = 0, keyboard_buffer = replicate 128 0, keyboard_buffer1 = replicate 128 0,
     keyboard_buffer2 = replicate 128 0, keyboard_buffer3 = replicate 128 0,
     kb1_pos = 0, kb2_pos = 0, kb3_pos = 0, switch_flag = 0,
     filesys_addr = 0x10000, dir_index = 5\<rparr>"

text \<open>C29. After \<open>dir_open\<close>, the directory is read entry by entry: the \<open>k\<close>-th read delivers the
  name of the \<open>k\<close>-th entry (as much of it as fits), returns its length, and when all entries
  have been read, further reads return 0.\<close>

theorem dir_read_lists:
  fixes s :: "'a directory_scheme"
  assumes "load_int (mem s) (filesys_addr s) = int n"
    and "entries_in_image (filesys_addr s) sz n"
    and "dir_buffers (filesys_addr s) sz (frame s) buf" and "0 \<le> nbytes" and "k \<le> n"
  shows "let s' = ((\<lambda>s. snd (dir_read fd buf nbytes s)) ^^ k) (snd (dir_open filename s));
        name = str_prefix (mem s) (entry_addr (filesys_addr s) k) (name_limit nbytes)
     in if k < n
        then fst (dir_read fd buf nbytes s') = int (length name)
           \<and> bytes (mem (snd (dir_read fd buf nbytes s'))) buf (length name) = name
        else dir_read fd buf nbytes s' = (0, s')"
proof -
  let ?fs = "filesys_addr s" and ?read = "dir_read fd buf nbytes"
  let ?s = "\<lambda>k. ((\<lambda>s. snd (?read s)) ^^ k) (snd (dir_open filename s))"
  have sz: "sz \<le> 4294967296" using assms(3) by (simp add: dir_buffers_def)
  have fs: "in_image ?fs sz ?fs" using assms(2) by (simp add: entries_in_image_def)
  have run: "dir_index (?s k) = int k \<and> filesys_addr (?s k) = ?fs \<and> frame (?s k) = frame s
      \<and> same_image ?fs sz (mem s) (mem (?s k))" if "k \<le> n" for k
    using that
  proof (induction k)
    case 0
    then show ?case by (simp add: dir_open_def)
  next
    case (Suc k)
    then have IH: "dir_index (?s k) = int k" "filesys_addr (?s k) = ?fs" "frame (?s k) = frame s"
      "same_image ?fs sz (mem s) (mem (?s k))" by simp_all
    have count: "load_int (mem (?s k)) ?fs = int n"
      using same_image_load [OF IH(4) fs sz] assms(1) by (simp add: load_int_def)
    obtain m' where "?read (?s k) = (int (length (str_prefix (mem (?s k))
          (entry_addr (filesys_addr (?s k)) (nat (dir_index (?s k)))) (name_limit nbytes))),
        (?s k)\<lparr>mem := m', dir_index := dir_index (?s k) + 1\<rparr>)"
      and "same_image (filesys_addr (?s k)) sz (mem (?s k)) m'"
      by (rule dir_read_entry [of "?s k" n sz buf nbytes fd])
        (use IH count assms Suc.prems in \<open>simp_all\<close>)
    then show ?case using IH same_image_trans [OF IH(4)] by simp
  qed
  note r = run [OF assms(5)]
  have count: "load_int (mem (?s k)) ?fs = int n"
    using same_image_load [of ?fs sz "mem s" "mem (?s k)", OF _ fs sz] r assms(1)
    by (simp add: load_int_def)
  show ?thesis
  proof (cases "k < n")
    case True
    have name: "str_prefix (mem (?s k)) (entry_addr ?fs k) (name_limit nbytes)
        = str_prefix (mem s) (entry_addr ?fs k) (name_limit nbytes)"
      using r assms(2) True sz
      by (intro same_image_entry_name [where sz = sz and n = n]) (auto simp: name_limit_def)
    obtain m' where "?read (?s k) = (int (length (str_prefix (mem (?s k))
          (entry_addr (filesys_addr (?s k)) (nat (dir_index (?s k)))) (name_limit nbytes))),
        (?s k)\<lparr>mem := m', dir_index := dir_index (?s k) + 1\<rparr>)"
      and "bytes m' buf (length (str_prefix (mem (?s k))
          (entry_addr (filesys_addr (?s k)) (nat (dir_index (?s k)))) (name_limit nbytes)))
        = str_prefix (mem (?s k)) (entry_addr (filesys_addr (?s k)) (nat (dir_index (?s k)))) (name_limit nbytes)"
      by (rule dir_read_entry [of "?s k" n sz buf nbytes fd])
        (use r count assms True in \<open>simp_all\<close>)
    then show ?thesis using True r name by (simp add: Let_def)
  next
    case False
    then have "dir_index (?s k) \<ge> load_int (mem (?s k)) (filesys_addr (?s k))"
      using r count assms(5) by simp
    then have "?read (?s k) = (0, ?s k)" by (simp add: dir_read_def)
    then show ?thesis using False by (simp add: Let_def)
  qed
qed

theorem dir_read_lists_witness:
  "fst (dir_read 2 0x30000 32 (snd (dir_open 0 sample_directory))) = 1
   \<and> bytes (mem (snd (dir_read 2 0x30000 32 (snd (dir_open 0 sample_directory))))) 0x30000 1 = [97]"
proof -
  have "load_int (mem sample_directory) (filesys_addr sample_directory) = int 1"
    by (simp add: sample_directory_def load_int_def sample_loads)
  moreover have "entries_in_image (filesys_addr sample_directory) 0x3000 1"
    by (simp add: entries_in_image_def in_image_def sample_directory_def entry_addr_def)
  moreover have "dir_buffers (filesys_addr sample_directory) 0x3000 (frame sample_directory) 0x30000"
    by (simp add: dir_buffers_def disjoint_regions_def sample_directory_def)
  moreover have "str_prefix (mem sample_directory) (entry_addr (filesys_addr sample_directory) 0) 32 = [97]"
    using str_prefix_Suc [of sample_image _ 31] str_prefix_Suc [of sample_image _ 30]
    by (simp add: entry_addr_def sample_directory_def) (simp add: sample_image_def)
  ultimately show ?thesis
    using dir_read_lists [of sample_directory 1 "0x3000" "0x30000" 32 0 2 0]
    by (simp add: name_limit_def Let_def)
qed

end
