(* ===== verification/Process.thy ===== *)
theory Process
  imports Directory
begin

text \<open>
  The process table of \<open>student-distrib/sys_calls.c\<close>: process control blocks with their file
  arrays, the counters and slots, and the part of the paging state that changes when a process
  starts, ends or is scheduled.
\<close>

section \<open>State\<close>

text \<open>The five static tables of file operations; a \<open>fops_table\<close> pointer that was never set is
  \<open>None\<close>.\<close>

datatype ftable = File_table | Dir_table | Rtc_table | Stdin_table | Stdout_table

record fd_struct =
  fops_table :: "ftable option"
  inode :: int
  f_pos :: int
  flags :: int

text \<open>\<open>parent_task\<close> is the address of a block, 0 for NULL; \<open>esp\<close> and \<open>ebp\<close> are the stack of the
  caller of \<open>execute\<close>. \<open>k_stack\<close> and \<open>child_task\<close> are never used.\<close>

record pcb =
  file_array :: "int \<Rightarrow> fd_struct"
  file_arr_size :: int
  process_num :: int
  parent_task :: u32
  eip :: u32
  esp :: u32
  ebp :: u32
  esp0 :: u32
  args :: "u8 list"
  ebp_scheduler :: u32

text \<open>
  \<^item> \<open>pcbs\<close>: the block at each address;
  \<^item> \<open>pageDirectory\<close>, \<open>pgTbl_vidMem\<close>: the entries of these tables;
  \<^item> \<open>pgTbl_vidMem_addr\<close>: the address at which the linker put the second table;
  \<^item> \<open>user_pde\<close>: the directory entry of the program page that the processor has in its TLB;
  \<^item> \<open>frames\<close>: the contents of the 4 MB program pages that are not mapped now, by entry;
  \<^item> \<open>tss_esp0\<close>, \<open>tss_ss0\<close>: the kernel stack in the task state segment;
  \<^item> \<open>reg_esp\<close>, \<open>reg_ebp\<close>: the processor's stack registers;
  \<^item> \<open>str_shell\<close>, \<open>str_max\<close>: where the string literals \<open>shell\<close> and \<open>MAX PROCESSES REACHED\<close> lie;
  \<^item> \<open>past_args\<close>: the bytes that follow the argument array of a block in memory.
\<close>

record process = directory +
  user_vid_mem :: u32
  process_count :: int
  highest_terminal_processes :: "int \<Rightarrow> int"
  pcb_slots :: "int \<Rightarrow> int"
  process_per_terminal :: "int \<Rightarrow> int"
  pcbs :: "u32 \<Rightarrow> pcb"
  pageDirectory :: "nat \<Rightarrow> u32"
  pgTbl_vidMem :: "nat \<Rightarrow> u32"
  pgTbl_vidMem_addr :: u32
  user_pde :: u32
  frames :: "u32 \<Rightarrow> mem"
  tss_esp0 :: u32
  tss_ss0 :: u32
  reg_esp :: u32
  reg_ebp :: u32
  str_shell :: u32
  str_max :: u32
  past_args :: "nat \<Rightarrow> u8"

abbreviation MB8 :: u32 where "MB8 \<equiv> 0x800000"
abbreviation MB4 :: u32 where "MB4 \<equiv> 0x400000"
abbreviation KB8 :: u32 where "KB8 \<equiv> 0x2000"
abbreviation MAP_MASK :: u32 where "MAP_MASK \<equiv> 0x87"
abbreviation PROG_PAGE :: u32 where "PROG_PAGE \<equiv> 0x8000000"
abbreviation PROG_LOAD_ADDR :: u32 where "PROG_LOAD_ADDR \<equiv> 0x08048000"
abbreviation USER_VID_ADDR :: u32 where "USER_VID_ADDR \<equiv> 0x08400000"
abbreviation VID_PAGE :: u32 where "VID_PAGE \<equiv> 7"
abbreviation MAX_PROCESS_COUNT :: int where "MAX_PROCESS_COUNT \<equiv> 6"
abbreviation MAX_OPEN_FILES :: int where "MAX_OPEN_FILES \<equiv> 8"
abbreviation MAX_ARGS :: nat where "MAX_ARGS \<equiv> 127"
abbreviation STDI_O :: int where "STDI_O \<equiv> 2"
abbreviation FD_FLAG_PRESENT :: int where "FD_FLAG_PRESENT \<equiv> 1"
abbreviation FD_FLAG_FILE :: int where "FD_FLAG_FILE \<equiv> 2"
abbreviation FD_FLAG_DIRECTORY :: int where "FD_FLAG_DIRECTORY \<equiv> 4"
abbreviation FD_FLAG_RTC :: int where "FD_FLAG_RTC \<equiv> 8"
abbreviation KERNEL_DS :: u32 where "KERNEL_DS \<equiv> 0x18"

section \<open>Access to the blocks\<close>

text \<open>\<open>getPCB\<close>: the block of process \<open>n\<close> lies at the bottom of its 8 KB kernel stack, below 8 MB.\<close>

definition getPCB :: "int \<Rightarrow> u32" where
  "getPCB n = MB8 - of_int n * KB8"

text \<open>The process that the system calls work on: the youngest of the displayed terminal.\<close>

definition current_pcb :: "'a process_scheme \<Rightarrow> u32" where
  "current_pcb s = getPCB (highest_terminal_processes s (curr_terminal s - 1))"

definition update_pcb :: "u32 \<Rightarrow> (pcb \<Rightarrow> pcb) \<Rightarrow> 'a process_scheme \<Rightarrow> 'a process_scheme" where
  "update_pcb p f s = s\<lparr>pcbs := (pcbs s)(p := f (pcbs s p))\<rparr>"

text \<open>An assignment to \<open>pcb->file_array[fd]\<close>.\<close>

definition update_fd :: "u32 \<Rightarrow> int \<Rightarrow> (fd_struct \<Rightarrow> fd_struct) \<Rightarrow> 'a process_scheme \<Rightarrow> 'a process_scheme" where
  "update_fd p fd f = update_pcb p (\<lambda>b. b\<lparr>file_array := (file_array b)(fd := f (file_array b fd))\<rparr>)"

definition fd_of :: "'a process_scheme \<Rightarrow> u32 \<Rightarrow> int \<Rightarrow> fd_struct" where
  "fd_of s p fd = file_array (pcbs s p) fd"

section \<open>Reloading CR3\<close>

text \<open>The page directory entry 32 maps the program page at 128 MB. Loading CR3 makes the processor
  use the entry that is in memory now; the bytes of the window change to those of the frame.\<close>

definition flush_tlb :: "'a process_scheme \<Rightarrow> 'a process_scheme" where
  "flush_tlb s =
     (let new = pageDirectory s 32
      in if new = user_pde s then s
         else s\<lparr>frames := (frames s)(user_pde s := mem s),
                mem := \<lambda>a. if in_region a PROG_PAGE 0x400000 then frames s new a else mem s a,
                user_pde := new\<rparr>)"

text \<open>The entry of the program page of process slot \<open>k\<close>, counted from 0.\<close>

definition user_page :: "int \<Rightarrow> u32" where
  "user_page k = (MB8 + of_int k * MB4) OR MAP_MASK"

end
