(* ===== verification/Printf.thy ===== *)
theory Printf
  imports Console_Laws
begin

text \<open>
  \<open>printf\<close> and \<open>printf2\<close> of \<open>student-distrib/lib.c\<close>. They differ in the routine that prints a
  character, the parameter \<open>put\<close>. The further arguments lie on the stack from \<open>esp\<close> on, in
  words of four bytes; \<open>conv_buf\<close> is the local array at \<open>frame\<close>.
\<close>

section \<open>The conversions\<close>

definition puts_with ::
    "(u8 \<Rightarrow> 'a console_scheme \<Rightarrow> 'a console_scheme) \<Rightarrow> u32 \<Rightarrow> 'a console_scheme \<Rightarrow> 'a console_scheme option" where
  "puts_with put str s = (case puts_loop put str 0 s of None \<Rightarrow> None | Some (_, s) \<Rightarrow> Some s)"

text \<open>The loop that writes the leading zeros.\<close>

function zero_pad :: "u32 \<Rightarrow> int \<Rightarrow> mem \<Rightarrow> mem" where
  "zero_pad conv_buf i m = (if i < 8 then zero_pad conv_buf (i + 1) (m(conv_buf + of_int i := 48)) else m)"
  by pat_completeness auto
termination by (relation "measure (\<lambda>(conv_buf, i, m). nat (8 - i))") auto

declare zero_pad.simps [simp del]

definition print_hex ::
    "(u8 \<Rightarrow> 'a console_scheme \<Rightarrow> 'a console_scheme) \<Rightarrow> bool \<Rightarrow> u32 \<Rightarrow> 'a console_scheme \<Rightarrow>
     'a console_scheme option" where
  "print_hex put alternate value s =
     (let conv_buf = frame s
      in if \<not> alternate then
           (case itoa (mem s) value conv_buf 16 of None \<Rightarrow> None
            | Some m \<Rightarrow> puts_with put conv_buf (s\<lparr>mem := m\<rparr>))
         else
           (case itoa (mem s) value (conv_buf + 8) 16 of None \<Rightarrow> None
            | Some m \<Rightarrow>
                (case strlen m (conv_buf + 8) of None \<Rightarrow> None
                 | Some starting_index \<Rightarrow>
                     puts_with put (conv_buf + starting_index)
                       (s\<lparr>mem := zero_pad conv_buf (sint starting_index) m\<rparr>))))"

definition print_unsigned ::
    "(u8 \<Rightarrow> 'a console_scheme \<Rightarrow> 'a console_scheme) \<Rightarrow> u32 \<Rightarrow> 'a console_scheme \<Rightarrow> 'a console_scheme option" where
  "print_unsigned put value s =
     (let conv_buf = frame s
      in case itoa (mem s) value conv_buf 10 of None \<Rightarrow> None
         | Some m \<Rightarrow> puts_with put conv_buf (s\<lparr>mem := m\<rparr>))"

definition print_signed ::
    "(u8 \<Rightarrow> 'a console_scheme \<Rightarrow> 'a console_scheme) \<Rightarrow> u32 \<Rightarrow> 'a console_scheme \<Rightarrow> 'a console_scheme option" where
  "print_signed put value s =
     (let conv_buf = frame s
      in case (if sint value < 0 then itoa ((mem s)(conv_buf := 45)) (- value) (conv_buf + 1) 10
               else itoa (mem s) value conv_buf 10) of None \<Rightarrow> None
         | Some m \<Rightarrow> puts_with put conv_buf (s\<lparr>mem := m\<rparr>))"

section \<open>The format string\<close>

text \<open>The inner \<open>switch\<close>, from the label \<open>format_char_switch\<close> on. The result is the position in
  the format, the next argument and the state; an unknown conversion prints nothing.\<close>

partial_function (option) format_char ::
    "(u8 \<Rightarrow> 'a console_scheme \<Rightarrow> 'a console_scheme) \<Rightarrow> bool \<Rightarrow> u32 \<Rightarrow> u32 \<Rightarrow> 'a console_scheme \<Rightarrow>
     (u32 \<times> u32 \<times> 'a console_scheme) option" where
  "format_char put alternate buf esp s =
     (if mem s buf = 37 then Some (buf, esp, put 37 s)
      else if mem s buf = 35 then format_char put True (buf + 1) esp s
      else if mem s buf = 120 then
        (case print_hex put alternate (load32 (mem s) esp) s of None \<Rightarrow> None
         | Some s \<Rightarrow> Some (buf, esp + 4, s))
      else if mem s buf = 117 then
        (case print_unsigned put (load32 (mem s) esp) s of None \<Rightarrow> None
         | Some s \<Rightarrow> Some (buf, esp + 4, s))
      else if mem s buf = 100 then
        (case print_signed put (load32 (mem s) esp) s of None \<Rightarrow> None
         | Some s \<Rightarrow> Some (buf, esp + 4, s))
      else if mem s buf = 99 then Some (buf, esp + 4, put (ucast (load32 (mem s) esp)) s)
      else if mem s buf = 115 then
        (case puts_with put (load32 (mem s) esp) s of None \<Rightarrow> None
         | Some s \<Rightarrow> Some (buf, esp + 4, s))
      else Some (buf, esp, s))"

partial_function (option) printf_loop ::
    "(u8 \<Rightarrow> 'a console_scheme \<Rightarrow> 'a console_scheme) \<Rightarrow> u32 \<Rightarrow> u32 \<Rightarrow> 'a console_scheme \<Rightarrow>
     (u32 \<times> 'a console_scheme) option" where
  "printf_loop put buf esp s =
     (if mem s buf \<noteq> 0 then
        (if mem s buf = 37 then
           (case format_char put False (buf + 1) esp s of None \<Rightarrow> None
            | Some (buf, esp, s) \<Rightarrow> printf_loop put (buf + 1) esp s)
         else printf_loop put (buf + 1) esp (put (mem s buf) s))
      else Some (buf, s))"

text \<open>The return value is the number of bytes of the format that were read.\<close>

definition printf_with ::
    "(u8 \<Rightarrow> 'a console_scheme \<Rightarrow> 'a console_scheme) \<Rightarrow> u32 \<Rightarrow> u32 \<Rightarrow> 'a console_scheme \<Rightarrow>
     (u32 \<times> 'a console_scheme) option" where
  "printf_with put format esp s =
     (case printf_loop put format esp s of None \<Rightarrow> None | Some (buf, s) \<Rightarrow> Some (buf - format, s))"

definition printf :: "u32 \<Rightarrow> u32 \<Rightarrow> 'a console_scheme \<Rightarrow> (u32 \<times> 'a console_scheme) option" where
  "printf format esp s = printf_with putc format esp s"

definition printf2 :: "u32 \<Rightarrow> u32 \<Rightarrow> 'a console_scheme \<Rightarrow> (u32 \<times> 'a console_scheme) option" where
  "printf2 format esp s = printf_with putc2 format esp s"

end
