(* ===== verification/Sys_Calls.thy ===== *)
theory Sys_Calls
  imports Process Printf
begin

text \<open>
  The system calls of \<open>student-distrib/sys_calls.c\<close> that work on the file array of a process,
  with the operations tables they call through, and \<open>file_read\<close> and \<open>file_close\<close> of
  \<open>filesys.c\<close>; then \<open>getargs\<close>, \<open>vidmap\<close> and the two signal stubs. \<open>execute\<close> and \<open>halt\<close> are in
  \<open>Exec\<close>.
\<close>

section \<open>Outcomes\<close>

text \<open>A call that blocks has served all interrupts it was given and still waits. \<open>Fault\<close> is a use of
  a pointer or an array element that does not exist.\<close>

datatype 'r outcome = Done 'r | Blocked | Fault

section \<open>Files\<close>

text \<open>\<open>f_pos\<close> is an \<open>int32_t\<close> to which an unsigned number is added.\<close>

definition file_read :: "int \<Rightarrow> u32 \<Rightarrow> int \<Rightarrow> 'a process_scheme \<Rightarrow> int \<times> 'a process_scheme" where
  "file_read fd buf nbytes s =
     (let cur_pcb = current_pcb s
      in if nbytes < 0 then (-1, s)
         else if nbytes = 0 then (0, s)
         else
           (let f = fd_of s cur_pcb fd;
                (n, m) = read_data (filesys_addr s) (of_int (inode f)) (of_int (f_pos f)) buf
                           (of_int nbytes) (mem s);
                s = s\<lparr>mem := m\<rparr>;
                s = update_fd cur_pcb fd (\<lambda>f. f\<lparr>f_pos := sint (of_int (f_pos f) + n :: u32)\<rparr>) s
            in (sint n, s)))"

definition sys_close :: "int \<Rightarrow> 'a process_scheme \<Rightarrow> int \<times> 'a process_scheme" where
  "sys_close fd s =
     (let cur_pcb = current_pcb s
      in if (fd < STDI_O \<or> fd \<ge> MAX_OPEN_FILES) \<or> flags (fd_of s cur_pcb fd) = 0 then (-1, s)
         else
           (let s = update_pcb cur_pcb (\<lambda>b. b\<lparr>file_arr_size := file_arr_size b - 1\<rparr>) s;
                s = update_fd cur_pcb fd (\<lambda>f. f\<lparr>flags := 0\<rparr>) s
            in (0, s)))"

definition file_close :: "int \<Rightarrow> 'a process_scheme \<Rightarrow> int \<times> 'a process_scheme" where
  "file_close fd s = (0, snd (sys_close fd s))"

section \<open>The tables of operations\<close>

definition stdin_write :: "int \<Rightarrow> u32 \<Rightarrow> int \<Rightarrow> int" where
  "stdin_write fd buf nbytes = 0"

definition stdout_read :: "int \<Rightarrow> u32 \<Rightarrow> int \<Rightarrow> int" where
  "stdout_read fd buf nbytes = 0"

text \<open>The entry \<open>read\<close> of each table; the interrupts are those served while the call waits.\<close>

definition table_read ::
    "ftable \<Rightarrow> int \<Rightarrow> u32 \<Rightarrow> int \<Rightarrow> ('a process_scheme \<Rightarrow> 'a process_scheme) list \<Rightarrow> 'a process_scheme \<Rightarrow>
     (int \<times> 'a process_scheme \<times> ('a process_scheme \<Rightarrow> 'a process_scheme) list) option" where
  "table_read t fd buf nbytes interrupts s =
     (case t of
        File_table \<Rightarrow> (case file_read fd buf nbytes s of (r, s) \<Rightarrow> Some (r, s, interrupts))
      | Dir_table \<Rightarrow> (case dir_read fd buf nbytes s of (r, s) \<Rightarrow> Some (r, s, interrupts))
      | Rtc_table \<Rightarrow> rtc_read fd buf nbytes interrupts s
      | Stdin_table \<Rightarrow> terminal_read fd buf nbytes interrupts s
      | Stdout_table \<Rightarrow> Some (stdout_read fd buf nbytes, s, interrupts))"

definition table_write ::
    "ftable \<Rightarrow> int \<Rightarrow> u32 \<Rightarrow> int \<Rightarrow> 'a process_scheme \<Rightarrow> int \<times> 'a process_scheme" where
  "table_write t fd buf nbytes s =
     (case t of
        File_table \<Rightarrow> (file_write fd buf nbytes, s)
      | Dir_table \<Rightarrow> (dir_write fd buf nbytes, s)
      | Rtc_table \<Rightarrow> rtc_write fd buf nbytes s
      | Stdin_table \<Rightarrow> (stdin_write fd buf nbytes, s)
      | Stdout_table \<Rightarrow> terminal_write fd buf nbytes s)"

text \<open>\<open>open\<close> ignores the result of the entry, so its state is all that matters.\<close>

definition table_open :: "ftable \<Rightarrow> u32 \<Rightarrow> 'a process_scheme \<Rightarrow> 'a process_scheme" where
  "table_open t filename s =
     (case t of
        File_table \<Rightarrow> s
      | Dir_table \<Rightarrow> snd (dir_open filename s)
      | Rtc_table \<Rightarrow> snd (rtc_open filename s)
      | Stdin_table \<Rightarrow> s
      | Stdout_table \<Rightarrow> s)"

definition table_close :: "ftable \<Rightarrow> int \<Rightarrow> 'a process_scheme \<Rightarrow> int \<times> 'a process_scheme" where
  "table_close t fd s =
     (case t of
        File_table \<Rightarrow> file_close fd s
      | Dir_table \<Rightarrow> dir_close fd s
      | Rtc_table \<Rightarrow> (rtc_close fd, s)
      | Stdin_table \<Rightarrow> (terminal_close fd, s)
      | Stdout_table \<Rightarrow> (terminal_close fd, s))"

section \<open>read and write\<close>

text \<open>\<open>read\<close> tests the pointer against NULL only. Process blocks, page tables and line buffers are
  fields of the state, not bytes of \<open>mem\<close>, so a pointer into the kernel's own data writes bytes of the
  model that hold nothing: the definition describes the code for buffers in the memory of the
  program, and the laws about it are stated for such buffers.\<close>

definition sys_read ::
    "int \<Rightarrow> u32 \<Rightarrow> int \<Rightarrow> ('a process_scheme \<Rightarrow> 'a process_scheme) list \<Rightarrow> 'a process_scheme \<Rightarrow>
     (int \<times> 'a process_scheme \<times> ('a process_scheme \<Rightarrow> 'a process_scheme) list) outcome" where
  "sys_read fd buf nbytes interrupts s =
     (let cur_pcb = current_pcb s
      in if buf = 0 \<or> fd \<ge> MAX_OPEN_FILES \<or> fd < 0 \<or> fd = 1 \<or> flags (fd_of s cur_pcb fd) = 0
         then Done (-1, s, interrupts)
         else
           (case fops_table (fd_of s cur_pcb fd) of
              None \<Rightarrow> Fault
            | Some t \<Rightarrow>
                (case table_read t fd buf nbytes interrupts s of None \<Rightarrow> Blocked | Some r \<Rightarrow> Done r)))"

text \<open>\<open>write\<close> to the terminal copies the buffer to the kernel stack first, see
  \<open>print_withoutnull\<close>.\<close>

definition sys_write ::
    "int \<Rightarrow> u32 \<Rightarrow> int \<Rightarrow> 'a process_scheme \<Rightarrow> (int \<times> 'a process_scheme) outcome" where
  "sys_write fd buf nbytes s =
     (let s = cli s;
          cur_pcb = current_pcb s
      in if buf = 0 \<or> fd \<ge> MAX_OPEN_FILES \<or> fd < 0 \<or> fd = 0 \<or> flags (fd_of s cur_pcb fd) = 0
         then Done (-1, sti s)
         else if flags (fd_of s cur_pcb fd) AND FD_FLAG_FILE \<noteq> 0 then Done (-1, sti s)
         else
           (case fops_table (fd_of s cur_pcb fd) of
              None \<Rightarrow> Fault
            | Some t \<Rightarrow> (case table_write t fd buf nbytes s of (position, s) \<Rightarrow> Done (position, sti s))))"

section \<open>open\<close>

text \<open>The search for an entry that is not present: the loop of \<open>open\<close> from \<open>fd\<close> on, with the number
  of entries still to look at. The result 8 is an index past the array.\<close>

fun find_fd :: "(int \<Rightarrow> fd_struct) \<Rightarrow> int \<Rightarrow> nat \<Rightarrow> int" where
  "find_fd files fd 0 = fd"
| "find_fd files fd (Suc n) =
     (if FD_FLAG_PRESENT AND flags (files fd) = 0 then fd else find_fd files (fd + 1) n)"

text \<open>The \<open>switch\<close> on the file type. Another type leaves the table as it is.\<close>

definition fd_setup :: "dentry \<Rightarrow> fd_struct \<Rightarrow> fd_struct" where
  "fd_setup entry f =
     (if file_type entry = 0 then
        f\<lparr>fops_table := Some Rtc_table, inode := 0, flags := flags f + FD_FLAG_RTC\<rparr>
      else if file_type entry = 1 then
        f\<lparr>fops_table := Some Dir_table, inode := 0, flags := flags f + FD_FLAG_DIRECTORY\<rparr>
      else if file_type entry = 2 then
        f\<lparr>fops_table := Some File_table, inode := inode_num entry, flags := flags f + FD_FLAG_FILE\<rparr>
      else f)"

text \<open>The local \<open>entry\<close> lies at \<open>frame\<close>.\<close>

definition sys_open :: "u32 \<Rightarrow> 'a process_scheme \<Rightarrow> (int \<times> 'a process_scheme) outcome" where
  "sys_open filename s =
     (let entry = frame s;
          cur_pcb = current_pcb s;
          (r, m) = read_dentry_by_name (filesys_addr s) filename entry (mem s);
          s = s\<lparr>mem := m\<rparr>
      in if r \<noteq> 0 \<or> file_arr_size (pcbs s cur_pcb) \<ge> MAX_OPEN_FILES then Done (-1, s)
         else
           (let fd = find_fd (file_array (pcbs s cur_pcb)) STDI_O 6
            in if fd \<ge> MAX_OPEN_FILES then Fault
               else
                 (let s = update_fd cur_pcb fd (\<lambda>f. f\<lparr>flags := FD_FLAG_PRESENT\<rparr>) s;
                      s = update_fd cur_pcb fd (fd_setup (load_dentry (mem s) entry)) s;
                      s = update_fd cur_pcb fd (\<lambda>f. f\<lparr>f_pos := 0\<rparr>) s;
                      s = update_pcb cur_pcb (\<lambda>b. b\<lparr>file_arr_size := file_arr_size b + 1\<rparr>) s
                  in case fops_table (fd_of s cur_pcb fd) of
                       None \<Rightarrow> Fault
                     | Some t \<Rightarrow> Done (fd, table_open t filename s))))"

section \<open>getargs\<close>

text \<open>The byte \<open>args[i]\<close> of a block; the index may run past the array.\<close>

definition arg_byte :: "'a process_scheme \<Rightarrow> pcb \<Rightarrow> nat \<Rightarrow> u8" where
  "arg_byte s b i = (if i < MAX_ARGS then args b ! i else past_args s (i - MAX_ARGS))"

partial_function (option) args_length :: "(nat \<Rightarrow> u8) \<Rightarrow> u32 \<Rightarrow> u32 option" where
  "args_length arg character =
     (if arg (unat character) \<noteq> 0 then args_length arg (character + 1) else Some character)"

text \<open>\<open>character > (nbytes - 1)\<close> compares as unsigned. \<open>memcpy\<close> reads the block, which is not
  part of the byte memory of the model. The pointer \<open>buf\<close> is not tested at all; as for \<open>read\<close>, the
  definition describes the code for buffers in the memory of the program.\<close>

definition getargs :: "u32 \<Rightarrow> int \<Rightarrow> 'a process_scheme \<Rightarrow> (int \<times> 'a process_scheme) outcome" where
  "getargs buf nbytes s =
     (let arg = arg_byte s (pcbs s (current_pcb s))
      in case args_length arg 0 of
           None \<Rightarrow> Blocked
         | Some character \<Rightarrow>
             if character > of_int (nbytes - 1) then Done (-1, s)
             else Done (0, s\<lparr>mem := fill_with (mem s) buf (unat (of_int nbytes :: u32)) arg\<rparr>))"

section \<open>vidmap\<close>

text \<open>Which physical page the scheduled terminal prints to: the screen when it is displayed, else
  its own page; both the user's page table and the kernel's \<open>video_mem\<close>. The timer interrupt
  does the same for the next terminal.\<close>

definition map_video :: "int \<Rightarrow> 'a process_scheme \<Rightarrow> 'a process_scheme" where
  "map_video t s =
     (if t = curr_terminal s then
        s\<lparr>pgTbl_vidMem := (pgTbl_vidMem s)(0 := VIDEO OR VID_PAGE), video_mem := VIDEO\<rparr>
      else if t = 1 then
        s\<lparr>pgTbl_vidMem := (pgTbl_vidMem s)(0 := VIDEO1 OR VID_PAGE), video_mem := VIDEO1\<rparr>
      else if t = 2 then
        s\<lparr>pgTbl_vidMem := (pgTbl_vidMem s)(0 := VIDEO2 OR VID_PAGE), video_mem := VIDEO2\<rparr>
      else if t = 3 then
        s\<lparr>pgTbl_vidMem := (pgTbl_vidMem s)(0 := VIDEO3 OR VID_PAGE), video_mem := VIDEO3\<rparr>
      else s)"

definition vidmap :: "u32 \<Rightarrow> 'a process_scheme \<Rightarrow> int \<times> 'a process_scheme" where
  "vidmap screen_start s =
     (let s = cli s
      in if screen_start = 0 \<or> screen_start < PROG_PAGE \<or> screen_start \<ge> USER_VID_ADDR then (-1, s)
         else
           (let s = s\<lparr>pageDirectory := (pageDirectory s)(33 := pgTbl_vidMem_addr s OR VID_PAGE)\<rparr>;
                s = map_video (curr_scheduled s) s;
                s = (if user_vid_mem s = 0 then s\<lparr>user_vid_mem := USER_VID_ADDR\<rparr> else s);
                s = s\<lparr>mem := store32 (mem s) screen_start (user_vid_mem s)\<rparr>
            in (0, sti s)))"

definition set_handler :: "int \<Rightarrow> u32 \<Rightarrow> int" where
  "set_handler signum handler_address = 0"

definition sigreturn :: int where
  "sigreturn = 0"

end
