(* ===== verification/Exec.thy ===== *)
theory Exec
  imports Sys_Calls
begin

text \<open>
  Starting and ending a process: \<open>execute\<close> and \<open>halt\<close> of \<open>student-distrib/sys_calls.c\<close>, with
  \<open>context_switch\<close> and \<open>reverse_system_call\<close> of \<open>assembly_linkage.S\<close>. Both transfer control, so
  their result says where the processor goes on.
\<close>

section \<open>Where control goes\<close>

text \<open>
  \<^item> \<open>Returns\<close>: an ordinary return to the C caller;
  \<^item> \<open>Enters\<close>: \<open>context_switch\<close> has entered user mode at the address;
  \<^item> \<open>Resumes\<close>: \<open>reverse_system_call\<close> leaves the frame that \<open>ebp\<close> points to, with the status in
    \<open>eax\<close>: \<open>execute\<close> returns the status to the parent;
  \<^item> \<open>Stuck\<close>: a loop that does not end; \<open>Crash\<close>: a write outside an array, or a call through an
    unset pointer.
\<close>

datatype 's control = Returns int 's | Enters u32 's | Resumes u8 's | Stuck | Crash

section \<open>execute\<close>

text \<open>The loop that copies the first word of the command; \<open>command[i]\<close> is read before the bound
  is tested.\<close>

function copy_name :: "u32 \<Rightarrow> u32 \<Rightarrow> int \<Rightarrow> mem \<Rightarrow> int \<times> mem" where
  "copy_name command filename i m =
     (if m (command + of_int i) \<noteq> 0 \<and> m (command + of_int i) \<noteq> 32 \<and> i < 32
      then copy_name command filename (i + 1) (m(filename + of_int i := m (command + of_int i)))
      else (i, m))"
  by pat_completeness auto
termination by (relation "measure (\<lambda>(command, filename, i, m). nat (32 - i))") auto

declare copy_name.simps [simp del]

partial_function (option) skip_spaces :: "mem \<Rightarrow> u32 \<Rightarrow> int \<Rightarrow> int option" where
  "skip_spaces m command i =
     (if m (command + of_int i) = 32 then skip_spaces m command (i + 1) else Some i)"

text \<open>The loop that copies the arguments into the block; it has no test of the bound, so an argument
  string of more than 127 bytes is written past the array (\<open>None\<close>).\<close>

function copy_args :: "mem \<Rightarrow> u32 \<Rightarrow> int \<Rightarrow> nat \<Rightarrow> u8 list \<Rightarrow> u8 list option" where
  "copy_args m command i j as =
     (if m (command + of_int i) \<noteq> 0 then
        (if j < MAX_ARGS then copy_args m command (i + 1) (j + 1) (as[j := m (command + of_int i)])
         else None)
      else Some as)"
  by pat_completeness auto
termination by (relation "measure (\<lambda>(m, command, i, j, as). MAX_ARGS - j)") auto

declare copy_args.simps [simp del]

text \<open>The search for a free slot; the result 6 is past the array.\<close>

fun find_slot :: "(int \<Rightarrow> int) \<Rightarrow> int \<Rightarrow> nat \<Rightarrow> int" where
  "find_slot slots i 0 = i"
| "find_slot slots i (Suc n) = (if slots i = 0 then i else find_slot slots (i + 1) n)"

text \<open>The parent of a new process of the displayed terminal.\<close>

definition parent_of_new :: "'a process_scheme \<Rightarrow> u32" where
  "parent_of_new s =
     (if highest_terminal_processes s (curr_terminal s - 1) \<noteq> 0
      then getPCB (highest_terminal_processes s (curr_terminal s - 1)) else 0)"

text \<open>The file array of a new process: \<open>stdin\<close>, \<open>stdout\<close> and six closed entries, of which only the
  flags are written.\<close>

definition std_files :: "(int \<Rightarrow> fd_struct) \<Rightarrow> int \<Rightarrow> fd_struct" where
  "std_files files fd =
     (if fd = 0 then \<lparr>fops_table = Some Stdin_table, inode = -1, f_pos = 0, flags = FD_FLAG_PRESENT\<rparr>
      else if fd = 1 then \<lparr>fops_table = Some Stdout_table, inode = -1, f_pos = 0, flags = FD_FLAG_PRESENT\<rparr>
      else if 2 \<le> fd \<and> fd < MAX_OPEN_FILES then (files fd)\<lparr>flags := 0\<rparr>
      else files fd)"

text \<open>From the comment ``set parent pcb'' on: links, registers, file array, kernel stack, and the
  jump to user mode, which enables interrupts.\<close>

definition start_process :: "int \<Rightarrow> u32 \<Rightarrow> 'a process_scheme \<Rightarrow> 'a process_scheme control" where
  "start_process pcb_index entry_point s =
     (let pcb = getPCB (pcb_index + 1);
          parent = parent_of_new s;
          s = update_pcb pcb (\<lambda>b. b\<lparr>parent_task := parent\<rparr>) s;
          s = s\<lparr>highest_terminal_processes :=
                  (highest_terminal_processes s)(curr_terminal s - 1 := pcb_index + 1)\<rparr>;
          s = update_pcb pcb (\<lambda>b. b\<lparr>process_num := pcb_index + 1, eip := entry_point,
                ebp := reg_ebp s, esp := reg_esp s,
                file_array := std_files (file_array b), file_arr_size := STDI_O\<rparr>) s;
          s = s\<lparr>tss_ss0 := KERNEL_DS\<rparr>;
          s = s\<lparr>tss_esp0 := MB8 - of_int pcb_index * KB8 - 4\<rparr>;
          s = update_pcb pcb (\<lambda>b. b\<lparr>esp0 := tss_esp0 s\<rparr>) s
      in Enters entry_point (sti (cli s)))"

text \<open>Once the file is known to be executable: a slot, the arguments, the program page, the image of
  the program. \<open>i\<close> is the position in the command behind the name.\<close>

definition load_process :: "u32 \<Rightarrow> int \<Rightarrow> dentry \<Rightarrow> 'a process_scheme \<Rightarrow> 'a process_scheme control" where
  "load_process command i temp s =
     (let data = frame s + 32;
          s = s\<lparr>process_count := process_count s + 1\<rparr>;
          s = s\<lparr>process_per_terminal := (process_per_terminal s)
                  (curr_terminal s - 1 := process_per_terminal s (curr_terminal s - 1) + 1)\<rparr>;
          pcb_index = find_slot (pcb_slots s) 0 6
      in if pcb_index \<ge> MAX_PROCESS_COUNT then Crash
         else
           (let s = s\<lparr>pcb_slots := (pcb_slots s)(pcb_index := 1)\<rparr>;
                pcb = getPCB (pcb_index + 1)
            in case skip_spaces (mem s) command i of
                 None \<Rightarrow> Stuck
               | Some i \<Rightarrow>
                   (case copy_args (mem s) command i 0 (args (pcbs s pcb)) of
                      None \<Rightarrow> Crash
                    | Some as \<Rightarrow>
                        (let s = update_pcb pcb (\<lambda>b. b\<lparr>args := as\<rparr>) s;
                             s = s\<lparr>pageDirectory := (pageDirectory s)(32 := user_page pcb_index)\<rparr>;
                             s = sti (flush_tlb (cli s));
                             nbytes = file_size (filesys_addr s) (inode_num temp) (mem s);
                             (n, m) = read_data (filesys_addr s) (of_int (inode_num temp)) 0
                                        PROG_LOAD_ADDR (of_int nbytes) (mem s);
                             s = s\<lparr>mem := m\<rparr>
                         in if n = - 1 then Returns (-1) s
                            else start_process pcb_index (load32 (mem s) (data + 24)) s))))"

text \<open>The local arrays \<open>filename\<close>, \<open>data\<close> and \<open>temp\<close> lie one behind the other from \<open>frame\<close> on.\<close>

definition execute :: "u32 \<Rightarrow> 'a process_scheme \<Rightarrow> 'a process_scheme control" where
  "execute command s =
     (if command = 0 then Returns (-1) s
      else if process_count s \<ge> MAX_PROCESS_COUNT then
        (case printf (str_max s) (reg_esp s) s of None \<Rightarrow> Stuck | Some (_, s) \<Rightarrow> Returns 0 s)
      else
        (let filename = frame s;
             data = frame s + 32;
             temp = frame s + 64;
             m = fill (fill (mem s) filename 32 0) data 32 0;
             (i, m) = copy_name command filename 0 m;
             (r, m) = read_dentry_by_name (filesys_addr s) filename temp m;
             s = s\<lparr>mem := m\<rparr>
         in if r = -1 then Returns (-1) s
            else
              (let entry = load_dentry (mem s) temp;
                   (_, m) = read_data (filesys_addr s) (of_int (inode_num entry)) 0 data 32 (mem s);
                   s = s\<lparr>mem := m\<rparr>
               in if mem s data \<noteq> 0x7F \<or> mem s (data + 1) \<noteq> 69 \<or> mem s (data + 2) \<noteq> 76
                     \<or> mem s (data + 3) \<noteq> 70
                  then Returns (-1) s
                  else load_process command i entry s)))"

section \<open>halt\<close>

text \<open>The loop over the file array. The \<open>close\<close> entries of the tables work on the displayed
  terminal's process, the flags are those of the process that ends.\<close>

fun close_files :: "u32 \<Rightarrow> int list \<Rightarrow> 'a process_scheme \<Rightarrow> 'a process_scheme option" where
  "close_files pcb [] s = Some s"
| "close_files pcb (i # is) s =
     (if flags (fd_of s pcb i) \<noteq> 0 then
        (case fops_table (fd_of s pcb i) of
           None \<Rightarrow> None
         | Some t \<Rightarrow> close_files pcb is
             (update_fd pcb i (\<lambda>f. f\<lparr>flags := 0\<rparr>) (snd (table_close t i s))))
      else close_files pcb is (update_fd pcb i (\<lambda>f. f\<lparr>flags := 0\<rparr>) s))"

text \<open>The end of \<open>halt\<close>: reload CR3, restore the caller's stack and leave its frame.\<close>

definition resume_parent :: "u32 \<Rightarrow> u8 \<Rightarrow> 'a process_scheme \<Rightarrow> 'a process_scheme control" where
  "resume_parent pcb status s =
     (let s = sti (sti (flush_tlb (cli s)))
      in Resumes status (s\<lparr>reg_esp := esp (pcbs s pcb), reg_ebp := ebp (pcbs s pcb)\<rparr>))"

definition halt :: "u8 \<Rightarrow> 'a process_scheme \<Rightarrow> 'a process_scheme control" where
  "halt status s =
     (let s = cli s;
          t = curr_scheduled s - 1;
          s = s\<lparr>process_count := process_count s - 1\<rparr>;
          s = s\<lparr>process_per_terminal := (process_per_terminal s)(t := process_per_terminal s t - 1)\<rparr>;
          pcb = getPCB (highest_terminal_processes s t)
      in case close_files pcb [0, 1, 2, 3, 4, 5, 6, 7] s of
           None \<Rightarrow> Crash
         | Some s \<Rightarrow>
             (let s = update_pcb pcb (\<lambda>b. b\<lparr>args := replicate MAX_ARGS 0\<rparr>) s;
                  s = s\<lparr>pcb_slots := (pcb_slots s)(highest_terminal_processes s t - 1 := 0)\<rparr>;
                  parent = parent_task (pcbs s pcb)
              in if parent \<noteq> 0 then
                   (let s = s\<lparr>pageDirectory := (pageDirectory s)
                               (32 := user_page (process_num (pcbs s parent) - 1))\<rparr>;
                        s = s\<lparr>highest_terminal_processes := (highest_terminal_processes s)
                               (t := process_num (pcbs s parent))\<rparr>;
                        s = s\<lparr>tss_esp0 := esp0 (pcbs s parent)\<rparr>
                    in resume_parent pcb status s)
                 else
                   (let s = s\<lparr>highest_terminal_processes := (highest_terminal_processes s)
                               (curr_terminal s - 1 := 0)\<rparr>;
                        s = update_cursor 0 0 (set_cursors 0 0 (clear s))
                    in case execute (str_shell s) s of
                         Returns r s \<Rightarrow> resume_parent pcb status s
                       | Enters e s \<Rightarrow> Enters e s
                       | Resumes st s \<Rightarrow> Resumes st s
                       | Stuck \<Rightarrow> Stuck
                       | Crash \<Rightarrow> Crash)))"

end
