(* ===== verification/Scheduler.thy ===== *)
theory Scheduler
  imports Exec
begin

text \<open>
  The timer and the scheduler, \<open>student-distrib/scheduler.c\<close>. The handler performs the switch of
  the display that the keyboard asked for, starts a shell on each terminal during the first three
  interrupts, and then gives the processor to the three terminals in turn.
\<close>

section \<open>State\<close>

text \<open>\<open>curr_scheduled\<close> and \<open>switch_flag\<close> are declared with the components that read them.\<close>

record scheduler = process +
  total_terminal :: int
  init_flag :: int

section \<open>The timer interrupt\<close>

definition pit_switch :: "'a keyboard_scheme \<Rightarrow> 'a keyboard_scheme" where
  "pit_switch s =
     (if switch_flag s = 1 then (switch_terminal (curr_terminal s) 1 s)\<lparr>switch_flag := 0\<rparr>
      else if switch_flag s = 2 then (switch_terminal (curr_terminal s) 2 s)\<lparr>switch_flag := 0\<rparr>
      else if switch_flag s = 3 then (switch_terminal (curr_terminal s) 3 s)\<lparr>switch_flag := 0\<rparr>
      else s)"

text \<open>The branch for the first three interrupts, up to the call of \<open>execute\<close>.\<close>

definition pit_new_terminal :: "int \<Rightarrow> 'a scheduler_scheme \<Rightarrow> 'a scheduler_scheme" where
  "pit_new_terminal next_scheduled s =
     (let s = s\<lparr>total_terminal := total_terminal s + 1\<rparr>;
          s = (if total_terminal s - 1 \<noteq> 0
               then switch_terminal (total_terminal s - 1) (total_terminal s) s else s);
          s = set_cursors 0 0 (update_cursor 0 0 s)
      in if total_terminal s \<noteq> 1 then
           (let pcb_curr = getPCB (highest_terminal_processes s (curr_scheduled s - 1));
                s = update_pcb pcb_curr (\<lambda>b. b\<lparr>esp0 := tss_esp0 s\<rparr>) s;
                s = update_pcb pcb_curr (\<lambda>b. b\<lparr>ebp_scheduler := reg_ebp s\<rparr>) s
            in s\<lparr>curr_scheduled := next_scheduled\<rparr>)
         else s)"

text \<open>The branch once all three shells run: program page, CR3, task state, kernel stack.\<close>

definition pit_schedule :: "int \<Rightarrow> 'a scheduler_scheme \<Rightarrow> 'a scheduler_scheme" where
  "pit_schedule next_scheduled s =
     (let s = s\<lparr>pageDirectory := (pageDirectory s)
                (32 := user_page (highest_terminal_processes s (next_scheduled - 1) - 1))\<rparr>;
          s = flush_tlb s;
          pcb_curr = getPCB (highest_terminal_processes s (curr_scheduled s - 1));
          s = update_pcb pcb_curr (\<lambda>b. b\<lparr>esp0 := tss_esp0 s\<rparr>) s;
          pcb_next = getPCB (highest_terminal_processes s (next_scheduled - 1));
          s = s\<lparr>tss_esp0 := esp0 (pcbs s pcb_next)\<rparr>;
          s = s\<lparr>curr_scheduled := next_scheduled\<rparr>;
          s = update_pcb pcb_curr (\<lambda>b. b\<lparr>ebp_scheduler := reg_ebp s\<rparr>) s
      in s\<lparr>reg_ebp := ebp_scheduler (pcbs s pcb_next)\<rparr>)"

definition pit_handler :: "'a scheduler_scheme \<Rightarrow> 'a scheduler_scheme control" where
  "pit_handler s =
     (let s = send_eoi 0 s;
          s = pit_switch s;
          next_scheduled = curr_scheduled s smod 3 + 1;
          s = map_video next_scheduled s
      in if total_terminal s < 3 then
           (case execute (str_shell s) (pit_new_terminal next_scheduled s) of
              Returns r s \<Rightarrow> Returns 0 s
            | Enters e s \<Rightarrow> Enters e s
            | Resumes st s \<Rightarrow> Resumes st s
            | Stuck \<Rightarrow> Stuck
            | Crash \<Rightarrow> Crash)
         else if total_terminal s = 3 then
           (let s = switch_terminal (total_terminal s) 1 s;
                s = s\<lparr>total_terminal := total_terminal s + 1\<rparr>;
                s = s\<lparr>curr_scheduled := 3\<rparr>
            in Returns 0 (s\<lparr>init_flag := 1\<rparr>))
         else Returns 0 (pit_schedule next_scheduled s))"

section \<open>The timer\<close>

text \<open>\<open>out_val\<close> is an \<open>int16_t\<close>; its two bytes are sent low byte first.\<close>

definition pit_init :: "'a pic_scheme \<Rightarrow> 'a pic_scheme" where
  "pit_init s =
     (let s = enable_irq 0 s;
          out_val = (of_int (1193182 sdiv 20) :: u16);
          out_highB = (ucast (drop_bit 8 (out_val AND 0xFF00)) :: u8);
          out_lowB = (ucast (out_val AND 0xFF) :: u8);
          s = outb 0x36 0x43 s;
          s = outb out_lowB 0x40 s
      in outb out_highB 0x40 s)"

end
