(* ===== verification/Printf_Laws.thy ===== *)
theory Printf_Laws
  imports Printf
begin

text \<open>
  What printing leaves alone: a locale for the invariants of a routine that prints a character
  and of writes to the memory. It gives that \<open>printf\<close> and \<open>printf2\<close> keep every such invariant,
  hence all of the state behind the console.
\<close>

section \<open>Invariants of printing\<close>

locale printing =
  fixes put :: "u8 \<Rightarrow> 'a console_scheme \<Rightarrow> 'a console_scheme"
    and inv :: "'a console_scheme \<Rightarrow> bool"
  assumes inv_put: "inv s \<Longrightarrow> inv (put c s)"
    and inv_mem: "inv s \<Longrightarrow> inv (s\<lparr>mem := m\<rparr>)"
begin

lemma puts_loop_inv:
  assumes "puts_loop put str i s = Some r" "inv s"
  shows "inv (snd r)"
proof -
  have "put = put \<longrightarrow> inv s \<longrightarrow> inv (snd r)"
  proof (rule puts_loop.raw_induct [where P = "\<lambda>p str i s r. p = put \<longrightarrow> inv s \<longrightarrow> inv (snd r)", OF _ assms(1)])
    fix loop p str i s r
    assume IH: "\<And>p str i s r. loop p str i s = Some r \<Longrightarrow> p = put \<longrightarrow> inv s \<longrightarrow> inv (snd r)"
      and step: "(if mem s (str + i) \<noteq> 0 then loop p str (i + 1) (p (mem s (str + i)) s)
        else Some (i, s)) = Some r"
    show "p = put \<longrightarrow> inv s \<longrightarrow> inv (snd r)"
      using step IH [of p str "i + 1" "p (mem s (str + i)) s" r] inv_put by (auto split: if_splits)
  qed
  with assms(2) show ?thesis by simp
qed

lemma puts_with_inv: "puts_with put str s = Some s' \<Longrightarrow> inv s \<Longrightarrow> inv s'"
  using puts_loop_inv [of str 0 s] by (auto simp: puts_with_def split: option.splits)

lemma conversions_inv:
  "print_hex put alternate v s = Some s' \<Longrightarrow> inv s \<Longrightarrow> inv s'"
  "print_unsigned put v s = Some s' \<Longrightarrow> inv s \<Longrightarrow> inv s'"
  "print_signed put v s = Some s' \<Longrightarrow> inv s \<Longrightarrow> inv s'"
  by (auto simp: print_hex_def print_unsigned_def print_signed_def Let_def
      split: option.splits if_splits dest!: puts_with_inv intro: inv_mem)

lemma format_char_inv:
  assumes "format_char put alternate buf sp s = Some r" "inv s"
  shows "inv (snd (snd r))"
proof -
  have "put = put \<longrightarrow> inv s \<longrightarrow> inv (snd (snd r))"
  proof (rule format_char.raw_induct
      [where P = "\<lambda>p alternate buf sp s r. p = put \<longrightarrow> inv s \<longrightarrow> inv (snd (snd r))", OF _ assms(1)])
    fix p alternate buf sp s r
      and rec :: "(u8 \<Rightarrow> 'a console_scheme \<Rightarrow> 'a console_scheme) \<Rightarrow> bool \<Rightarrow> u32 \<Rightarrow> u32 \<Rightarrow> 'a console_scheme
        \<Rightarrow> (u32 \<times> u32 \<times> 'a console_scheme) option"
    assume IH: "\<And>p alternate buf sp s r. rec p alternate buf sp s = Some r \<Longrightarrow>
        p = put \<longrightarrow> inv s \<longrightarrow> inv (snd (snd r))"
    show "p = put \<longrightarrow> inv s \<longrightarrow> inv (snd (snd r))" if step: "(if mem s buf = 37 then Some (buf, sp, p 37 s)
      else if mem s buf = 35 then rec p True (buf + 1) sp s
      else if mem s buf = 120 then
        (case print_hex p alternate (load32 (mem s) sp) s of None \<Rightarrow> None
         | Some s \<Rightarrow> Some (buf, sp + 4, s))
      else if mem s buf = 117 then
        (case print_unsigned p (load32 (mem s) sp) s of None \<Rightarrow> None
         | Some s \<Rightarrow> Some (buf, sp + 4, s))
      else if mem s buf = 100 then
        (case print_signed p (load32 (mem s) sp) s of None \<Rightarrow> None
         | Some s \<Rightarrow> Some (buf, sp + 4, s))
      else if mem s buf = 99 then Some (buf, sp + 4, p (ucast (load32 (mem s) sp)) s)
      else if mem s buf = 115 then
        (case puts_with p (load32 (mem s) sp) s of None \<Rightarrow> None
         | Some s \<Rightarrow> Some (buf, sp + 4, s))
      else Some (buf, sp, s)) = Some r"
      using step IH [of p True "buf + 1" sp s r]
      by (auto split: if_splits option.splits dest!: conversions_inv puts_with_inv intro: inv_put)
  qed
  with assms(2) show ?thesis by simp
qed

lemma printf_loop_inv:
  assumes "printf_loop put buf sp s = Some r" "inv s"
  shows "inv (snd r)"
proof -
  have "put = put \<longrightarrow> inv s \<longrightarrow> inv (snd r)"
  proof (rule printf_loop.raw_induct
      [where P = "\<lambda>p buf sp s r. p = put \<longrightarrow> inv s \<longrightarrow> inv (snd r)", OF _ assms(1)])
    fix p buf sp s r
      and rec :: "(u8 \<Rightarrow> 'a console_scheme \<Rightarrow> 'a console_scheme) \<Rightarrow> u32 \<Rightarrow> u32 \<Rightarrow> 'a console_scheme
        \<Rightarrow> (u32 \<times> 'a console_scheme) option"
    assume IH: "\<And>p buf sp s r. rec p buf sp s = Some r \<Longrightarrow> p = put \<longrightarrow> inv s \<longrightarrow> inv (snd r)"
    show "p = put \<longrightarrow> inv s \<longrightarrow> inv (snd r)" if "(if mem s buf \<noteq> 0 then
        (if mem s buf = 37 then
           (case format_char p False (buf + 1) sp s of None \<Rightarrow> None
            | Some (buf, esp, s) \<Rightarrow> rec p (buf + 1) esp s)
         else rec p (buf + 1) sp (p (mem s buf) s))
      else Some (buf, s)) = Some r"
      using that inv_put
      by (auto split: if_splits option.splits dest!: IH format_char_inv)
  qed
  with assms(2) show ?thesis by simp
qed

lemma printf_with_inv: "printf_with put fmt sp s = Some (n, s') \<Longrightarrow> inv s \<Longrightarrow> inv s'"
  using printf_loop_inv [of fmt sp s] by (auto simp: printf_with_def split: option.splits)

end

text \<open>Both routines print without touching the state behind the console, nor the terminals that
  are displayed and scheduled.\<close>

lemma put_frame [simp]:
  "console.more (putc c s) = console.more s" "console.more (putc2 c s) = console.more s"
  "curr_terminal (putc c s) = curr_terminal s" "curr_terminal (putc2 c s) = curr_terminal s"
  "curr_scheduled (putc c s) = curr_scheduled s" "curr_scheduled (putc2 c s) = curr_scheduled s"
  by (simp_all add: putc_def putc2_def put_glyph_def scroll_def Let_def update_cursor_def outb_def)

interpretation pf: printing putc
    "\<lambda>s. console.more s = r \<and> curr_terminal s = d \<and> curr_scheduled s = t" for r d t
  by unfold_locales simp_all

interpretation pf2: printing putc2
    "\<lambda>s. console.more s = r \<and> curr_terminal s = d \<and> curr_scheduled s = t" for r d t
  by unfold_locales simp_all

lemma printf_frame:
  assumes "printf fmt sp s = Some (n, s')"
  shows "console.more s' = console.more s" "curr_terminal s' = curr_terminal s"
    "curr_scheduled s' = curr_scheduled s"
  using pf.printf_with_inv [of fmt sp s n s' "console.more s" "curr_terminal s" "curr_scheduled s"] assms
  by (simp_all add: printf_def)

lemma printf2_frame:
  assumes "printf2 fmt sp s = Some (n, s')"
  shows "console.more s' = console.more s" "curr_terminal s' = curr_terminal s"
    "curr_scheduled s' = curr_scheduled s"
  using pf2.printf_with_inv [of fmt sp s n s' "console.more s" "curr_terminal s" "curr_scheduled s"] assms
  by (simp_all add: printf2_def)

end
