(* ===== verification/Process_Laws.thy ===== *)
theory Process_Laws
  imports Exec Printf_Laws
begin

text \<open>
  The process table seen abstractly: every terminal has a stack of process numbers, the youngest
  first. \<open>proc_view\<close> relates the table to the stacks; starting a process pushes a free number
  on the stack of the displayed terminal, ending one pops the stack of the scheduled terminal.
\<close>

section \<open>The addresses of the blocks\<close>

lemma getPCB_values:
  "getPCB 1 = 0x7FE000" "getPCB 2 = 0x7FC000" "getPCB 3 = 0x7FA000"
  "getPCB 4 = 0x7F8000" "getPCB 5 = 0x7F6000" "getPCB 6 = 0x7F4000"
  by (simp_all add: getPCB_def)

lemma process_numbers: "(1 \<le> p \<and> p \<le> (6 :: int)) = (p \<in> {1, 2, 3, 4, 5, 6})"
  by auto

lemma getPCB_inject:
  assumes "1 \<le> p" "p \<le> 6" "1 \<le> q" "q \<le> 6"
  shows "(getPCB p = getPCB q) = (p = q)"
proof -
  have "p \<in> {1, 2, 3, 4, 5, 6}" "q \<in> {1, 2, 3, 4, 5, 6}" using assms by auto
  then show ?thesis by (auto simp: getPCB_values)
qed

lemma getPCB_nonzero: "1 \<le> p \<Longrightarrow> p \<le> 6 \<Longrightarrow> getPCB p \<noteq> 0"
proof -
  assume "1 \<le> p" "p \<le> 6"
  then have "p \<in> {1, 2, 3, 4, 5, 6}" by auto
  then show ?thesis by (auto simp: getPCB_values)
qed

lemma user_page_values:
  "user_page 0 = 0x800087" "user_page 1 = 0xC00087" "user_page 2 = 0x1000087"
  "user_page 3 = 0x1400087" "user_page 4 = 0x1800087" "user_page 5 = 0x1C00087"
  by (simp_all add: user_page_def)

lemma user_page_inject:
  assumes "1 \<le> p" "p \<le> 6" "1 \<le> q" "q \<le> 6"
  shows "(user_page (p - 1) = user_page (q - 1)) = (p = q)"
proof -
  have "p \<in> {1, 2, 3, 4, 5, 6}" "q \<in> {1, 2, 3, 4, 5, 6}" using assms by auto
  then show ?thesis by (auto simp: user_page_values)
qed

section \<open>The stacks of processes\<close>

definition youngest :: "int list \<Rightarrow> int" where
  "youngest ps = (case ps of [] \<Rightarrow> 0 | p # _ \<Rightarrow> p)"

definition link :: "int list \<Rightarrow> u32" where
  "link ps = (case ps of [] \<Rightarrow> 0 | p # _ \<Rightarrow> getPCB p)"

lemma youngest_link_simps [simp]:
  "youngest [] = 0" "youngest (p # ps) = p" "link [] = 0" "link (p # ps) = getPCB p"
  by (simp_all add: youngest_def link_def)

text \<open>The blocks of the processes of a stack are linked from the youngest to the oldest.\<close>

fun stack_ok :: "(u32 \<Rightarrow> pcb) \<Rightarrow> int list \<Rightarrow> bool" where
  "stack_ok b [] = True"
| "stack_ok b (p # ps) = (1 \<le> p \<and> p \<le> 6 \<and> process_num (b (getPCB p)) = p
     \<and> parent_task (b (getPCB p)) = link ps \<and> stack_ok b ps)"

definition all_procs :: "(int \<Rightarrow> int list) \<Rightarrow> int list" where
  "all_procs st = st 0 @ st 1 @ st 2"

definition proc_view :: "'a process_scheme \<Rightarrow> (int \<Rightarrow> int list) \<Rightarrow> bool" where
  "proc_view s st \<longleftrightarrow>
     list_all (\<lambda>t. stack_ok (pcbs s) (st t) \<and> highest_terminal_processes s t = youngest (st t)) [0, 1, 2]
     \<and> distinct (all_procs st)
     \<and> list_all (\<lambda>p. pcb_slots s (p - 1) = (if p \<in> set (all_procs st) then 1 else 0)) [1, 2, 3, 4, 5, 6]
     \<and> process_count s = int (length (all_procs st))"

lemma stack_ok_range: "stack_ok b ps \<Longrightarrow> p \<in> set ps \<Longrightarrow> 1 \<le> p \<and> p \<le> 6"
  by (induction ps) auto

lemma stack_ok_cong:
  "(\<And>p. p \<in> set ps \<Longrightarrow> process_num (b' (getPCB p)) = process_num (b (getPCB p))
      \<and> parent_task (b' (getPCB p)) = parent_task (b (getPCB p)))
    \<Longrightarrow> stack_ok b' ps = stack_ok b ps"
  by (induction ps) auto

lemma stack_ok_upd_other:
  assumes "1 \<le> q" "q \<le> 6" "q \<notin> set ps" "stack_ok b ps"
  shows "stack_ok (b(getPCB q := x)) ps"
proof -
  have "getPCB p \<noteq> getPCB q" if "p \<in> set ps" for p
    using getPCB_inject [of p q] stack_ok_range [OF assms(4) that] assms that by auto
  then show ?thesis using assms(4) by (subst stack_ok_cong [of ps _ b]) auto
qed

lemma proc_viewI:
  assumes "\<And>t. t \<in> {0, 1, 2} \<Longrightarrow> stack_ok (pcbs s) (st t) \<and> highest_terminal_processes s t = youngest (st t)"
    and "distinct (all_procs st)"
    and "\<And>p. p \<in> {1, 2, 3, 4, 5, 6} \<Longrightarrow> pcb_slots s (p - 1) = (if p \<in> set (all_procs st) then 1 else 0)"
    and "process_count s = int (length (all_procs st))"
  shows "proc_view s st"
proof -
  have "list_all (\<lambda>t. stack_ok (pcbs s) (st t) \<and> highest_terminal_processes s t = youngest (st t)) [0, 1, 2]"
    unfolding list_all_iff using assms(1) by auto
  moreover have "list_all (\<lambda>p. pcb_slots s (p - 1) = (if p \<in> set (all_procs st) then 1 else 0)) [1, 2, 3, 4, 5, 6]"
    unfolding list_all_iff
  proof
    fix p :: int
    assume "p \<in> set [1, 2, 3, 4, 5, 6]"
    then have "p \<in> {1, 2, 3, 4, 5, 6}" by simp
    then show "pcb_slots s (p - 1) = (if p \<in> set (all_procs st) then 1 else 0)" by (rule assms(3))
  qed
  ultimately show ?thesis unfolding proc_view_def using assms(2,4) by blast
qed

lemma proc_view_youngest:
  "proc_view s st \<Longrightarrow> t \<in> {0, 1, 2} \<Longrightarrow> highest_terminal_processes s t = youngest (st t)"
  by (auto simp: proc_view_def)

lemma proc_view_stack: "proc_view s st \<Longrightarrow> t \<in> {0, 1, 2} \<Longrightarrow> stack_ok (pcbs s) (st t)"
  by (auto simp: proc_view_def)

lemma proc_view_range: "proc_view s st \<Longrightarrow> p \<in> set (all_procs st) \<Longrightarrow> 1 \<le> p \<and> p \<le> 6"
  by (auto simp: proc_view_def all_procs_def dest: stack_ok_range)

lemma proc_view_slot:
  assumes "proc_view s st" "1 \<le> p" "p \<le> 6"
  shows "pcb_slots s (p - 1) = (if p \<in> set (all_procs st) then 1 else 0)"
proof -
  have "p \<in> {1, 2, 3, 4, 5, 6}" using assms(2,3) by auto
  then show ?thesis using assms(1) unfolding proc_view_def by (auto simp del: One_nat_def)
qed

text \<open>The view depends on the fields of the table alone.\<close>

lemma proc_view_cong:
  assumes "\<And>p. p \<in> set (all_procs st) \<Longrightarrow>
      process_num (pcbs s' (getPCB p)) = process_num (pcbs s (getPCB p))
      \<and> parent_task (pcbs s' (getPCB p)) = parent_task (pcbs s (getPCB p))"
    and "highest_terminal_processes s' = highest_terminal_processes s"
    and "pcb_slots s' = pcb_slots s" and "process_count s' = process_count s"
  shows "proc_view s' st = proc_view s st"
proof -
  have "stack_ok (pcbs s') (st t) = stack_ok (pcbs s) (st t)" if "t \<in> {0, 1, 2}" for t
    using that assms(1) by (intro stack_ok_cong) (auto simp: all_procs_def)
  then show ?thesis using assms(2-4) by (simp add: proc_view_def)
qed

section \<open>Push and pop\<close>

definition push :: "int \<Rightarrow> int \<Rightarrow> (int \<Rightarrow> int list) \<Rightarrow> (int \<Rightarrow> int list)" where
  "push t p st = st(t := p # st t)"

definition pop :: "int \<Rightarrow> (int \<Rightarrow> int list) \<Rightarrow> (int \<Rightarrow> int list)" where
  "pop t st = st(t := tl (st t))"

lemma set_push: "t \<in> {0, 1, 2} \<Longrightarrow> set (all_procs (push t p st)) = insert p (set (all_procs st))"
  by (auto simp: push_def all_procs_def)

lemma distinct_push:
  "t \<in> {0, 1, 2} \<Longrightarrow> p \<notin> set (all_procs st) \<Longrightarrow> distinct (all_procs st) \<Longrightarrow>
   distinct (all_procs (push t p st)) \<and> length (all_procs (push t p st)) = Suc (length (all_procs st))"
  by (auto simp: push_def all_procs_def)

lemma proc_view_push:
  assumes view: "proc_view s st" and t: "t \<in> {0, 1, 2}" and p: "1 \<le> p" "p \<le> 6"
    and fresh: "p \<notin> set (all_procs st)"
    and pcbs: "pcbs s' = (pcbs s)(getPCB p := b)" "process_num b = p" "parent_task b = link (st t)"
    and "highest_terminal_processes s' = (highest_terminal_processes s)(t := p)"
    and "pcb_slots s' = (pcb_slots s)(p - 1 := 1)" and "process_count s' = process_count s + 1"
  shows "proc_view s' (push t p st)"
proof -
  have old: "stack_ok (pcbs s') (st u)" if "u \<in> {0, 1, 2}" for u
    unfolding pcbs(1) using that fresh proc_view_stack [OF view that]
    by (intro stack_ok_upd_other [OF p]) (auto simp: all_procs_def)
  have "stack_ok (pcbs s') (push t p st u) \<and> highest_terminal_processes s' u = youngest (push t p st u)"
    if "u \<in> {0, 1, 2}" for u
  proof (cases "u = t")
    case True
    then show ?thesis using old [OF t] p pcbs assms(9) by (simp add: push_def)
  next
    case False
    then show ?thesis using old [OF that] proc_view_youngest [OF view that] assms(9)
      by (simp add: push_def)
  qed
  moreover have "pcb_slots s' (q - 1) = (if q \<in> set (all_procs (push t p st)) then 1 else 0)"
    if "q \<in> {1, 2, 3, 4, 5, 6}" for q
  proof -
    have "1 \<le> q" "q \<le> 6" using that by auto
    then show ?thesis using proc_view_slot [OF view, of q] assms(10) by (simp add: set_push [OF t])
  qed
  moreover have "distinct (all_procs st)" "process_count s = int (length (all_procs st))"
    using view by (simp_all add: proc_view_def)
  ultimately show ?thesis
    using distinct_push [OF t fresh] assms(11) by (intro proc_viewI) simp_all
qed

lemma set_pop:
  "t \<in> {0, 1, 2} \<Longrightarrow> distinct (all_procs st) \<Longrightarrow> st t = p # ps \<Longrightarrow>
   set (all_procs (pop t st)) = set (all_procs st) - {p}
   \<and> distinct (all_procs (pop t st)) \<and> length (all_procs st) = Suc (length (all_procs (pop t st)))"
proof -
  assume "t \<in> {0, 1, 2}" and d: "distinct (all_procs st)" and st: "st t = p # ps"
  then consider "t = 0" | "t = 1" | "t = 2" by blast
  then show ?thesis
  proof cases
    case 1
    then show ?thesis using d st by (auto simp: pop_def all_procs_def)
  next
    case 2
    then show ?thesis using d st by (auto simp: pop_def all_procs_def)
  next
    case 3
    then show ?thesis using d st by (auto simp: pop_def all_procs_def)
  qed
qed

lemma proc_view_pop:
  assumes view: "proc_view s st" and t: "t \<in> {0, 1, 2}" and st: "st t = p # ps"
    and pcbs: "\<And>q. q \<in> set (all_procs st) \<Longrightarrow>
      process_num (pcbs s' (getPCB q)) = process_num (pcbs s (getPCB q))
      \<and> parent_task (pcbs s' (getPCB q)) = parent_task (pcbs s (getPCB q))"
    and "highest_terminal_processes s' = (highest_terminal_processes s)(t := youngest ps)"
    and "pcb_slots s' = (pcb_slots s)(p - 1 := 0)" and "process_count s' = process_count s - 1"
  shows "proc_view s' (pop t st)"
proof -
  have d: "distinct (all_procs st)" using view by (simp add: proc_view_def)
  note pop = set_pop [OF t d st]
  have p: "1 \<le> p \<and> p \<le> 6" using proc_view_range [OF view, of p] st t by (auto simp: all_procs_def)
  have old: "stack_ok (pcbs s') (st u)" if "u \<in> {0, 1, 2}" for u
    using that proc_view_stack [OF view that] pcbs
    by (subst stack_ok_cong [of _ _ "pcbs s"]) (auto simp: all_procs_def)
  have "stack_ok (pcbs s') (pop t st u) \<and> highest_terminal_processes s' u = youngest (pop t st u)"
    if "u \<in> {0, 1, 2}" for u
  proof (cases "u = t")
    case True
    then show ?thesis using old [OF t] st assms(5) by (simp add: pop_def)
  next
    case False
    then show ?thesis using old [OF that] proc_view_youngest [OF view that] assms(5)
      by (simp add: pop_def)
  qed
  moreover have "pcb_slots s' (q - 1) = (if q \<in> set (all_procs (pop t st)) then 1 else 0)"
    if "q \<in> {1, 2, 3, 4, 5, 6}" for q
  proof -
    have "1 \<le> q" "q \<le> 6" using that by auto
    then show ?thesis using proc_view_slot [OF view, of q] assms(6) pop by simp
  qed
  moreover have "process_count s = int (length (all_procs st))"
    using view by (simp add: proc_view_def)
  ultimately show ?thesis
    using pop assms(7) by (intro proc_viewI) simp_all
qed

section \<open>Finding a free slot\<close>

lemma takeWhile_holds: "j < length (takeWhile P xs) \<Longrightarrow> P (xs ! j)"
  by (metis nth_mem set_takeWhileD takeWhile_nth)

lemma find_slot_spec:
  "find_slot slots i n = i + int (length (takeWhile (\<lambda>k. slots (i + int k) \<noteq> 0) [0..<n]))"
proof (induction slots i n rule: find_slot.induct)
  case (2 slots i n)
  have "[0..<Suc n] = 0 # map Suc [0..<n]" by (simp add: map_Suc_upt upt_conv_Cons)
  then show ?case using 2 by (simp add: takeWhile_map o_def add.assoc)
qed simp

lemma find_slot_free:
  assumes "0 \<le> k" "k < int n" "slots (i + k) = 0"
  shows "find_slot slots i n - i \<le> k" "slots (find_slot slots i n) = 0"
    "\<And>j. i \<le> j \<Longrightarrow> j < find_slot slots i n \<Longrightarrow> slots j \<noteq> 0"
proof -
  let ?P = "\<lambda>k. slots (i + int k) \<noteq> 0"
  let ?l = "length (takeWhile ?P [0..<n])"
  have k: "nat k < n" "\<not> ?P (nat k)" using assms by simp_all
  have le: "?l \<le> nat k"
  proof (rule ccontr)
    assume "\<not> ?l \<le> nat k"
    then have "?P ([0..<n] ! nat k)" by (intro takeWhile_holds [of _ ?P]) simp
    with k show False by simp
  qed
  then show "find_slot slots i n - i \<le> k" using assms(1) by (simp add: find_slot_spec) 
  have "?l < length [0..<n]" using le k by simp
  from nth_length_takeWhile [OF this] show "slots (find_slot slots i n) = 0"
    using le k by (simp add: find_slot_spec)
  fix j
  assume j: "i \<le> j" "j < find_slot slots i n"
  then have "nat (j - i) < ?l" by (simp add: find_slot_spec)
  then have "?P ([0..<n] ! nat (j - i))" by (rule takeWhile_holds)
  moreover have "nat (j - i) < n" using \<open>nat (j - i) < ?l\<close> le k(1) by simp
  ultimately show "slots j \<noteq> 0" using j by simp
qed

text \<open>With fewer than six processes there is a free number, and the search finds the least one.\<close>

lemma free_slot:
  assumes view: "proc_view s st" and "process_count s < 6"
  shows "0 \<le> find_slot (pcb_slots s) 0 6" "find_slot (pcb_slots s) 0 6 < 6"
    "find_slot (pcb_slots s) 0 6 + 1 \<notin> set (all_procs st)"
    "\<And>q. 1 \<le> q \<Longrightarrow> q \<le> find_slot (pcb_slots s) 0 6 \<Longrightarrow> q \<in> set (all_procs st)"
proof -
  have "card (set (all_procs st)) = length (all_procs st)"
    using view by (intro distinct_card) (simp add: proc_view_def)
  also have "\<dots> < 6" using assms by (simp add: proc_view_def)
  finally have "\<not> {1..6} \<subseteq> set (all_procs st)"
    using card_mono [of "set (all_procs st)" "{1..6::int}"] by auto
  then obtain p where p: "1 \<le> p" "p \<le> 6" "p \<notin> set (all_procs st)"
    by (metis atLeastAtMost_iff subsetI)
  then have slot: "pcb_slots s (0 + (p - 1)) = 0" using proc_view_slot [OF view] by simp
  let ?k = "find_slot (pcb_slots s) 0 6"
  note f = find_slot_free [of "p - 1" 6 "pcb_slots s" 0, OF _ _ slot]
  show k0: "0 \<le> ?k" by (simp add: find_slot_spec)
  show k6: "?k < 6" using f(1) p by simp
  show "?k + 1 \<notin> set (all_procs st)"
    using proc_view_slot [OF view, of "?k + 1"] k0 k6 f(2) p by (simp split: if_splits)
  show "q \<in> set (all_procs st)" if "1 \<le> q" "q \<le> ?k" for q
    using proc_view_slot [OF view, of q] that k6 f(3) [of "q - 1"] p by (simp split: if_splits)
qed

section \<open>What the steps change\<close>

lemma flush_tlb_simps [simp]:
  "pcbs (flush_tlb s) = pcbs s" "pcb_slots (flush_tlb s) = pcb_slots s"
  "process_count (flush_tlb s) = process_count s"
  "highest_terminal_processes (flush_tlb s) = highest_terminal_processes s"
  "process_per_terminal (flush_tlb s) = process_per_terminal s"
  "pageDirectory (flush_tlb s) = pageDirectory s" "user_pde (flush_tlb s) = pageDirectory s 32"
  "curr_terminal (flush_tlb s) = curr_terminal s" "curr_scheduled (flush_tlb s) = curr_scheduled s"
  "tss_esp0 (flush_tlb s) = tss_esp0 s" "tss_ss0 (flush_tlb s) = tss_ss0 s"
  "reg_esp (flush_tlb s) = reg_esp s" "reg_ebp (flush_tlb s) = reg_ebp s"
  "filesys_addr (flush_tlb s) = filesys_addr s" "video_mem (flush_tlb s) = video_mem s"
  "pgTbl_vidMem (flush_tlb s) = pgTbl_vidMem s" "frame (flush_tlb s) = frame s"
  "str_shell (flush_tlb s) = str_shell s" "intr (flush_tlb s) = intr s"
  by (simp_all add: flush_tlb_def Let_def)

lemma flush_tlb_same_pde: "pageDirectory s 32 = user_pde s \<Longrightarrow> flush_tlb s = s"
  by (simp add: flush_tlb_def)

lemma cli_sti_more [simp]:
  "cli s = s\<lparr>intr := False\<rparr>" "sti s = s\<lparr>intr := True\<rparr>"
  by (simp_all add: cli_def sti_def)

text \<open>The new process, when \<open>load_process\<close> enters user mode.\<close>

lemma load_process_enters:
  fixes s :: "'a process_scheme"
  defines "k \<equiv> find_slot (pcb_slots s) 0 6"
  assumes "load_process command i temp s = Enters e s'"
  obtains b where "k < 6" and "pcbs s' = (pcbs s)(getPCB (k + 1) := b)"
    and "process_num b = k + 1" and "parent_task b = parent_of_new s"
    and "esp b = reg_esp s" and "ebp b = reg_ebp s" and "eip b = e" and "esp0 b = tss_esp0 s'"
    and "file_arr_size b = 2" and "file_array b = std_files (file_array (pcbs s (getPCB (k + 1))))"
    and "highest_terminal_processes s' = (highest_terminal_processes s)(curr_terminal s - 1 := k + 1)"
    and "pcb_slots s' = (pcb_slots s)(k := 1)" and "process_count s' = process_count s + 1"
    and "pageDirectory s' = (pageDirectory s)(32 := user_page k)" and "user_pde s' = user_page k"
    and "tss_esp0 s' = MB8 - of_int k * KB8 - 4" and "curr_terminal s' = curr_terminal s"
    and "curr_scheduled s' = curr_scheduled s"
  using assms(2) that
  unfolding load_process_def start_process_def Let_def k_def
  by (auto simp: update_pcb_def parent_of_new_def fun_upd_upd split: if_splits option.splits prod.splits)

lemma load_process_returns:
  assumes "load_process command i temp s = Returns r s'"
  shows "r = -1"
  using assms unfolding load_process_def start_process_def Let_def
  by (auto split: if_splits option.splits prod.splits)

section \<open>execute\<close>

text \<open>Up to the search for a slot, \<open>execute\<close> changes the memory only.\<close>

lemma execute_enters:
  assumes "execute command s = Enters e s'"
  obtains i temp m where "command \<noteq> 0" and "process_count s < 6"
    and "load_process command i temp (s\<lparr>mem := m\<rparr>) = Enters e s'"
  using assms by (auto simp: execute_def Let_def split: if_splits option.splits prod.splits)

lemma process_of_more:
  assumes "console.more s' = console.more s"
  shows "process_count s' = process_count s" "pcb_slots s' = pcb_slots s"
    "highest_terminal_processes s' = highest_terminal_processes s" "pcbs s' = pcbs s"
    "process_per_terminal s' = process_per_terminal s" "user_pde s' = user_pde s"
    "pageDirectory s' = pageDirectory s" "tss_esp0 s' = tss_esp0 s"
  using assms by (cases s; cases s'; simp)+

lemma execute_returns:
  assumes "execute command s = Returns r s'"
  shows "(console.more s' = console.more s \<and> (r = -1 \<or> r = 0 \<and> process_count s \<ge> 6))
    \<or> (r = -1 \<and> process_count s < 6 \<and> (\<exists>i temp m. load_process command i temp (s\<lparr>mem := m\<rparr>) = Returns r s'))"
  using assms load_process_returns [of command _ _ _ r s']
  by (auto simp: execute_def Let_def printf_frame split: if_splits option.splits prod.splits)

lemma parent_of_view:
  assumes "proc_view s st" "curr_terminal s \<in> {1, 2, 3}"
  shows "parent_of_new s = link (st (curr_terminal s - 1))"
proof -
  have t: "curr_terminal s - 1 \<in> {0, 1, 2}" using assms(2) by auto
  show ?thesis
  proof (cases "st (curr_terminal s - 1)")
    case Nil
    then show ?thesis using proc_view_youngest [OF assms(1) t] by (simp add: parent_of_new_def)
  next
    case (Cons p ps)
    then have "p \<in> set (all_procs st)" using t by (auto simp: all_procs_def)
    then have "p \<noteq> 0" using proc_view_range [OF assms(1), of p] by auto
    then show ?thesis using proc_view_youngest [OF assms(1) t] Cons by (simp add: parent_of_new_def)
  qed
qed

text \<open>What \<open>execute\<close> leaves when it enters the new process: its number is the least free one, and
  its stack in the table is that of the displayed terminal.\<close>

lemma execute_pushes:
  assumes view: "proc_view s st" and t: "curr_terminal s \<in> {1, 2, 3}"
    and enters: "execute command s = Enters e s'"
  obtains p where "1 \<le> p" "p \<le> 6" "p \<notin> set (all_procs st)"
    "\<And>q. 1 \<le> q \<Longrightarrow> q < p \<Longrightarrow> q \<in> set (all_procs st)"
    and "proc_view s' (push (curr_terminal s - 1) p st)"
    and "user_pde s' = user_page (p - 1)" "tss_esp0 s' = getPCB p + 8188"
    and "esp (pcbs s' (getPCB p)) = reg_esp s" "ebp (pcbs s' (getPCB p)) = reg_ebp s"
    and "eip (pcbs s' (getPCB p)) = e" "esp0 (pcbs s' (getPCB p)) = tss_esp0 s'"
    and "curr_terminal s' = curr_terminal s" "curr_scheduled s' = curr_scheduled s"
    and "pageDirectory s' 32 = user_page (p - 1)"
    and "\<And>q. q \<in> set (all_procs st) \<Longrightarrow> pcbs s' (getPCB q) = pcbs s (getPCB q)"
proof -
  obtain i temp m where free: "process_count s < 6"
    and load: "load_process command i temp (s\<lparr>mem := m\<rparr>) = Enters e s'"
    by (rule execute_enters [OF enters])
  let ?k = "find_slot (pcb_slots s) 0 6"
  have t0: "curr_terminal s - 1 \<in> {0, 1, 2}" using t by auto
  note slot = free_slot [OF view free]
  obtain b where b: "pcbs s' = (pcbs s)(getPCB (?k + 1) := b)"
    "process_num b = ?k + 1" "parent_task b = parent_of_new s" "esp b = reg_esp s"
    "ebp b = reg_ebp s" "eip b = e" "esp0 b = tss_esp0 s'"
    and s': "highest_terminal_processes s'
        = (highest_terminal_processes s)(curr_terminal s - 1 := ?k + 1)"
      "pcb_slots s' = (pcb_slots s)(?k := 1)" "process_count s' = process_count s + 1"
      "pageDirectory s' = (pageDirectory s)(32 := user_page ?k)" "user_pde s' = user_page ?k"
      "tss_esp0 s' = MB8 - of_int ?k * KB8 - 4" "curr_terminal s' = curr_terminal s"
      "curr_scheduled s' = curr_scheduled s"
    by (rule load_process_enters [OF load]) (rule that, simp_all add: parent_of_new_def)
  show ?thesis
  proof (rule that [of "?k + 1"])
    show "1 \<le> ?k + 1" "?k + 1 \<le> 6" using slot(1,2) by linarith+
    show "?k + 1 \<notin> set (all_procs st)" by (rule slot(3))
    show "q \<in> set (all_procs st)" if "1 \<le> q" "q < ?k + 1" for q using slot(4) that by simp
    show "proc_view s' (push (curr_terminal s - 1) (?k + 1) st)"
      using view t0 slot(1-3) b(1-3) s'(1-3) parent_of_view [OF view t]
      by (intro proc_view_push [where s = s and b = b]) simp_all
    show "user_pde s' = user_page (?k + 1 - 1)" "pageDirectory s' 32 = user_page (?k + 1 - 1)"
      using s'(4,5) by simp_all
    show "tss_esp0 s' = getPCB (?k + 1) + 8188" using s'(6) by (simp add: getPCB_def algebra_simps)
    show "esp (pcbs s' (getPCB (?k + 1))) = reg_esp s" "ebp (pcbs s' (getPCB (?k + 1))) = reg_ebp s"
      "eip (pcbs s' (getPCB (?k + 1))) = e" "esp0 (pcbs s' (getPCB (?k + 1))) = tss_esp0 s'"
      using b by simp_all
    show "curr_terminal s' = curr_terminal s" "curr_scheduled s' = curr_scheduled s" using s'(7,8) .
    show "pcbs s' (getPCB q) = pcbs s (getPCB q)" if "q \<in> set (all_procs st)" for q
      using getPCB_inject [of q "?k + 1"] proc_view_range [OF view that] slot(1-3) that b(1) by auto
  qed
qed

end
