(* ===== verification/Exec_Laws.thy ===== *)
theory Exec_Laws
  imports Process_Laws Filesys_Laws
begin

text \<open>
  What \<open>execute\<close> does to the memory: the name and the arguments are cut out of the command, the
  file of that name is looked up and its magic number checked, and its bytes are loaded to the
  program page, where execution starts at the address in bytes 24 to 27.
\<close>

section \<open>The command\<close>

text \<open>At most 32 characters up to a space are the name; the arguments follow the spaces.\<close>

definition command_name :: "u8 list \<Rightarrow> u8 list" where
  "command_name cmd = take 32 (takeWhile (\<lambda>c. c \<noteq> 32) cmd)"

definition command_spaces :: "u8 list \<Rightarrow> nat" where
  "command_spaces cmd = length (takeWhile (\<lambda>c. c = 32) (drop (length (command_name cmd)) cmd))"

definition command_args :: "u8 list \<Rightarrow> u8 list" where
  "command_args cmd = drop (length (command_name cmd) + command_spaces cmd) cmd"

lemma command_name_props:
  shows "length (command_name cmd) \<le> 32" "length (command_name cmd) \<le> length cmd"
    "j < length (command_name cmd) \<Longrightarrow> command_name cmd ! j = cmd ! j \<and> cmd ! j \<noteq> 32"
    "length (command_name cmd) < 32 \<Longrightarrow> length (command_name cmd) < length cmd \<Longrightarrow>
      cmd ! length (command_name cmd) = 32"
proof -
  let ?w = "takeWhile (\<lambda>c. c \<noteq> 32) cmd"
  show "length (command_name cmd) \<le> 32" by (simp add: command_name_def)
  show "length (command_name cmd) \<le> length cmd"
    using length_takeWhile_le [of "\<lambda>c. c \<noteq> 32" cmd] by (simp add: command_name_def min_def)
  show "command_name cmd ! j = cmd ! j \<and> cmd ! j \<noteq> 32" if "j < length (command_name cmd)"
    using that takeWhile_holds [of j "\<lambda>c. c \<noteq> 32" cmd] takeWhile_nth [of j "\<lambda>c. c \<noteq> 32" cmd]
    by (simp add: command_name_def)
  show "cmd ! length (command_name cmd) = 32"
    if "length (command_name cmd) < 32" "length (command_name cmd) < length cmd"
    using that nth_length_takeWhile [of "\<lambda>c. c \<noteq> 32" cmd] by (simp add: command_name_def min_def split: if_splits)
qed

lemma takeWhile_padded: "0 \<notin> set w \<Longrightarrow> takeWhile (\<lambda>b. b \<noteq> 0) (w @ replicate n 0) = w"
  by (subst takeWhile_append2) (auto simp: takeWhile_replicate)

text \<open>A string that occupies memory apart from the local arrays.\<close>

lemma copy_name_from:
  assumes w: "length w \<le> 32" "\<And>j. j < length w \<Longrightarrow> w ! j \<noteq> 0 \<and> w ! j \<noteq> 32"
    and apart: "\<And>j k. j \<le> length w \<Longrightarrow> k < 32 \<Longrightarrow> command + of_nat j \<noteq> filename + of_nat k"
  shows "i \<le> length w \<Longrightarrow> (\<And>j. i \<le> j \<Longrightarrow> j < length w \<Longrightarrow> m (command + of_nat j) = w ! j) \<Longrightarrow>
    length w = 32 \<or> m (command + of_nat (length w)) \<in> {0, 32} \<Longrightarrow>
    copy_name command filename (int i) m
      = (int (length w), fill_with m (filename + of_nat i) (length w - i) (\<lambda>j. w ! (i + j)))"
proof (induction "length w - i" arbitrary: i m)
  case 0
  then have "i = length w" by simp
  with 0 w(1) show ?case by (subst copy_name.simps) auto
next
  case (Suc d)
  then have lt: "i < length w" by simp
  have c: "m (command + of_nat i) = w ! i" using Suc.prems(2) lt by simp
  have go: "w ! i \<noteq> 0 \<and> w ! i \<noteq> 32 \<and> int i < 32" using w lt by simp
  let ?m = "m(filename + of_nat i := w ! i)"
  have keep: "?m (command + of_nat j) = m (command + of_nat j)" if "j \<le> length w" for j
    using apart [OF that, of i] lt w(1) by simp
  have "copy_name command filename (int i) m = copy_name command filename (int i + 1) ?m"
    using c go by (subst copy_name.simps) (simp del: fun_upd_apply)
  also have "int i + 1 = int (Suc i)" by simp
  also have "copy_name command filename (int (Suc i)) ?m
      = (int (length w), fill_with ?m (filename + of_nat (Suc i)) (length w - Suc i) (\<lambda>j. w ! (Suc i + j)))"
  proof (rule Suc.hyps(1))
    show "d = length w - Suc i" "Suc i \<le> length w" using Suc.hyps(2) lt by simp_all
    show "?m (command + of_nat j) = w ! j" if "Suc i \<le> j" "j < length w" for j
      using keep [of j] Suc.prems(2) [of j] that by simp
    show "length w = 32 \<or> ?m (command + of_nat (length w)) \<in> {0, 32}"
      using keep [of "length w"] Suc.prems(3) by simp
  qed
  also have "fill_with ?m (filename + of_nat (Suc i)) (length w - Suc i) (\<lambda>j. w ! (Suc i + j))
      = fill_with m (filename + of_nat i) (length w - i) (\<lambda>j. w ! (i + j))"
    using fill_with_Suc [of "length w - Suc i" m "filename + of_nat i" "\<lambda>j. w ! (i + j)"] lt w(1)
    by (simp add: Suc_diff_Suc algebra_simps)
  finally show ?case .
qed

lemma skip_spaces_run:
  "(\<And>j. j < k \<Longrightarrow> m (command + of_nat (i + j)) = 32) \<Longrightarrow> m (command + of_nat (i + k)) \<noteq> 32 \<Longrightarrow>
   skip_spaces m command (int i) = Some (int (i + k))"
proof (induction k arbitrary: i)
  case 0
  then show ?case by (subst skip_spaces.simps) simp
next
  case (Suc k)
  have "skip_spaces m command (int i) = skip_spaces m command (int (Suc i))"
    using Suc.prems(1) [of 0] by (subst skip_spaces.simps) (simp add: add.commute)
  also have "\<dots> = Some (int (Suc i + k))"
    using Suc.prems(1) [of "Suc j" for j] Suc.prems(2) by (intro Suc.IH) simp_all
  finally show ?case by simp
qed

lemma copy_args_run:
  "(\<And>j. j < length xs \<Longrightarrow> m (command + of_nat (i + j)) = xs ! j \<and> xs ! j \<noteq> 0) \<Longrightarrow>
   m (command + of_nat (i + length xs)) = 0 \<Longrightarrow> k + length xs \<le> MAX_ARGS \<Longrightarrow> MAX_ARGS \<le> length as \<Longrightarrow>
   copy_args m command (int i) k as = Some (take k as @ xs @ drop (k + length xs) as)"
proof (induction xs arbitrary: i k as)
  case Nil
  then show ?case by (subst copy_args.simps) simp
next
  case (Cons x xs)
  have x: "m (command + of_nat i) = x" "x \<noteq> 0" using Cons.prems(1) [of 0] by simp_all
  have "copy_args m command (int i) k as = copy_args m command (int (Suc i)) (Suc k) (as[k := x])"
    using x Cons.prems(3) by (subst copy_args.simps) (simp add: add.commute)
  also have "\<dots> = Some (take (Suc k) (as[k := x]) @ xs @ drop (Suc k + length xs) (as[k := x]))"
    using Cons.prems(1) [of "Suc j" for j] Cons.prems(2-4) by (intro Cons.IH) simp_all
  also have "take (Suc k) (as[k := x]) = take k as @ [x]"
    using Cons.prems(3,4) by (simp add: take_Suc_conv_app_nth)
  finally show ?case by simp
qed

section \<open>Where things lie\<close>

text \<open>The local arrays of \<open>execute\<close> take 128 bytes of the kernel stack. They, the file system image
  and the program window are apart.\<close>

definition exec_layout :: "'a process_scheme \<Rightarrow> nat \<Rightarrow> bool" where
  "exec_layout s sz \<longleftrightarrow> filesys_addr s mod 0x1000 = 0 \<and> sz \<le> 4294967296
     \<and> disjoint_regions (frame s) 128 (filesys_addr s) sz
     \<and> disjoint_regions PROG_PAGE 0x400000 (filesys_addr s) sz
     \<and> disjoint_regions PROG_PAGE 0x400000 (frame s) 128
     \<and> frame s \<noteq> 0 \<and> frame s + 64 \<noteq> 0"

text \<open>A command string apart from the local arrays.\<close>

definition command_at :: "'a process_scheme \<Rightarrow> u32 \<Rightarrow> u8 list \<Rightarrow> bool" where
  "command_at s command cmd \<longleftrightarrow> command \<noteq> 0 \<and> str_at (mem s) command cmd
     \<and> length cmd < 4294967296
     \<and> disjoint_regions command (Suc (length cmd)) (frame s) 128"

lemma in_region_part:
  assumes "in_region a (f + of_nat k) n" "k + n \<le> N" "N \<le> 4294967296"
  shows "in_region a f N"
proof -
  obtain i where i: "i < n" "a = f + of_nat k + of_nat i" by (rule in_regionE [OF assms(1)])
  then have "a = f + of_nat (k + i)" by simp
  then show ?thesis using i(1) assms(2,3) in_region_add [of "k + i" N f] by simp
qed

definition same_outside :: "u32 \<Rightarrow> nat \<Rightarrow> mem \<Rightarrow> mem \<Rightarrow> bool" where
  "same_outside f n m m' \<longleftrightarrow> (\<forall>a. \<not> in_region a f n \<longrightarrow> m' a = m a)"

lemma same_outside_trans [trans]:
  "same_outside f n m m' \<Longrightarrow> same_outside f n m' m'' \<Longrightarrow> same_outside f n m m''"
  by (simp add: same_outside_def)

lemma same_outside_part:
  assumes "k + n \<le> N" "N \<le> 4294967296"
  shows "same_outside f N m (fill m (f + of_nat k) n v)" "same_outside f N m (copy m (f + of_nat k) s n)"
    "same_outside f N m (fill_with m (f + of_nat k) n g)"
  using in_region_part [OF _ assms, of _ f]
  by (auto simp: same_outside_def fill_def copy_def fill_with_def)

lemma same_outside_image:
  "same_outside f n m m' \<Longrightarrow> disjoint_regions f n fs sz \<Longrightarrow> same_image fs sz m m'"
  using disjoint_regions_not_in [of f n fs sz] by (auto simp: same_outside_def same_image_def)

lemma same_outside_nth:
  assumes "same_outside f n m m'" "disjoint_regions c k f n" "i < k" "k \<le> 4294967296"
  shows "m' (c + of_nat i) = m (c + of_nat i)"
  using assms disjoint_regions_not_in [OF assms(2) in_region_add [OF assms(3,4)]]
  by (simp add: same_outside_def)

text \<open>The memory in which \<open>execute\<close> looks the name up: the first array holds the name.\<close>

lemma execute_name:
  assumes "command_at s command cmd"
  defines "m0 \<equiv> fill (fill (mem s) (frame s) 32 0) (frame s + 32) 32 0"
  obtains m where "copy_name command (frame s) 0 m0 = (int (length (command_name cmd)), m)"
    and "str_prefix m (frame s) 32 = command_name cmd" and "same_outside (frame s) 128 (mem s) m"
    and "\<And>i. i < 32 \<Longrightarrow> m (frame s + 32 + of_nat i) = 0"
proof -
  let ?w = "command_name cmd" and ?f = "frame s"
  let ?m = "fill_with m0 ?f (length ?w) (\<lambda>j. ?w ! j)"
  note w = command_name_props [where cmd = cmd]
  have str: "str_at (mem s) command cmd" and len: "Suc (length cmd) \<le> 4294967296"
    and dis: "disjoint_regions command (Suc (length cmd)) ?f 128"
    using assms(1) by (simp_all add: command_at_def)
  have out0: "same_outside ?f 128 (mem s) m0"
  proof -
    have "same_outside ?f 128 (mem s) (fill (mem s) (?f + of_nat 0) 32 0)" by (rule same_outside_part) simp_all
    moreover have "same_outside ?f 128 (fill (mem s) ?f 32 0) (fill (fill (mem s) ?f 32 0) (?f + of_nat 32) 32 0)"
      by (rule same_outside_part) simp_all
    ultimately show ?thesis unfolding m0_def by (auto intro: same_outside_trans)
  qed
  have cmd: "m0 (command + of_nat j) = (cmd @ [0]) ! j" if "j \<le> length cmd" for j
    using same_outside_nth [OF out0 dis, of j] str_at_nth [OF str, of j] str_at_end [OF str] that len
    by (auto simp: nth_append)
  have apart: "command + of_nat j \<noteq> ?f + of_nat k" if "j \<le> length ?w" "k < 32" for j k
  proof -
    have "in_region (command + of_nat j) command (Suc (length cmd))"
      using that(1) w(2) len by (intro in_region_add) simp_all
    moreover have "in_region (?f + of_nat k) ?f 128" using that(2) by (intro in_region_add) simp_all
    ultimately show ?thesis using disjoint_regions_not_in [OF dis] by auto
  qed
  have nz: "?w ! j \<noteq> 0 \<and> ?w ! j \<noteq> 32" if "j < length ?w" for j
    using w(3) [OF that] str_at_nz [OF str, of j] str_at_nth [OF str, of j] that w(2) by simp
  have run: "copy_name command ?f (int 0) m0 = (int (length ?w), fill_with m0 (?f + of_nat 0) (length ?w - 0) (\<lambda>j. ?w ! (0 + j)))"
  proof (rule copy_name_from [OF w(1) nz apart])
    show "m0 (command + of_nat j) = ?w ! j" if "j < length ?w" for j
      using cmd [of j] w(2) w(3) [OF that] that by (simp add: nth_append)
    show "length ?w = 32 \<or> m0 (command + of_nat (length ?w)) \<in> {0, 32}"
      using cmd [of "length ?w"] w(1,2) w(4) by (cases "length ?w < length cmd") (auto simp: nth_append)
  qed simp_all
  have byte: "?m (?f + of_nat i) = (if i < length ?w then ?w ! i else 0)" if "i < 32" for i
  proof -
    have "\<not> in_region (?f + of_nat i) (?f + 32) 32"
    proof -
      have "disjoint_regions ?f 32 (?f + 32) 32" by (simp add: disjoint_regions_def)
      then show ?thesis by (rule disjoint_regions_not_in) (simp add: in_region_add that)
    qed
    moreover have "in_region (?f + of_nat i) ?f 32" using that by (simp add: in_region_add)
    ultimately show ?thesis using that
      by (simp add: fill_with_def m0_def fill_def in_region_def unat_of_nat_small)
  qed
  have "bytes ?m ?f 32 = ?w @ replicate (32 - length ?w) 0"
    using byte w(1) by (simp add: list_eq_iff_nth_eq nth_bytes nth_append)
  then have "str_prefix ?m ?f 32 = ?w"
    by (simp only: str_prefix_def) (rule takeWhile_padded, use nz in \<open>auto simp: in_set_conv_nth\<close>)
  moreover have "same_outside ?f 128 m0 (fill_with m0 (?f + of_nat 0) (length ?w) (\<lambda>j. ?w ! j))"
    using w(1) by (intro same_outside_part) simp_all
  moreover have "?m (?f + 32 + of_nat i) = 0" if "i < 32" for i
  proof -
    have "disjoint_regions (?f + 32) 32 ?f 32" by (simp add: disjoint_regions_def)
    then have "\<not> in_region (?f + 32 + of_nat i) ?f 32"
      by (rule disjoint_regions_not_in) (simp add: in_region_add that)
    moreover have "in_region (?f + 32 + of_nat i) (?f + 32) 32" using that by (intro in_region_add) simp_all
    ultimately show ?thesis using w(1) by (simp add: fill_with_def m0_def fill_def in_region_def)
  qed
  ultimately show ?thesis using that [of ?m] run same_outside_trans [OF out0] by simp
qed

section \<open>The file\<close>

text \<open>The file system as a finite map from names to entries, and the contents of a file.\<close>

definition find_file :: "mem \<Rightarrow> u32 \<Rightarrow> u8 list \<Rightarrow> dentry option" where
  "find_file m fs name =
     (case List.find (\<lambda>i. entry_name m fs i = name) [0..<nat (load_int m fs)] of None \<Rightarrow> None
      | Some i \<Rightarrow> Some (load_dentry m (entry_addr fs i)))"

definition contents :: "mem \<Rightarrow> u32 \<Rightarrow> u32 \<Rightarrow> u8 list" where
  "contents m fs ino = file_bytes m fs ino 0 (file_length m fs ino)"

definition is_elf :: "u8 list \<Rightarrow> bool" where
  "is_elf bs \<longleftrightarrow> take 4 bs = [0x7F, 69, 76, 70]"

text \<open>The directory, and the file in its entirety, lie in the image.\<close>

definition directory_ok :: "'a process_scheme \<Rightarrow> nat \<Rightarrow> bool" where
  "directory_ok s sz \<longleftrightarrow> 0 \<le> load_int (mem s) (filesys_addr s)
     \<and> entries_in_image (filesys_addr s) sz (nat (load_int (mem s) (filesys_addr s)))"

definition whole_file :: "'a process_scheme \<Rightarrow> nat \<Rightarrow> u32 \<Rightarrow> bool" where
  "whole_file s sz ino \<longleftrightarrow> in_image (filesys_addr s) sz (inode_addr (filesys_addr s) ino)
     \<and> file_in_image (mem s) (filesys_addr s) sz ino (file_length (mem s) (filesys_addr s) ino)"

lemma length_contents [simp]: "length (contents m fs ino) = file_length m fs ino"
  by (simp add: contents_def file_bytes_def)

lemma file_in_image_mono: "file_in_image m fs sz ino n \<Longrightarrow> k \<le> n \<Longrightarrow> file_in_image m fs sz ino k"
  by (simp add: file_in_image_def list_all_iff)

lemma same_image_name:
  assumes "same_image fs sz m m'" "entries_in_image fs sz n" "i < n" "sz \<le> 4294967296"
  shows "entry_name m' fs i = entry_name m fs i"
    "load_dentry m' (entry_addr fs i) = load_dentry m (entry_addr fs i)"
proof -
  have at: "m' (entry_addr fs i + of_nat k) = m (entry_addr fs i + of_nat k)" if "k < 64" for k
    using assms(1) entry_in_image [OF assms(2,3) that assms(4)] by (simp add: same_image_def)
  show "entry_name m' fs i = entry_name m fs i"
    unfolding entry_name_def using at by (intro str_prefix_cong) simp
  have b: "bytes m' (entry_addr fs i + of_nat k) n = bytes m (entry_addr fs i + of_nat k) n"
    if "k + n \<le> 64" for k n
    using at [of "k + j" for j] that by (intro bytes_cong) (simp add: add.assoc)
  have "load32 m' (entry_addr fs i + of_nat k) = load32 m (entry_addr fs i + of_nat k)" if "k + 4 \<le> 64" for k
    using at [of k] at [of "k + 1"] at [of "k + 2"] at [of "k + 3"] that
    by (intro load32_cong) (simp_all add: ac_simps)
  from this [of 32] this [of 36] b [of 0 32] b [of 40 24]
  show "load_dentry m' (entry_addr fs i) = load_dentry m (entry_addr fs i)"
    by (simp add: load_dentry_def load_int_def)
qed

lemma same_image_contents:
  assumes "same_image fs sz m m'" "in_image fs sz (inode_addr fs ino)" "sz \<le> 4294967296"
    "file_in_image m fs sz ino (file_length m fs ino)"
  shows "file_length m' fs ino = file_length m fs ino" "contents m' fs ino = contents m fs ino"
proof -
  show "file_length m' fs ino = file_length m fs ino"
    using same_image_load [OF assms(1,2,3)] by (simp add: file_length_def)
  then show "contents m' fs ino = contents m fs ino"
    using same_image_data [OF assms(1,4)] by (simp add: contents_def file_bytes_def)
qed

lemma find_file_same:
  assumes "same_image fs sz m m'" "entries_in_image fs sz (nat (load_int m fs))" "sz \<le> 4294967296"
  shows "find_file m' fs name = find_file m fs name"
proof -
  have count: "load_int m' fs = load_int m fs"
    using same_image_load [OF assms(1) _ assms(3), of fs] assms(2)
    by (simp add: entries_in_image_def load_int_def)
  have "List.find (\<lambda>i. entry_name m' fs i = name) [0..<nat (load_int m fs)]
      = List.find (\<lambda>i. entry_name m fs i = name) [0..<nat (load_int m fs)]"
    using same_image_name(1) [OF assms(1,2) _ assms(3)] by (intro find_cong) auto
  then show ?thesis
  proof (cases "List.find (\<lambda>i. entry_name m fs i = name) [0..<nat (load_int m fs)]")
    case None
    then show ?thesis using \<open>List.find _ _ = List.find _ _\<close> by (simp add: find_file_def count)
  next
    case (Some i)
    then have "i < nat (load_int m fs)" by (auto simp: find_Some_iff)
    then show ?thesis
      using same_image_name(2) [OF assms(1,2) _ assms(3)] Some \<open>List.find _ _ = List.find _ _\<close>
      by (simp add: find_file_def count)
  qed
qed

text \<open>The lookup, in terms of \<open>find_file\<close>.\<close>

lemma read_dentry_by_name_file:
  assumes "fname \<noteq> 0" "temp \<noteq> 0" "0 \<le> load_int m fs" "entries_in_image fs sz (nat (load_int m fs))"
    and "sz \<le> 4294967296" "disjoint_regions temp 64 fs sz"
  shows "case find_file m fs (str_prefix m fname 32) of
      None \<Rightarrow> read_dentry_by_name fs fname temp m = (- 1, m)
    | Some entry \<Rightarrow> \<exists>q. read_dentry_by_name fs fname temp m = (0, copy m temp q 64)
        \<and> load_dentry (copy m temp q 64) temp = entry"
proof -
  let ?n = "nat (load_int m fs)"
  have n: "load_int m fs = int ?n" using assms(3) by simp
  have apart: "unat (temp - entry_addr fs i) \<ge> 64" if "i < ?n" for i
  proof (rule ccontr)
    assume "\<not> 64 \<le> unat (temp - entry_addr fs i)"
    then have "in_region (entry_addr fs i + of_nat (unat (temp - entry_addr fs i))) fs sz"
      by (intro entry_in_image [OF assms(4) that _ assms(5)]) simp
    then have "in_region temp fs sz" by (simp only: offset_eq)
    moreover have "in_region temp temp 64" by (simp add: in_region_def)
    ultimately show False using disjoint_regions_not_in [OF assms(6)] by blast
  qed
  show ?thesis
  proof (cases "List.find (\<lambda>i. entry_name m fs i = str_prefix m fname 32) [0..<?n]")
    case None
    then show ?thesis using read_dentry_by_name_first [OF assms(1,2) n] by (simp add: find_file_def)
  next
    case (Some i)
    then have i: "i < ?n" by (auto simp: find_Some_iff)
    have "memcpy m temp (entry_addr fs i) 64 = copy m temp (entry_addr fs i) 64"
      using apart [OF i] memcpy_eq_copy [of 64 temp "entry_addr fs i" m] by simp
    then have "read_dentry_by_name fs fname temp m = (0, copy m temp (entry_addr fs i) 64)"
      using read_dentry_by_name_first [OF assms(1,2) n] Some by simp
    then show ?thesis using Some by (auto simp: find_file_def load_dentry_copy)
  qed
qed

section \<open>Finding and checking the program\<close>

lemma unat_neg_u32: "x \<noteq> 0 \<Longrightarrow> unat (- x) = 4294967296 - unat (x :: u32)"
proof -
  assume "x \<noteq> 0"
  then have "0 < unat x" by (simp add: unat_gt_0)
  have le: "unat x \<le> 4294967295" using unat_u32_bound [of x] by linarith
  have "unat (- 1 - x) = unat (- 1 :: u32) - unat x" using le by (intro unat_sub) (simp add: word_le_nat_alt)
  then have d: "unat (- 1 - x) = 4294967295 - unat x" by simp
  have "- x = - 1 - x + 1" by simp
  then have "unat (- x) = (unat (- 1 - x) + 1) mod 4294967296" by (simp only: unat_word_ariths) simp
  with d \<open>0 < unat x\<close> le show ?thesis by simp
qed

lemma disjoint_regions_part:
  assumes "disjoint_regions a N b k" "j + n \<le> N" "0 < n" "N \<le> 4294967296"
  shows "disjoint_regions (a + of_nat j) n b k"
proof -
  have d: "N \<le> unat (b - a)" "k \<le> unat (a - b)" using assms(1) by (simp_all add: disjoint_regions_def)
  have u: "unat (of_nat j :: u32) = j" using assms(2,3,4) by (intro unat_of_nat_small) linarith
  have "b - (a + of_nat j) = (b - a) - of_nat j" by simp
  then have 1: "unat (b - (a + of_nat j)) = unat (b - a) - j"
    using d(1) assms(2) u by (metis le_trans le_add1 unat_sub word_le_nat_alt)
  have ne: "b - a \<noteq> 0" using d(1) assms(2,3) by auto
  have "unat (a - b) = 4294967296 - unat (b - a)"
  proof -
    have "a - b = - (b - a)" by simp
    then show ?thesis using unat_neg_u32 [OF ne] by (simp only:)
  qed
  moreover have "unat (b - a) > j" using d(1) assms(2,3) by linarith
  ultimately have "unat (a - b) + j < 4294967296" using unat_u32_bound [of "b - a"] by linarith
  moreover have "a + of_nat j - b = (a - b) + of_nat j" by simp
  ultimately have "unat (a + of_nat j - b) = unat (a - b) + j" using u
    by (simp only: unat_word_ariths) simp
  with 1 d assms(2) show ?thesis by (simp add: disjoint_regions_def)
qed

lemma read_header:
  assumes layout: "exec_layout s sz" and whole: "whole_file s sz ino"
    and m: "same_outside (frame s) 128 (mem s) m" "\<And>i. i < 32 \<Longrightarrow> m (frame s + 32 + of_nat i) = 0"
  obtains n m' where "read_data (filesys_addr s) ino 0 (frame s + 32) 32 m = (n, m')"
    and "same_outside (frame s) 128 (mem s) m'"
    and "\<And>i. i < 32 \<Longrightarrow> m' (frame s + 32 + of_nat i)
      = (contents (mem s) (filesys_addr s) ino @ replicate 32 0) ! i"
    and "\<And>a. \<not> in_region a (frame s + 32) 32 \<Longrightarrow> m' a = m a"
proof -
  let ?fs = "filesys_addr s" and ?d = "frame s + 32"
  let ?l = "file_length (mem s) ?fs ino"
  let ?n = "min ?l 32"
  have lay: "?fs mod 0x1000 = 0" "sz \<le> 4294967296" "disjoint_regions (frame s) 128 ?fs sz"
    using layout by (simp_all add: exec_layout_def)
  have img: "in_image ?fs sz (inode_addr ?fs ino)" "file_in_image (mem s) ?fs sz ino ?l"
    using whole by (simp_all add: whole_file_def)
  have same: "same_image ?fs sz (mem s) m" by (rule same_outside_image [OF m(1) lay(3)])
  have len: "file_length m ?fs ino = ?l" by (rule same_image_contents(1) [OF same img(1) lay(2) img(2)])
  have in_m: "file_in_image m ?fs sz ino ?l" by (rule same_image_file_in_image [OF same img(2)])
  have in32: "file_in_image m ?fs sz ino ?n" by (rule file_in_image_mono [OF in_m]) simp
  have buf: "\<not> in_region (?d + of_nat i) ?fs sz" if "i < ?n" for i
  proof -
    have "in_region (frame s + of_nat (32 + i)) (frame s) 128" using that by (intro in_region_add) simp_all
    then show ?thesis using disjoint_regions_not_in [OF lay(3)] by (simp add: add.assoc)
  qed
  let ?m = "fill_with m ?d ?n (\<lambda>i. m (data_addr m ?fs ino i))"
  have run: "read_data ?fs ino 0 ?d 32 m = (of_nat ?n, ?m)"
    using read_data_copies [OF lay(1), where offset = 0 and inode = ino and len = 32 and m = m and sz = sz and buf = ?d]
      in32 buf by (simp add: len)
  have out: "same_outside (frame s) 128 m ?m"
    using same_outside_part(3) [of 32 ?n 128 "frame s" m] by simp
  show ?thesis
  proof (rule that [OF run])
    show "same_outside (frame s) 128 (mem s) ?m" by (rule same_outside_trans [OF m(1) out])
    show "?m a = m a" if "\<not> in_region a ?d 32" for a
      using that by (auto simp: fill_with_def in_region_def)
    show "?m (?d + of_nat i) = (contents (mem s) ?fs ino @ replicate 32 0) ! i" if "i < 32" for i
    proof (cases "i < ?l")
      case True
      then show ?thesis using that same_image_data [OF same img(2), of i]
        by (simp add: fill_with_def in_region_def unat_of_nat_small nth_append contents_def file_bytes_def)
    next
      case False
      then show ?thesis using that m(2) [OF that]
        by (simp add: fill_with_def in_region_def unat_of_nat_small nth_append)
    qed
  qed
qed

lemma elf_magic:
  fixes m :: mem
  assumes "\<And>i. i < 32 \<Longrightarrow> m (d + of_nat i) = (bs @ replicate 32 0) ! i"
  shows "(m d \<noteq> 0x7F \<or> m (d + 1) \<noteq> 69 \<or> m (d + 2) \<noteq> 76 \<or> m (d + 3) \<noteq> 70) = (\<not> is_elf bs)"
proof -
  have "bytes m d 4 = take 4 (bs @ replicate 32 0)"
  proof (rule nth_equalityI)
    show "length (bytes m d 4) = length (take 4 (bs @ replicate 32 0))" by simp
    show "bytes m d 4 ! i = take 4 (bs @ replicate 32 0) ! i" if "i < length (bytes m d 4)" for i
      using that assms [of i] by (simp add: nth_bytes del: take_append)
  qed
  moreover have "(take 4 (bs @ replicate 32 0) = [0x7F, 69, 76, 70]) = is_elf bs"
  proof (cases "length bs < 4")
    case True
    then have "take 4 (bs @ replicate 32 0) ! 3 = 0" "length (take 4 bs) \<noteq> 4"
      by (simp_all add: nth_append)
    then show ?thesis by (auto simp: is_elf_def)
  next
    case False
    then show ?thesis by (simp add: is_elf_def)
  qed
  ultimately show ?thesis by (auto simp: bytes_4)
qed

text \<open>The lookup in a memory that differs from the initial one in the local arrays.\<close>

lemma lookup_after:
  assumes "exec_layout s sz" "directory_ok s sz" "same_outside (frame s) 128 (mem s) m"
  shows "str_prefix m (frame s) 32 = name \<Longrightarrow> case find_file (mem s) (filesys_addr s) name of
      None \<Rightarrow> read_dentry_by_name (filesys_addr s) (frame s) (frame s + 64) m = (- 1, m)
    | Some entry \<Rightarrow> \<exists>q. read_dentry_by_name (filesys_addr s) (frame s) (frame s + 64) m
          = (0, copy m (frame s + 64) q 64)
        \<and> load_dentry (copy m (frame s + 64) q 64) (frame s + 64) = entry"
proof -
  let ?fs = "filesys_addr s"
  have lay: "sz \<le> 4294967296" "disjoint_regions (frame s) 128 ?fs sz" "frame s \<noteq> 0" "frame s + 64 \<noteq> 0"
    using assms(1) by (simp_all add: exec_layout_def)
  have img: "0 \<le> load_int (mem s) ?fs" "entries_in_image ?fs sz (nat (load_int (mem s) ?fs))"
    using assms(2) by (simp_all add: directory_ok_def)
  have same: "same_image ?fs sz (mem s) m" by (rule same_outside_image [OF assms(3) lay(2)])
  have "load_int m ?fs = load_int (mem s) ?fs"
    using same_image_load [OF same _ lay(1), of ?fs] img(2) by (simp add: entries_in_image_def load_int_def)
  then show "str_prefix m (frame s) 32 = name \<Longrightarrow> ?thesis"
    using read_dentry_by_name_file [OF lay(3,4), of m ?fs sz] find_file_same [OF same img(2) lay(1)]
      disjoint_regions_part [OF lay(2), of 64 64] img lay(1) by simp
qed

lemma execute_found:
  assumes layout: "exec_layout s sz" and cmd: "command_at s command cmd" and dir: "directory_ok s sz"
    and free: "process_count s < 6"
    and entry: "find_file (mem s) (filesys_addr s) (command_name cmd) = Some entry"
    and whole: "whole_file s sz (of_int (inode_num entry))"
  defines "bs \<equiv> contents (mem s) (filesys_addr s) (of_int (inode_num entry))"
  obtains m where "execute command s = (if is_elf bs
      then load_process command (int (length (command_name cmd))) entry (s\<lparr>mem := m\<rparr>)
      else Returns (-1) (s\<lparr>mem := m\<rparr>))"
    and "same_outside (frame s) 128 (mem s) m"
    and "\<And>i. i < 32 \<Longrightarrow> m (frame s + 32 + of_nat i) = (bs @ replicate 32 0) ! i"
proof -
  let ?fs = "filesys_addr s" and ?f = "frame s"
  obtain m1 where name: "copy_name command ?f 0 (fill (fill (mem s) ?f 32 0) (?f + 32) 32 0)
        = (int (length (command_name cmd)), m1)"
    and m1: "str_prefix m1 ?f 32 = command_name cmd" "same_outside ?f 128 (mem s) m1"
      "\<And>i. i < 32 \<Longrightarrow> m1 (?f + 32 + of_nat i) = 0"
    by (rule execute_name [OF cmd]) (rule that)
  note look = lookup_after [OF layout dir m1(2), where name = "command_name cmd"]
  obtain q where q: "read_dentry_by_name ?fs ?f (?f + 64) m1 = (0, copy m1 (?f + 64) q 64)"
    "load_dentry (copy m1 (?f + 64) q 64) (?f + 64) = entry"
    using look entry m1(1) by auto
  let ?m2 = "copy m1 (?f + 64) q 64"
  have out2: "same_outside ?f 128 (mem s) ?m2"
    using same_outside_trans [OF m1(2)] same_outside_part(2) [of 64 64 128 ?f m1 q] by simp
  have zero: "?m2 (?f + 32 + of_nat i) = 0" if "i < 32" for i
  proof -
    have "disjoint_regions (?f + 32) 32 (?f + 64) 64" by (simp add: disjoint_regions_def)
    then have "\<not> in_region (?f + 32 + of_nat i) (?f + 64) 64"
      by (rule disjoint_regions_not_in) (simp add: in_region_add that)
    then show ?thesis using m1(3) [OF that] by (simp add: copy_def)
  qed
  obtain n m3 where read: "read_data ?fs (of_int (inode_num entry)) 0 (?f + 32) 32 ?m2 = (n, m3)"
    and m3: "same_outside ?f 128 (mem s) m3"
      "\<And>i. i < 32 \<Longrightarrow> m3 (?f + 32 + of_nat i) = (bs @ replicate 32 0) ! i"
    by (rule read_header [OF layout whole out2 zero]) (assumption, rule that, assumption+, simp add: bs_def)
  have c: "command \<noteq> 0" "\<not> process_count s \<ge> 6" using cmd free by (simp_all add: command_at_def)
  have "execute command s = (if is_elf bs
      then load_process command (int (length (command_name cmd))) entry (s\<lparr>mem := m3\<rparr>)
      else Returns (-1) (s\<lparr>mem := m3\<rparr>))"
    using c name q read elf_magic [OF m3(2)] by (simp add: execute_def Let_def)
  from that [OF this m3] show ?thesis .
qed

lemma execute_missing:
  assumes layout: "exec_layout s sz" and cmd: "command_at s command cmd" and dir: "directory_ok s sz"
    and free: "process_count s < 6"
    and entry: "find_file (mem s) (filesys_addr s) (command_name cmd) = None"
  obtains m where "execute command s = Returns (-1) (s\<lparr>mem := m\<rparr>)" "same_outside (frame s) 128 (mem s) m"
proof -
  let ?fs = "filesys_addr s" and ?f = "frame s"
  obtain m1 where name: "copy_name command ?f 0 (fill (fill (mem s) ?f 32 0) (?f + 32) 32 0)
        = (int (length (command_name cmd)), m1)"
    and m1: "str_prefix m1 ?f 32 = command_name cmd" "same_outside ?f 128 (mem s) m1"
    by (rule execute_name [OF cmd]) (rule that)
  have "read_dentry_by_name ?fs ?f (?f + 64) m1 = (- 1, m1)"
    using lookup_after [OF layout dir m1(2,1)] entry by simp
  moreover have "command \<noteq> 0" "\<not> process_count s \<ge> 6" using cmd free by (simp_all add: command_at_def)
  ultimately have "execute command s = Returns (-1) (s\<lparr>mem := m1\<rparr>)"
    using name by (simp add: execute_def Let_def)
  from that [OF this m1(2)] show ?thesis .
qed

section \<open>Loading the program\<close>

lemma command_split:
  assumes "command_at s command cmd" and "\<And>j. j \<le> length cmd \<Longrightarrow> m (command + of_nat j) = mem s (command + of_nat j)"
  defines "k \<equiv> length (command_name cmd) + command_spaces cmd"
  shows "skip_spaces m command (int (length (command_name cmd))) = Some (int k)"
    and "length (command_args cmd) \<le> MAX_ARGS \<Longrightarrow> length as = MAX_ARGS \<Longrightarrow>
      copy_args m command (int k) 0 as = Some (command_args cmd @ drop (length (command_args cmd)) as)"
proof -
  let ?w = "command_name cmd"
  let ?rest = "drop (length ?w) cmd"
  have str: "str_at (mem s) command cmd" using assms(1) by (simp add: command_at_def)
  have cmd: "m (command + of_nat j) = (if j < length cmd then cmd ! j else 0)" if "j \<le> length cmd" for j
    using assms(2) [OF that] str_at_nth [OF str, of j] str_at_end [OF str] that by auto
  have le: "length ?w \<le> length cmd" by (rule command_name_props)
  have sp: "command_spaces cmd \<le> length ?rest"
    by (simp add: command_spaces_def length_takeWhile_le del: length_drop)
  have k: "k \<le> length cmd" using le sp by (simp add: k_def)
  have spaces: "m (command + of_nat (length ?w + j)) = 32" if "j < command_spaces cmd" for j
  proof -
    have "?rest ! j = 32"
      using that takeWhile_holds [of j "\<lambda>c. c = 32" ?rest] by (simp add: command_spaces_def)
    then show ?thesis using cmd [of "length ?w + j"] that sp le by simp
  qed
  have stop: "m (command + of_nat k) \<noteq> 32"
  proof (cases "k < length cmd")
    case True
    then have "command_spaces cmd < length ?rest" using le by (simp add: k_def)
    then have "?rest ! command_spaces cmd \<noteq> 32"
      using nth_length_takeWhile [of "\<lambda>c. c = 32" ?rest] by (simp add: command_spaces_def)
    then show ?thesis using cmd [OF k] True le by (simp add: k_def)
  next
    case False
    then show ?thesis using cmd [OF k] by simp
  qed
  show "skip_spaces m command (int (length ?w)) = Some (int k)"
    using skip_spaces_run [of "command_spaces cmd" m command "length ?w"] spaces stop by (simp add: k_def)
  have args: "m (command + of_nat (k + j)) = command_args cmd ! j \<and> command_args cmd ! j \<noteq> 0"
    if "j < length (command_args cmd)" for j
    using that k cmd [of "k + j"] str_at_nz [OF str, of "k + j"] str_at_nth [OF str, of "k + j"]
    by (simp add: command_args_def k_def)
  have len: "k + length (command_args cmd) = length cmd" using k by (simp add: command_args_def k_def)
  show "copy_args m command (int k) 0 as = Some (command_args cmd @ drop (length (command_args cmd)) as)"
    if "length (command_args cmd) \<le> MAX_ARGS" "length as = MAX_ARGS"
    using copy_args_run [of "command_args cmd" m command k 0 as] args that len cmd [of "length cmd"] by simp
qed

text \<open>The four bytes of a word, lowest first.\<close>

definition word_bytes :: "u32 \<Rightarrow> u8 list" where
  "word_bytes e = [ucast e, ucast (drop_bit 8 e), ucast (drop_bit 16 e), ucast (drop_bit 24 e)]"

lemma word_bytes_load: "word_bytes (load32 m a) = bytes m a 4"
  by (simp add: word_bytes_def bytes_4)

lemma flush_tlb_outside:
  "\<not> in_region a PROG_PAGE 0x400000 \<Longrightarrow> mem (flush_tlb s) a = mem s a"
  by (simp add: flush_tlb_def Let_def)

lemma load_address: "i < 0x3B8000 \<Longrightarrow> in_region (PROG_LOAD_ADDR + of_nat i) PROG_PAGE 0x400000"
  using in_region_add [of "0x48000 + i" "0x400000" PROG_PAGE] by simp

text \<open>Reading the whole file into the program page.\<close>

lemma load_image:
  fixes n :: int
  defines "ino \<equiv> of_int n"
  assumes layout: "exec_layout s sz" and whole: "whole_file s sz ino"
    and len: "file_length (mem s) (filesys_addr s) ino \<le> 0x3B8000"
    and m: "same_outside PROG_PAGE 0x400000 m1 m" "same_outside (frame s) 128 (mem s) m1"
  obtains m' where "read_data (filesys_addr s) ino 0 PROG_LOAD_ADDR
        (of_int (file_size (filesys_addr s) n m)) m
      = (of_nat (file_length (mem s) (filesys_addr s) ino), m')"
    and "bytes m' PROG_LOAD_ADDR (file_length (mem s) (filesys_addr s) ino)
      = contents (mem s) (filesys_addr s) ino"
    and "same_outside PROG_PAGE 0x400000 m1 m'"
proof -
  let ?fs = "filesys_addr s"
  let ?l = "file_length (mem s) ?fs ino"
  have lay: "?fs mod 0x1000 = 0" "sz \<le> 4294967296" "disjoint_regions (frame s) 128 ?fs sz"
    "disjoint_regions PROG_PAGE 0x400000 ?fs sz"
    using layout by (simp_all add: exec_layout_def)
  have img: "in_image ?fs sz (inode_addr ?fs ino)" "file_in_image (mem s) ?fs sz ino ?l"
    using whole by (simp_all add: whole_file_def)
  have same: "same_image ?fs sz (mem s) m"
    using same_outside_image [OF m(2) lay(3)] same_outside_image [OF m(1) lay(4)] by (rule same_image_trans)
  have flen: "file_length m ?fs ino = ?l" by (rule same_image_contents(1) [OF same img(1) lay(2) img(2)])
  have size: "of_int (file_size ?fs n m) = load32 m (inode_addr ?fs ino)"
    by (simp add: file_size_def load_int_def inode_addr_def ino_def)
  have usize: "unat (load32 m (inode_addr ?fs ino)) = ?l" using flen by (simp add: file_length_def)
  have buf: "\<not> in_region (PROG_LOAD_ADDR + of_nat i) ?fs sz" if "i < ?l" for i
    using disjoint_regions_not_in [OF lay(4)] load_address [of i] that len by simp
  let ?m = "fill_with m PROG_LOAD_ADDR ?l (\<lambda>i. m (data_addr m ?fs ino i))"
  have run: "read_data ?fs ino 0 PROG_LOAD_ADDR (load32 m (inode_addr ?fs ino)) m = (of_nat ?l, ?m)"
    using read_data_copies [OF lay(1), where offset = 0 and inode = ino and m = m and sz = sz
        and len = "load32 m (inode_addr ?fs ino)" and buf = PROG_LOAD_ADDR]
      same_image_file_in_image [OF same img(2)] buf by (simp add: flen usize)
  show ?thesis
  proof (rule that)
    show "read_data ?fs ino 0 PROG_LOAD_ADDR (of_int (file_size ?fs n m)) m = (of_nat ?l, ?m)"
      unfolding size by (rule run)
    have "bytes ?m PROG_LOAD_ADDR ?l = map (\<lambda>i. m (data_addr m ?fs ino i)) [0..<?l]"
      using len by (intro bytes_fill_with) simp
    also have "\<dots> = contents m ?fs ino" by (simp add: contents_def file_bytes_def flen)
    finally show "bytes ?m PROG_LOAD_ADDR ?l = contents (mem s) ?fs ino"
      using same_image_contents(2) [OF same img(1) lay(2) img(2)] by simp
    have "same_outside PROG_PAGE 0x400000 m ?m"
      using same_outside_part(3) [of "0x48000" ?l "0x400000" PROG_PAGE m] len by simp
    with m(1) show "same_outside PROG_PAGE 0x400000 m1 ?m" by (rule same_outside_trans)
  qed
qed

text \<open>The state in which the image is read: slot, counters, arguments and the program page are set.\<close>

definition slot_state :: "int \<Rightarrow> u8 list \<Rightarrow> 'a process_scheme \<Rightarrow> 'a process_scheme" where
  "slot_state k as s =
     (let s = s\<lparr>process_count := process_count s + 1, process_per_terminal := (process_per_terminal s)
            (curr_terminal s - 1 := process_per_terminal s (curr_terminal s - 1) + 1),
            pcb_slots := (pcb_slots s)(k := 1)\<rparr>;
          s = update_pcb (getPCB (k + 1)) (\<lambda>b. b\<lparr>args := as\<rparr>) s;
          s = s\<lparr>pageDirectory := (pageDirectory s)(32 := user_page k)\<rparr>
      in sti (flush_tlb (cli s)))"

lemma slot_state_simps [simp]:
  "frame (slot_state k as s) = frame s" "filesys_addr (slot_state k as s) = filesys_addr s"
  "args (pcbs (slot_state k as s) (getPCB (k + 1))) = as"
  by (simp_all add: slot_state_def Let_def update_pcb_def)

lemma slot_state_mem: "same_outside PROG_PAGE 0x400000 (mem s) (mem (slot_state k as s))"
  by (simp add: slot_state_def same_outside_def Let_def update_pcb_def flush_tlb_outside)

lemma load_process_run:
  fixes s :: "'a process_scheme"
  defines "k \<equiv> find_slot (pcb_slots s) 0 6"
  assumes "k < 6" "skip_spaces (mem s) command i = Some j"
    and "copy_args (mem s) command j 0 (args (pcbs s (getPCB (k + 1)))) = Some as"
    and "read_data (filesys_addr s) (of_int (inode_num temp)) 0 PROG_LOAD_ADDR
      (of_int (file_size (filesys_addr s) (inode_num temp) (mem (slot_state k as s))))
      (mem (slot_state k as s)) = (n, m')" and "n \<noteq> - 1"
  shows "load_process command i temp s
    = start_process k (load32 m' (frame s + 32 + 24)) ((slot_state k as s)\<lparr>mem := m'\<rparr>)"
proof -
  have slots: "find_slot (pcb_slots s) 0 6 = k" by (simp add: k_def)
  have lt: "\<not> MAX_PROCESS_COUNT \<le> k" using assms(2) by simp
  show ?thesis
    using assms(3-6) slots lt unfolding load_process_def Let_def
    by (simp add: slot_state_def Let_def update_pcb_def)
qed

lemma start_process_simps:
  "start_process k e s = Enters e' s' \<Longrightarrow> e' = e \<and> mem s' = mem s
    \<and> args (pcbs s' (getPCB (k + 1))) = args (pcbs s (getPCB (k + 1)))"
  by (auto simp: start_process_def Let_def update_pcb_def)

lemma start_process_enters: "\<exists>s'. start_process k e s = Enters e s'"
  by (simp add: start_process_def Let_def)

lemma execute_loads:
  assumes layout: "exec_layout s sz" and cmd: "command_at s command cmd" and dir: "directory_ok s sz"
    and free: "process_count s < 6" "find_slot (pcb_slots s) 0 6 < 6"
    and entry: "find_file (mem s) (filesys_addr s) (command_name cmd) = Some entry"
    and whole: "whole_file s sz (of_int (inode_num entry))"
    and args: "length (command_args cmd) \<le> MAX_ARGS" "\<And>q. length (args (pcbs s q)) = MAX_ARGS"
  defines "bs \<equiv> contents (mem s) (filesys_addr s) (of_int (inode_num entry))"
    and "q \<equiv> getPCB (find_slot (pcb_slots s) 0 6 + 1)"
  assumes elf: "is_elf bs" and len: "28 \<le> length bs" "length bs \<le> 0x3B8000"
  obtains e s' where "execute command s = Enters e s'"
    and "word_bytes e = take 4 (drop 24 bs)"
    and "bytes (mem s') PROG_LOAD_ADDR (length bs) = bs"
    and "take (length (command_args cmd)) (args (pcbs s' q)) = command_args cmd"
    and "length (args (pcbs s' q)) = MAX_ARGS"
    and "\<And>a. in_region a (frame s) 128 \<or> in_region a PROG_PAGE 0x400000 \<or> mem s' a = mem s a"
proof -
  let ?k = "find_slot (pcb_slots s) 0 6" and ?as = "command_args cmd" and ?fs = "filesys_addr s"
  let ?i = "length (command_name cmd) + command_spaces cmd"
  obtain m where ex: "execute command s
        = load_process command (int (length (command_name cmd))) entry (s\<lparr>mem := m\<rparr>)"
    and m: "same_outside (frame s) 128 (mem s) m"
      "\<And>i. i < 32 \<Longrightarrow> m (frame s + 32 + of_nat i) = (bs @ replicate 32 0) ! i"
  proof -
    obtain m where "execute command s = (if is_elf bs
        then load_process command (int (length (command_name cmd))) entry (s\<lparr>mem := m\<rparr>)
        else Returns (-1) (s\<lparr>mem := m\<rparr>))" "same_outside (frame s) 128 (mem s) m"
      "\<And>i. i < 32 \<Longrightarrow> m (frame s + 32 + of_nat i) = (bs @ replicate 32 0) ! i"
      unfolding bs_def by (rule execute_found [OF layout cmd dir free(1) entry whole]) blast
    with elf show thesis by (intro that) simp_all
  qed
  have keep: "m (command + of_nat j) = mem s (command + of_nat j)" if "j \<le> length cmd" for j
    using same_outside_nth [OF m(1), of command "Suc (length cmd)" j] cmd that by (simp add: command_at_def)
  have spaces: "skip_spaces m command (int (length (command_name cmd))) = Some (int ?i)"
    by (rule command_split(1) [OF cmd]) (rule keep)
  have copied: "copy_args m command (int ?i) 0 as = Some (?as @ drop (length ?as) as)"
    if "length as = MAX_ARGS" for as
    by (rule command_split(2) [OF cmd _ args(1) that]) (rule keep)
  let ?as' = "?as @ drop (length ?as) (args (pcbs s q))"
  let ?s1 = "s\<lparr>mem := m\<rparr>"
  let ?s2 = "slot_state ?k ?as' ?s1"
  have out2: "same_outside PROG_PAGE 0x400000 m (mem ?s2)"
    using slot_state_mem [of ?s1 ?k ?as'] by simp
  obtain m' where read: "read_data ?fs (of_int (inode_num entry)) 0 PROG_LOAD_ADDR
        (of_int (file_size ?fs (inode_num entry) (mem ?s2))) (mem ?s2) = (of_nat (length bs), m')"
    and bs: "bytes m' PROG_LOAD_ADDR (length bs) = bs" and out: "same_outside PROG_PAGE 0x400000 m m'"
    using load_image [OF layout whole _ out2 m(1)] len(2) unfolding bs_def length_contents by blast
  have n: "(of_nat (length bs) :: u32) \<noteq> - 1"
  proof
    assume "(of_nat (length bs) :: u32) = - 1"
    then have "unat (of_nat (length bs) :: u32) = 4294967295" by simp
    moreover have "unat (of_nat (length bs) :: u32) = length bs" using len(2) by (intro unat_of_nat_small) simp
    ultimately show False using len(2) by simp
  qed
  let ?e = "load32 m' (frame s + 32 + 24)"
  have run: "execute command s = start_process ?k ?e (?s2\<lparr>mem := m'\<rparr>)"
    using load_process_run [of ?s1 command "int (length (command_name cmd))" "int ?i" ?as' entry "of_nat (length bs)" m']
      read n spaces copied [OF args(2) [of q]] free(2) unfolding ex by (simp add: q_def)
  then obtain s' where s': "execute command s = Enters ?e s'"
    using start_process_enters [of ?k ?e "?s2\<lparr>mem := m'\<rparr>"] by auto
  have fin: "mem s' = m'" "args (pcbs s' q) = ?as'"
    using start_process_simps [of ?k ?e "?s2\<lparr>mem := m'\<rparr>" ?e s'] run s' by (simp_all add: q_def)
  have "word_bytes ?e = take 4 (drop 24 bs)"
  proof -
    have "m' (frame s + 32 + of_nat (24 + i)) = bs ! (24 + i)" if "i < 4" for i
    proof -
      have "in_region (frame s + of_nat (56 + i)) (frame s) 128" using that by (intro in_region_add) simp_all
      then have "\<not> in_region (frame s + 32 + of_nat (24 + i)) PROG_PAGE 0x400000"
        using disjoint_regions_not_in [of "frame s" 128 PROG_PAGE "0x400000"] layout
        by (simp add: exec_layout_def disjoint_regions_sym add.assoc)
      then have "m' (frame s + 32 + of_nat (24 + i)) = m (frame s + 32 + of_nat (24 + i))"
        using out unfolding same_outside_def by blast
      then show ?thesis using m(2) [of "24 + i"] that len(1) by (simp add: nth_append del: of_nat_add)
    qed
    then have "bytes m' (frame s + 32 + of_nat 24) 4 = take 4 (drop 24 bs)"
      using len(1) by (intro nth_equalityI) (simp_all add: nth_bytes add.assoc)
    then show ?thesis by (simp add: word_bytes_load)
  qed
  moreover have "bytes (mem s') PROG_LOAD_ADDR (length bs) = bs" unfolding fin(1) by (rule bs)
  moreover have "take (length ?as) (args (pcbs s' q)) = ?as" "length (args (pcbs s' q)) = MAX_ARGS"
    unfolding fin(2) using args by simp_all
  moreover have "in_region a (frame s) 128 \<or> in_region a PROG_PAGE 0x400000 \<or> mem s' a = mem s a" for a
    using m(1) out unfolding fin(1) same_outside_def by metis
  ultimately show thesis using that [OF s'] by blast
qed

end
