(* ===== verification/Halt_Laws.thy ===== *)
theory Halt_Laws
  imports Exec_Laws
begin

text \<open>
  Ending a process: \<open>halt\<close> closes the files, pops the stack of the scheduled terminal and resumes
  the caller of \<open>execute\<close> on the stack, the kernel stack pointer and the program page that it had.
\<close>

section \<open>Closing the files\<close>

text \<open>Two states that differ in the file arrays of the blocks and the position in the directory.\<close>

definition same_but_files :: "'a process_scheme \<Rightarrow> 'a process_scheme \<Rightarrow> bool" where
  "same_but_files s s' \<longleftrightarrow> s' = s\<lparr>pcbs := pcbs s', dir_index := dir_index s'\<rparr>
     \<and> (\<forall>p. pcbs s' p = (pcbs s p)\<lparr>file_array := file_array (pcbs s' p),
          file_arr_size := file_arr_size (pcbs s' p)\<rparr>)"

lemma same_but_files_refl [simp]: "same_but_files s s"
  by (simp add: same_but_files_def)

lemma same_but_files_trans [trans]:
  assumes "same_but_files s s'" "same_but_files s' s''"
  shows "same_but_files s s''"
proof -
  have "s'' = s\<lparr>pcbs := pcbs s'', dir_index := dir_index s''\<rparr>"
    using assms unfolding same_but_files_def by (cases s; cases s'; cases s''; simp)
  moreover have "pcbs s'' p = (pcbs s p)\<lparr>file_array := file_array (pcbs s'' p),
          file_arr_size := file_arr_size (pcbs s'' p)\<rparr>" for p
  proof -
    have "pcbs s' p = (pcbs s p)\<lparr>file_array := file_array (pcbs s' p), file_arr_size := file_arr_size (pcbs s' p)\<rparr>"
      "pcbs s'' p = (pcbs s' p)\<lparr>file_array := file_array (pcbs s'' p), file_arr_size := file_arr_size (pcbs s'' p)\<rparr>"
      using assms by (simp_all add: same_but_files_def)
    then show ?thesis by (cases "pcbs s p"; cases "pcbs s' p"; cases "pcbs s'' p"; simp)
  qed
  ultimately show ?thesis by (simp add: same_but_files_def)
qed

lemma same_but_files_update_fd: "same_but_files s (update_fd p fd f s)"
  by (simp add: same_but_files_def update_fd_def update_pcb_def)

lemma same_but_files_table_close: "same_but_files s (snd (table_close t fd s))"
  by (cases t) (simp_all add: table_close_def file_close_def sys_close_def dir_close_def
      same_but_files_def update_fd_def update_pcb_def Let_def)

lemma same_but_files_core:
  assumes "same_but_files s s'"
  shows "process_num (pcbs s' p) = process_num (pcbs s p)"
    "parent_task (pcbs s' p) = parent_task (pcbs s p)"
    "esp (pcbs s' p) = esp (pcbs s p)" "ebp (pcbs s' p) = ebp (pcbs s p)"
    "esp0 (pcbs s' p) = esp0 (pcbs s p)"
    "highest_terminal_processes s' = highest_terminal_processes s"
    "pcb_slots s' = pcb_slots s" "process_count s' = process_count s"
    "curr_scheduled s' = curr_scheduled s" "curr_terminal s' = curr_terminal s"
    "user_pde s' = user_pde s" "frames s' = frames s" "mem s' = mem s"
    "pageDirectory s' = pageDirectory s"
proof -
  have p: "pcbs s' p = (pcbs s p)\<lparr>file_array := file_array (pcbs s' p), file_arr_size := file_arr_size (pcbs s' p)\<rparr>"
    and s: "s' = s\<lparr>pcbs := pcbs s', dir_index := dir_index s'\<rparr>"
    using assms by (simp_all add: same_but_files_def)
  show "process_num (pcbs s' p) = process_num (pcbs s p)"
    "parent_task (pcbs s' p) = parent_task (pcbs s p)"
    "esp (pcbs s' p) = esp (pcbs s p)" "ebp (pcbs s' p) = ebp (pcbs s p)"
    "esp0 (pcbs s' p) = esp0 (pcbs s p)"
    by (subst p, simp)+
  show "highest_terminal_processes s' = highest_terminal_processes s"
    "pcb_slots s' = pcb_slots s" "process_count s' = process_count s"
    "curr_scheduled s' = curr_scheduled s" "curr_terminal s' = curr_terminal s"
    "user_pde s' = user_pde s" "frames s' = frames s" "mem s' = mem s"
    "pageDirectory s' = pageDirectory s"
    by (subst s, simp)+
qed

text \<open>Every open file of a block has its table.\<close>

definition tables_set :: "'a process_scheme \<Rightarrow> u32 \<Rightarrow> bool" where
  "tables_set s p \<longleftrightarrow> list_all (\<lambda>fd. flags (fd_of s p fd) \<noteq> 0 \<longrightarrow> fops_table (fd_of s p fd) \<noteq> None)
     [0, 1, 2, 3, 4, 5, 6, 7]"

lemma fops_table_update_fd:
  "fops_table (fd_of (update_fd p fd (\<lambda>f. f\<lparr>flags := 0\<rparr>) s) q i) = fops_table (fd_of s q i)"
  by (simp add: fd_of_def update_fd_def update_pcb_def)

lemma fops_table_table_close:
  "fops_table (fd_of (snd (table_close t fd s)) q i) = fops_table (fd_of s q i)"
  by (cases t) (simp_all add: table_close_def file_close_def sys_close_def dir_close_def
      fd_of_def update_fd_def update_pcb_def Let_def)

lemma flags_after:
  "flags (fd_of (update_fd p fd (\<lambda>f. f\<lparr>flags := 0\<rparr>) s) q i) \<noteq> 0 \<Longrightarrow> flags (fd_of s q i) \<noteq> 0"
  "flags (fd_of (snd (table_close t fd s)) q i) \<noteq> 0 \<Longrightarrow> flags (fd_of s q i) \<noteq> 0"
  by (auto simp: table_close_def file_close_def sys_close_def dir_close_def
      fd_of_def update_fd_def update_pcb_def Let_def split: ftable.splits if_splits)

lemma close_files_returns:
  assumes "list_all (\<lambda>fd. flags (fd_of s p fd) \<noteq> 0 \<longrightarrow> fops_table (fd_of s p fd) \<noteq> None) fds"
  obtains s' where "close_files p fds s = Some s'" "same_but_files s s'"
proof -
  have "\<exists>s'. close_files p fds s = Some s' \<and> same_but_files s s'"
    using assms
  proof (induction fds arbitrary: s)
    case (Cons i fds)
    let ?clear = "update_fd p i (\<lambda>f. f\<lparr>flags := 0\<rparr>)"
    let ?s = "if flags (fd_of s p i) \<noteq> 0
      then ?clear (snd (table_close (the (fops_table (fd_of s p i))) i s)) else ?clear s"
    have step: "close_files p (i # fds) s = close_files p fds ?s"
      using Cons.prems by auto
    have keep: "fops_table (fd_of ?s p j) = fops_table (fd_of s p j)"
      "flags (fd_of ?s p j) \<noteq> 0 \<Longrightarrow> flags (fd_of s p j) \<noteq> 0" for j
      by (auto simp: fops_table_update_fd fops_table_table_close split: if_splits dest!: flags_after)
    have one: "same_but_files s ?s"
      using same_but_files_trans [OF same_but_files_table_close same_but_files_update_fd]
        same_but_files_update_fd by (auto split: if_splits)
    have "list_all (\<lambda>fd. flags (fd_of ?s p fd) \<noteq> 0 \<longrightarrow> fops_table (fd_of ?s p fd) \<noteq> None) fds"
      using Cons.prems keep unfolding list_all_iff by (metis list.set_intros(2))
    from Cons.IH [OF this] obtain s' where "close_files p fds ?s = Some s'" "same_but_files ?s s'" by blast
    with step show ?case using same_but_files_trans [OF one] by metis
  qed simp
  with that show thesis by blast
qed

section \<open>Returning to the parent\<close>

lemma halt_pops:
  fixes s :: "'a process_scheme"
  assumes view: "proc_view s st" and t: "curr_scheduled s \<in> {1, 2, 3}"
    and st: "st (curr_scheduled s - 1) = p # q # ps" and files: "tables_set s (getPCB p)"
  obtains s' s1 s2 :: "'a process_scheme" where "halt status s = Resumes status s'" and "proc_view s' (pop (curr_scheduled s - 1) st)"
    and "user_pde s' = user_page (q - 1)" and "tss_esp0 s' = esp0 (pcbs s (getPCB q))"
    and "reg_esp s' = esp (pcbs s (getPCB p))" and "reg_ebp s' = ebp (pcbs s (getPCB p))"
    and "intr s'" and "\<And>x. pcbs s' x = (if x = getPCB p then pcbs s' x else (pcbs s x)
      \<lparr>file_array := file_array (pcbs s' x), file_arr_size := file_arr_size (pcbs s' x)\<rparr>)"
    and "user_pde s \<noteq> user_page (q - 1) \<Longrightarrow>
      mem s' = (\<lambda>a. if in_region a PROG_PAGE 0x400000 then frames s (user_page (q - 1)) a else mem s a)"
    and "close_files (getPCB p) [0, 1, 2, 3, 4, 5, 6, 7] s1 = Some s2"
    and "pcbs s1 = pcbs s" "current_pcb s1 = current_pcb s" "\<And>x fd. fd_of s' x fd = fd_of s2 x fd"
proof -
  let ?t = "curr_scheduled s - 1" and ?p = "getPCB p" and ?q = "getPCB q"
  have t0: "?t \<in> {0, 1, 2}" using t by auto
  have stack: "stack_ok (pcbs s) (p # q # ps)" using proc_view_stack [OF view t0] st by simp
  then have pq: "1 \<le> p" "p \<le> 6" "1 \<le> q" "q \<le> 6" "parent_task (pcbs s ?p) = ?q" "process_num (pcbs s ?q) = q"
    by simp_all
  have "p \<noteq> q"
  proof -
    have "distinct (all_procs st)" using view by (simp add: proc_view_def)
    then show ?thesis using t0 st by (auto simp: all_procs_def)
  qed
  then have ne: "?p \<noteq> ?q" using getPCB_inject pq(1-4) by blast
  have high: "highest_terminal_processes s ?t = p" using proc_view_youngest [OF view t0] st by simp
  let ?s1 = "(cli s)\<lparr>process_count := process_count s - 1, process_per_terminal := (process_per_terminal s)
    (?t := process_per_terminal s ?t - 1)\<rparr>"
  obtain s2 where s2: "close_files ?p [0, 1, 2, 3, 4, 5, 6, 7] ?s1 = Some s2" "same_but_files ?s1 s2"
  proof (rule close_files_returns [of ?s1 ?p])
    show "list_all (\<lambda>fd. flags (fd_of ?s1 ?p fd) \<noteq> 0 \<longrightarrow> fops_table (fd_of ?s1 ?p fd) \<noteq> None) [0, 1, 2, 3, 4, 5, 6, 7]"
      using files by (simp add: tables_set_def fd_of_def)
  qed (rule that)
  note core = same_but_files_core [OF s2(2)]
  let ?s3 = "update_pcb ?p (\<lambda>b. b\<lparr>args := replicate MAX_ARGS 0\<rparr>) s2
    \<lparr>pcb_slots := (pcb_slots s)(p - 1 := 0), pageDirectory := (pageDirectory s)(32 := user_page (q - 1)),
     highest_terminal_processes := (highest_terminal_processes s)(?t := q), tss_esp0 := esp0 (pcbs s ?q)\<rparr>"
  have "?q \<noteq> 0" by (rule getPCB_nonzero) (rule pq)+
  then have "halt status s = resume_parent ?p status ?s3"
    using s2(1) high pq(5,6) ne core unfolding halt_def Let_def
    by (simp add: update_pcb_def)
  then have run: "halt status s = Resumes status ((sti (sti (flush_tlb (cli ?s3))))
      \<lparr>reg_esp := esp (pcbs s ?p), reg_ebp := ebp (pcbs s ?p)\<rparr>)"
    using core by (simp add: resume_parent_def Let_def update_pcb_def)
  let ?s' = "(sti (sti (flush_tlb (cli ?s3))))\<lparr>reg_esp := esp (pcbs s ?p), reg_ebp := ebp (pcbs s ?p)\<rparr>"
  show thesis
  proof (rule that [OF run _ _ _ _ _ _ _ _ s2(1)])
    show "proc_view ?s' (pop ?t st)"
      using core pq high st
      by (intro proc_view_pop [OF view t0 st]) (simp_all add: update_pcb_def)
    show "user_pde ?s' = user_page (q - 1)" "tss_esp0 ?s' = esp0 (pcbs s ?q)"
      "reg_esp ?s' = esp (pcbs s ?p)" "reg_ebp ?s' = ebp (pcbs s ?p)" "intr ?s'"
      by simp_all
    show "pcbs ?s' x = (if x = ?p then pcbs ?s' x else (pcbs s x)
      \<lparr>file_array := file_array (pcbs ?s' x), file_arr_size := file_arr_size (pcbs ?s' x)\<rparr>)" for x
      using s2(2) by (simp add: update_pcb_def same_but_files_def)
    show "mem ?s' = (\<lambda>a. if in_region a PROG_PAGE 0x400000 then frames s (user_page (q - 1)) a else mem s a)"
      if "user_pde s \<noteq> user_page (q - 1)"
      using that core by (auto simp: flush_tlb_def Let_def update_pcb_def fun_eq_iff)
    show "pcbs ?s1 = pcbs s" "current_pcb ?s1 = current_pcb s" by (simp_all add: current_pcb_def)
    show "fd_of ?s' x fd = fd_of s2 x fd" for x fd by (simp add: fd_of_def update_pcb_def)
  qed
qed

section \<open>Files of the displayed process\<close>

text \<open>The \<open>close\<close> of a regular file is the system call, which works on the displayed process.\<close>

lemma close_step_current:
  "current_pcb (update_fd p i f s) = current_pcb s" "current_pcb (snd (table_close t i s)) = current_pcb s"
proof -
  show "current_pcb (update_fd p i f s) = current_pcb s"
    by (simp add: current_pcb_def update_fd_def update_pcb_def)
  show "current_pcb (snd (table_close t i s)) = current_pcb s"
    using same_but_files_core(6,10) [OF same_but_files_table_close [of s t i]] by (simp add: current_pcb_def)
qed

lemma close_step_other:
  "i \<noteq> fd \<Longrightarrow> fd_of (update_fd p i f s) q fd = fd_of s q fd"
  "i \<noteq> fd \<Longrightarrow> fd_of (snd (table_close t i s)) q fd = fd_of s q fd"
  by (cases t; simp add: fd_of_def update_fd_def update_pcb_def table_close_def file_close_def
      sys_close_def dir_close_def Let_def)+

lemma close_files_closed:
  "close_files p fds s = Some s' \<Longrightarrow> flags (fd_of s q fd) = 0 \<Longrightarrow> flags (fd_of s' q fd) = 0"
proof (induction p fds s rule: close_files.induct)
  case (2 p i fds s)
  show ?case
  proof (cases "flags (fd_of s p i) = 0")
    case True
    then show ?thesis using 2 flags_after(1) by (metis close_files.simps(2))
  next
    case False
    then obtain t where t: "fops_table (fd_of s p i) = Some t" using "2.prems"(1) by (cases "fops_table (fd_of s p i)") auto
    then show ?thesis
      using 2(1) [OF False t] 2(3) "2.prems"(2) False flags_after by simp blast
  qed
qed simp

lemma close_files_current:
  "close_files p fds s = Some s' \<Longrightarrow> fd \<in> set fds \<Longrightarrow> distinct fds \<Longrightarrow> 2 \<le> fd \<Longrightarrow> fd < 8 \<Longrightarrow>
   flags (fd_of s p fd) \<noteq> 0 \<Longrightarrow> fops_table (fd_of s p fd) = Some File_table \<Longrightarrow>
   flags (fd_of s' (current_pcb s) fd) = 0"
proof (induction p fds s rule: close_files.induct)
  case (2 p i fds s)
  show ?case
  proof (cases "i = fd")
    case True
    let ?s = "update_fd p fd (\<lambda>f. f\<lparr>flags := 0\<rparr>) (snd (table_close File_table fd s))"
    have "close_files p fds ?s = Some s'" using "2.prems" True by simp
    moreover have "flags (fd_of ?s (current_pcb s) fd) = 0"
      using "2.prems"(4,5) by (simp add: table_close_def file_close_def sys_close_def Let_def fd_of_def
          update_fd_def update_pcb_def)
    ultimately show ?thesis by (rule close_files_closed)
  next
    case False
    then have fds: "fd \<in> set fds" "distinct fds" using "2.prems" by auto
    show ?thesis
    proof (cases "flags (fd_of s p i) = 0")
      case True
      have "flags (fd_of s' (current_pcb (update_fd p i (\<lambda>f. f\<lparr>flags := 0\<rparr>) s)) fd) = 0"
        using "2.prems" True False fds by (intro "2.IH"(2)) (simp_all add: close_step_other)
      then show ?thesis by (simp add: close_step_current)
    next
      case open_fd: False
      obtain t where t: "fops_table (fd_of s p i) = Some t"
        using "2.prems"(1) open_fd by (cases "fops_table (fd_of s p i)") auto
      have "flags (fd_of s' (current_pcb (update_fd p i (\<lambda>f. f\<lparr>flags := 0\<rparr>) (snd (table_close t i s)))) fd) = 0"
        using "2.prems" open_fd t False fds by (intro "2.IH"(1)) (simp_all add: close_step_other)
      then show ?thesis by (simp add: close_step_current)
    qed
  qed
qed simp

end
