(* ===== verification/Lifecycle.thy ===== *)
theory Lifecycle
  imports Halt_Laws
begin

text \<open>
  The life of a process: the properties of \<open>execute\<close> and \<open>halt\<close> together, and a state for the
  examples, in which a shell runs on the first terminal and the file \<open>a\<close> is a program.
\<close>

section \<open>A state for the examples\<close>

definition elf_image :: mem where
  "elf_image = sample_image(0x11000 := 28, 0x12000 := 0x7F, 0x12001 := 69, 0x12002 := 76, 0x12003 := 70,
     0x12004 := 0, 0x12018 := 0x94, 0x12019 := 0x80, 0x1201A := 4, 0x1201B := 8,
     0x30000 := 97, 0x30001 := 32, 0x30002 := 120)"

lemma elf_loads:
  "load32 elf_image 0x10000 = 1" "load32 elf_image 0x10004 = 1" "load32 elf_image 0x11000 = 28"
  "load32 elf_image 0x11004 = 0" "load32 elf_image 0x10064 = 0"
  by (simp_all add: load32_def elf_image_def sample_image_def)

lemma elf_addrs:
  "p < 4096 \<Longrightarrow> data_addr elf_image 0x10000 0 p = 0x12000 + of_nat p"
  "block_addr 0x10000 0 0 = 0x11004" "file_length elf_image 0x10000 0 = 28"
  by (simp_all add: data_addr_def data_base_def block_addr_def inode_addr_def file_length_def elf_loads)

lemma elf_in_image:
  assumes "n \<le> 4096"
  shows "file_in_image elf_image 0x10000 0x3000 0 n"
proof -
  have "in_region (data_addr elf_image 0x10000 0 p) 0x10000 0x3000
      \<and> in_image 0x10000 0x3000 (block_addr 0x10000 0 (p div 4096))" if "p < n" for p
  proof -
    have p: "p < 4096" using that assms by simp
    have "in_region (0x10000 + of_nat (0x2000 + p)) 0x10000 0x3000" using p by (intro in_region_add) simp_all
    then show ?thesis using p by (simp add: elf_addrs in_image_def)
  qed
  then show ?thesis by (simp add: file_in_image_def list_all_iff in_image_def)
qed

lemma elf_contents: "contents elf_image 0x10000 0
  = [0x7F, 69, 76, 70, 0, 0, 0, 0, 0, 0, 0, 0, 0, 0, 0, 0, 0, 0, 0, 0, 0, 0, 0, 0, 0x94, 0x80, 4, 8]"
proof -
  have "[0..<28] = [0, 1, 2, 3, 4, 5, 6, 7, 8, 9, 10, 11, 12, 13, 14, 15, 16, 17, 18, 19, 20, 21, 22, 23, 24, 25, 26, 27::nat]"
    by (simp add: upt_rec)
  then have "contents elf_image 0x10000 0 = map (\<lambda>i. elf_image (data_addr elf_image 0x10000 0 (0 + i)))
      [0, 1, 2, 3, 4, 5, 6, 7, 8, 9, 10, 11, 12, 13, 14, 15, 16, 17, 18, 19, 20, 21, 22, 23, 24, 25, 26, 27]"
    unfolding contents_def file_bytes_def elf_addrs(3) by (simp only:)
  also have "\<dots> = [0x7F, 69, 76, 70, 0, 0, 0, 0, 0, 0, 0, 0, 0, 0, 0, 0, 0, 0, 0, 0, 0, 0, 0, 0, 0x94, 0x80, 4, 8]"
    by (simp add: elf_addrs(1)) (simp add: elf_image_def sample_image_def)
  finally show ?thesis .
qed

definition sample_fd :: "ftable option \<Rightarrow> int \<Rightarrow> fd_struct" where
  "sample_fd t f = \<lparr>fops_table = t, inode = -1, f_pos = 0, flags = f\<rparr>"

definition sample_pcb :: "int \<Rightarrow> u32 \<Rightarrow> pcb" where
  "sample_pcb n parent = \<lparr>file_array = \<lambda>fd. if fd = 0 then sample_fd (Some Stdin_table) 1
       else if fd = 1 then sample_fd (Some Stdout_table) 1 else sample_fd None 0,
     file_arr_size = 2, process_num = n, parent_task = parent, eip = 0, esp = 0x9000, ebp = 0x9010,
     esp0 = getPCB n + 8188, args = replicate 127 0, ebp_scheduler = 0\<rparr>"

definition sample_process :: process where
  "sample_process = \<lparr>mem = elf_image, ports = [], device = \<lambda>_ _. 0, intr = True,
     frame = 0x7FF000, uninit = 0, screen_x = \<lambda>_. 0, screen_y = \<lambda>_. 0, curr_terminal = 1,
     curr_scheduled = 1, video_mem = VIDEO, master_mask = 0xFF, slave_mask = 0xFF,
     rtc_active = 1, rtc_rates = \<lambda>_. 1, rtc_counter = \<lambda>_. 0,
     shift_key = 0, alt_key = 0, cap_flag = 0, ctrl_key = 0, keyboard_buffer_index = 0,
     enter_flag = 0, keyboard_buffer = replicate 128 0, keyboard_buffer1 = replicate 128 0,
     keyboard_buffer2 = replicate 128 0, keyboard_buffer3 = replicate 128 0,
     kb1_pos = 0, kb2_pos = 0, kb3_pos = 0, switch_flag = 0,
     filesys_addr = 0x10000, dir_index = 0, user_vid_mem = 0, process_count = 1,
     highest_terminal_processes = (\<lambda>_. 0)(0 := 1), pcb_slots = (\<lambda>_. 0)(0 := 1),
     process_per_terminal = (\<lambda>_. 0)(0 := 1), pcbs = (\<lambda>_. sample_pcb 1 0),
     pageDirectory = (\<lambda>_. 0)(32 := user_page 0), pgTbl_vidMem = \<lambda>_. 0, pgTbl_vidMem_addr = 0x5000,
     user_pde = user_page 0, frames = \<lambda>_ _. 0, tss_esp0 = 0x7FFFFC, tss_ss0 = 0x18,
     reg_esp = 0x7FE800, reg_ebp = 0x7FE810, str_shell = 0x40000, str_max = 0x40010,
     past_args = \<lambda>_. 0\<rparr>"

lemma sample_process_simps [simp]:
  "mem sample_process = elf_image" "frame sample_process = 0x7FF000" "curr_terminal sample_process = 1"
  "curr_scheduled sample_process = 1" "filesys_addr sample_process = 0x10000"
  "process_count sample_process = 1" "user_pde sample_process = user_page 0"
  "reg_esp sample_process = 0x7FE800" "reg_ebp sample_process = 0x7FE810"
  "pcbs sample_process p = sample_pcb 1 0" "highest_terminal_processes sample_process = (\<lambda>_. 0)(0 := 1)"
  "pcb_slots sample_process = (\<lambda>_. 0)(0 := 1)" "dir_index sample_process = 0"
  "tss_esp0 sample_process = 0x7FFFFC"
  by (simp_all add: sample_process_def)

lemma sample_layout: "exec_layout sample_process 0x3000"
  by (simp add: exec_layout_def disjoint_regions_def)

lemma sample_command: "command_at sample_process 0x30000 [97, 32, 120]"
  by (simp add: command_at_def str_at_Cons str_at_Nil disjoint_regions_def elf_image_def sample_image_def)

lemma sample_dir: "directory_ok sample_process 0x3000"
  by (simp add: directory_ok_def load_int_def elf_loads entries_in_image_def in_image_def entry_addr_def)

lemma sample_name: "command_name [97, 32, 120] = [97]" "command_args [97, 32, 120] = [120]"
  by (simp_all add: command_name_def command_args_def command_spaces_def)

lemma sample_file: "find_file elf_image 0x10000 [97] = Some (load_dentry elf_image 0x10040)"
proof -
  have "entry_name elf_image 0x10000 0 = [97]"
    using str_prefix_Suc [of elf_image _ 31] str_prefix_Suc [of elf_image _ 30]
    by (simp add: entry_name_def entry_addr_def elf_image_def sample_image_def)
  then show ?thesis by (simp add: find_file_def load_int_def elf_loads entry_addr_def)
qed

lemma sample_inode: "inode_num (load_dentry elf_image 0x10040) = 0"
  by (simp add: load_dentry_def load_int_def elf_loads)

lemma sample_whole: "whole_file sample_process 0x3000 0"
  by (simp add: whole_file_def in_image_def inode_addr_def elf_addrs elf_in_image)

lemma sample_view: "proc_view sample_process ((\<lambda>_. [])(0 := [1]))"
  by (simp add: proc_view_def all_procs_def sample_pcb_def getPCB_values)

lemma sample_slot: "find_slot ((\<lambda>_. 0)(0 := 1)) 0 6 = 1"
  by (simp add: eval_nat_numeral)

section \<open>Starting a process\<close>

text \<open>C3. \<open>execute\<close> runs the program that the command names: when the name is that of a file with the
  ELF magic number which fits in the program page, and there is a free slot, the processor enters
  user mode at the address in bytes 24 to 27 of the file, the file's bytes are in memory from
  0x08048000 on, and the rest of the command, without the spaces before it, is in the argument
  array of the new block.\<close>

theorem execute_runs_program:
  assumes "exec_layout s sz" and "directory_ok s sz" and "command_at s command cmd"
    and "process_count s < 6" and "find_slot (pcb_slots s) 0 6 < 6"
    and "find_file (mem s) (filesys_addr s) (command_name cmd) = Some entry"
    and "whole_file s sz (of_int (inode_num entry))"
    and "length (command_args cmd) \<le> 127" and "\<forall>q. length (args (pcbs s q)) = 127"
    and "bs = contents (mem s) (filesys_addr s) (of_int (inode_num entry))"
    and "is_elf bs" and "28 \<le> length bs" and "length bs \<le> 0x3B8000"
  shows "\<exists>e s'. execute command s = Enters e s' \<and> word_bytes e = take 4 (drop 24 bs)
    \<and> bytes (mem s') PROG_LOAD_ADDR (length bs) = bs
    \<and> take (length (command_args cmd)) (args (pcbs s' (getPCB (find_slot (pcb_slots s) 0 6 + 1))))
      = command_args cmd"
proof -
  note found = assms(11-13) [unfolded assms(10)] and arrays = spec [OF assms(9)]
  obtain e s' where "execute command s = Enters e s'" "word_bytes e = take 4 (drop 24 bs)"
    "bytes (mem s') PROG_LOAD_ADDR (length bs) = bs"
    "take (length (command_args cmd)) (args (pcbs s' (getPCB (find_slot (pcb_slots s) 0 6 + 1))))
      = command_args cmd"
    unfolding assms(10)
    by (rule execute_loads [OF assms(1,3,2,4-8) arrays found])
  then show ?thesis by blast
qed

theorem execute_runs_program_witness:
  "\<exists>e s'. execute 0x30000 sample_process = Enters e s' \<and> word_bytes e = [0x94, 0x80, 4, 8]
    \<and> take 4 (bytes (mem s') PROG_LOAD_ADDR 28) = [0x7F, 69, 76, 70]
    \<and> take 1 (args (pcbs s' (getPCB 2))) = [120]"
proof -
  let ?bs = "contents elf_image 0x10000 0"
  note slot = sample_slot
  have named: "find_file (mem sample_process) (filesys_addr sample_process) (command_name [97, 32, 120])
      = Some (load_dentry elf_image 0x10040)"
    by (simp add: sample_name sample_file)
  have bs: "?bs = contents (mem sample_process) (filesys_addr sample_process)
      (of_int (inode_num (load_dentry elf_image 0x10040)))"
    by (simp add: sample_inode)
  have elf: "is_elf ?bs" "28 \<le> length ?bs" "length ?bs \<le> 0x3B8000"
    by (simp_all add: is_elf_def elf_contents)
  obtain e s' where r: "execute 0x30000 sample_process = Enters e s'" "word_bytes e = take 4 (drop 24 ?bs)"
    "bytes (mem s') PROG_LOAD_ADDR (length ?bs) = ?bs"
    "take (length (command_args [97, 32, 120])) (args (pcbs s' (getPCB (find_slot (pcb_slots sample_process) 0 6 + 1))))
      = command_args [97, 32, 120]"
    using execute_runs_program [OF sample_layout sample_dir sample_command _ _ named _ _ _ bs elf]
    by (auto simp: slot sample_inode sample_whole sample_name sample_pcb_def)
  have l: "length ?bs = 28" by (simp add: elf_contents)
  have e: "take 4 (drop 24 ?bs) = [0x94, 0x80, 4, 8]" "take 4 ?bs = [0x7F, 69, 76, 70]"
    by (simp_all add: elf_contents)
  show ?thesis
  proof (intro exI conjI)
    show "execute 0x30000 sample_process = Enters e s'" by (rule r(1))
    show "word_bytes e = [0x94, 0x80, 4, 8]" unfolding r(2) by (rule e(1))
    show "take 4 (bytes (mem s') PROG_LOAD_ADDR 28) = [0x7F, 69, 76, 70]"
      using r(3) unfolding l by (simp only: e(2))
    show "take 1 (args (pcbs s' (getPCB 2))) = [120]" using r(4) by (simp add: sample_name slot)
  qed
qed

text \<open>C14. Starting a process pushes it on the stack of the displayed terminal: it takes the least
  number that no process has, its block links to the process that was youngest, the kernel stack
  and the program page are those of its number, and the registers of the caller are saved in it.
  The blocks of the other processes stay as they are.\<close>

theorem execute_pushes_process:
  assumes "proc_view s st" and "curr_terminal s \<in> {1, 2, 3}" and "execute command s = Enters e s'"
  shows "\<exists>p. 1 \<le> p \<and> p \<le> 6 \<and> p \<notin> set (all_procs st) \<and> {1..<p} \<subseteq> set (all_procs st)
    \<and> proc_view s' (push (curr_terminal s - 1) p st)
    \<and> user_pde s' = user_page (p - 1) \<and> tss_esp0 s' = getPCB p + 8188
    \<and> esp (pcbs s' (getPCB p)) = reg_esp s \<and> ebp (pcbs s' (getPCB p)) = reg_ebp s
    \<and> list_all (\<lambda>q. pcbs s' (getPCB q) = pcbs s (getPCB q)) (all_procs st)"
proof -
  obtain p where p: "1 \<le> p" "p \<le> 6" "p \<notin> set (all_procs st)"
    "\<And>q. 1 \<le> q \<Longrightarrow> q < p \<Longrightarrow> q \<in> set (all_procs st)" "proc_view s' (push (curr_terminal s - 1) p st)"
    "user_pde s' = user_page (p - 1)" "tss_esp0 s' = getPCB p + 8188"
    "esp (pcbs s' (getPCB p)) = reg_esp s" "ebp (pcbs s' (getPCB p)) = reg_ebp s"
    "\<And>q. q \<in> set (all_procs st) \<Longrightarrow> pcbs s' (getPCB q) = pcbs s (getPCB q)"
    by (rule execute_pushes [OF assms]) (rule that)
  then show ?thesis by (intro exI [of _ p]) (auto simp: list_all_iff)
qed

lemma sample_execute:
  obtains e s' where "execute 0x30000 sample_process = Enters e s'"
proof (rule execute_loads [OF sample_layout sample_command sample_dir])
  show "find_file (mem sample_process) (filesys_addr sample_process) (command_name [97, 32, 120])
      = Some (load_dentry elf_image 0x10040)"
    by (simp add: sample_name sample_file)
qed (auto simp: sample_inode sample_whole sample_name sample_pcb_def is_elf_def elf_contents sample_slot)

theorem execute_pushes_process_witness:
  "\<exists>e s' p. execute 0x30000 sample_process = Enters e s'
    \<and> proc_view s' (push 0 p ((\<lambda>_. [])(0 := [1]))) \<and> p \<noteq> 1 \<and> user_pde s' = user_page (p - 1)"
proof -
  obtain e s' where r: "execute 0x30000 sample_process = Enters e s'" by (rule sample_execute)
  have "curr_terminal sample_process \<in> {1, 2, 3}" by simp
  from execute_pushes_process [OF sample_view this r]
  obtain p where "proc_view s' (push (curr_terminal sample_process - 1) p ((\<lambda>_. [])(0 := [1])))"
    "p \<notin> set (all_procs ((\<lambda>_. [])(0 := [1])))" "user_pde s' = user_page (p - 1)" by blast
  with r show ?thesis by (auto simp: all_procs_def)
qed

text \<open>C33. \<open>execute\<close> refuses a command whose name is not that of a file, or whose file is not an
  ELF file: it returns -1, and nothing but its local arrays has changed.\<close>

theorem execute_refuses:
  assumes "exec_layout s sz" and "directory_ok s sz" and "command_at s command cmd"
    and "process_count s < 6"
    and "case find_file (mem s) (filesys_addr s) (command_name cmd) of None \<Rightarrow> True
      | Some entry \<Rightarrow> whole_file s sz (of_int (inode_num entry))
          \<and> \<not> is_elf (contents (mem s) (filesys_addr s) (of_int (inode_num entry)))"
  shows "\<exists>m. execute command s = Returns (- 1) (s\<lparr>mem := m\<rparr>) \<and> same_outside (frame s) 128 (mem s) m"
proof (cases "find_file (mem s) (filesys_addr s) (command_name cmd)")
  case None
  then obtain m where "execute command s = Returns (- 1) (s\<lparr>mem := m\<rparr>)" "same_outside (frame s) 128 (mem s) m"
    using execute_missing [OF assms(1,3,2,4)] by blast
  then show ?thesis by blast
next
  case (Some entry)
  with assms(5) have bad: "whole_file s sz (of_int (inode_num entry))"
    "\<not> is_elf (contents (mem s) (filesys_addr s) (of_int (inode_num entry)))" by simp_all
  obtain m where "execute command s = Returns (- 1) (s\<lparr>mem := m\<rparr>)" "same_outside (frame s) 128 (mem s) m"
    by (rule execute_found [OF assms(1,3,2,4) Some bad(1)]) (rule that, use bad(2) in simp_all)
  then show ?thesis by blast
qed

lemma missing_command: "command_at sample_process 0x30002 [120]"
  by (simp add: command_at_def str_at_Cons str_at_Nil disjoint_regions_def elf_image_def sample_image_def)

theorem execute_refuses_witness:
  "\<exists>m. execute 0x30002 sample_process = Returns (- 1) (sample_process\<lparr>mem := m\<rparr>)
    \<and> same_outside 0x7FF000 128 elf_image m"
proof -
  have "entry_name elf_image 0x10000 0 = [97]"
    using str_prefix_Suc [of elf_image _ 31] str_prefix_Suc [of elf_image _ 30]
    by (simp add: entry_name_def entry_addr_def elf_image_def sample_image_def)
  then have "find_file elf_image 0x10000 (command_name [120]) = None"
    by (simp add: find_file_def load_int_def elf_loads command_name_def)
  then show ?thesis
    using execute_refuses [OF sample_layout sample_dir missing_command] by simp
qed

section \<open>Ending a process\<close>

text \<open>C15. \<open>halt\<close> of a process with a parent always resumes the caller of \<open>execute\<close>: it pops the
  stack of the scheduled terminal, maps the parent's program page, and restores the stack
  registers saved by \<open>execute\<close> and the parent's kernel stack.\<close>

theorem halt_resumes_parent:
  assumes "proc_view s st" and "curr_scheduled s \<in> {1, 2, 3}"
    and "st (curr_scheduled s - 1) = p # q # ps" and "tables_set s (getPCB p)"
  shows "\<exists>s'. halt status s = Resumes status s' \<and> proc_view s' (pop (curr_scheduled s - 1) st)
    \<and> user_pde s' = user_page (q - 1) \<and> tss_esp0 s' = esp0 (pcbs s (getPCB q))
    \<and> reg_esp s' = esp (pcbs s (getPCB p)) \<and> reg_ebp s' = ebp (pcbs s (getPCB p)) \<and> intr s'"
proof -
  obtain s' where "halt status s = Resumes status s'" "proc_view s' (pop (curr_scheduled s - 1) st)"
    "user_pde s' = user_page (q - 1)" "tss_esp0 s' = esp0 (pcbs s (getPCB q))"
    "reg_esp s' = esp (pcbs s (getPCB p))" "reg_ebp s' = ebp (pcbs s (getPCB p))" "intr s'"
    by (rule halt_pops [OF assms, of status]) (rule that)
  then show ?thesis by blast
qed

text \<open>Two processes on the first terminal.\<close>

definition sample_two :: process where
  "sample_two = sample_process\<lparr>process_count := 2, highest_terminal_processes := (\<lambda>_. 0)(0 := 2),
     pcb_slots := (\<lambda>_. 0)(0 := 1, 1 := 1), user_pde := user_page 1,
     pcbs := (\<lambda>_. sample_pcb 1 0)(getPCB 2 := sample_pcb 2 (getPCB 1))\<rparr>"

lemma two_view: "proc_view sample_two ((\<lambda>_. [])(0 := [2, 1]))"
  by (simp add: proc_view_def all_procs_def sample_pcb_def getPCB_values sample_two_def)

lemma two_tables: "tables_set sample_two (getPCB 2)"
  by (simp add: tables_set_def sample_two_def sample_pcb_def fd_of_def sample_fd_def getPCB_values)

theorem halt_resumes_parent_witness:
  "\<exists>s'. halt 7 sample_two = Resumes 7 s' \<and> user_pde s' = user_page 0 \<and> reg_esp s' = 0x9000"
proof -
  have "curr_scheduled sample_two = 1" "pcbs sample_two (getPCB 2) = sample_pcb 2 (getPCB 1)"
    by (simp_all add: sample_two_def)
  then show ?thesis
    using halt_resumes_parent [OF two_view _ _ two_tables, of 1 "[]" 7] by (auto simp: sample_pcb_def)
qed

text \<open>What the child may do while it runs, as far as its parent depends on it: anything but change
  the links of the processes, the program page of its parent, or the terminal that is scheduled.\<close>

definition child_ran :: "u32 \<Rightarrow> 'a process_scheme \<Rightarrow> 'a process_scheme \<Rightarrow> bool" where
  "child_ran page s s' \<longleftrightarrow>
     list_all (\<lambda>p. process_num (pcbs s' (getPCB p)) = process_num (pcbs s (getPCB p))
       \<and> parent_task (pcbs s' (getPCB p)) = parent_task (pcbs s (getPCB p))
       \<and> esp (pcbs s' (getPCB p)) = esp (pcbs s (getPCB p)) \<and> ebp (pcbs s' (getPCB p)) = ebp (pcbs s (getPCB p))
       \<and> esp0 (pcbs s' (getPCB p)) = esp0 (pcbs s (getPCB p))) [1, 2, 3, 4, 5, 6]
     \<and> highest_terminal_processes s' = highest_terminal_processes s \<and> pcb_slots s' = pcb_slots s
     \<and> process_count s' = process_count s \<and> curr_scheduled s' = curr_scheduled s
     \<and> user_pde s' = user_pde s \<and> frames s' page = frames s page"

lemma child_ran_pcb:
  assumes "child_ran page s s'" "1 \<le> p" "p \<le> 6"
  shows "process_num (pcbs s' (getPCB p)) = process_num (pcbs s (getPCB p))"
    "parent_task (pcbs s' (getPCB p)) = parent_task (pcbs s (getPCB p))"
    "esp (pcbs s' (getPCB p)) = esp (pcbs s (getPCB p))" "ebp (pcbs s' (getPCB p)) = ebp (pcbs s (getPCB p))"
    "esp0 (pcbs s' (getPCB p)) = esp0 (pcbs s (getPCB p))"
proof -
  have "p \<in> {1, 2, 3, 4, 5, 6}" using assms(2,3) by auto
  then have "p \<in> set [1, 2, 3, 4, 5, 6]" by simp
  with assms(1) show "process_num (pcbs s' (getPCB p)) = process_num (pcbs s (getPCB p))"
    "parent_task (pcbs s' (getPCB p)) = parent_task (pcbs s (getPCB p))"
    "esp (pcbs s' (getPCB p)) = esp (pcbs s (getPCB p))" "ebp (pcbs s' (getPCB p)) = ebp (pcbs s (getPCB p))"
    "esp0 (pcbs s' (getPCB p)) = esp0 (pcbs s (getPCB p))"
    unfolding child_ran_def list_all_iff by blast+
qed

lemma child_ran_view:
  assumes "child_ran page s s'" "proc_view s st"
  shows "proc_view s' st"
proof -
  have "proc_view s' st = proc_view s st"
    using child_ran_pcb [OF assms(1)] proc_view_range [OF assms(2)] assms(1)
    by (intro proc_view_cong) (auto simp: child_ran_def)
  with assms(2) show ?thesis by simp
qed

lemma load_process_frames:
  assumes "load_process command i temp s = Enters e s'"
    and "user_pde s \<noteq> user_page (find_slot (pcb_slots s) 0 6)"
  shows "frames s' = (frames s)(user_pde s := mem s)"
  using assms unfolding load_process_def start_process_def Let_def
  by (auto simp: update_pcb_def flush_tlb_def Let_def split: if_splits option.splits prod.splits)

text \<open>A new process has its two standard files, with their tables, and no other.\<close>

lemma execute_tables:
  assumes "execute command s = Enters e s'"
  shows "tables_set s' (current_pcb s')"
proof -
  obtain i temp m where load: "load_process command i temp (s\<lparr>mem := m\<rparr>) = Enters e s'"
    by (rule execute_enters [OF assms])
  let ?k = "find_slot (pcb_slots s) 0 6"
  obtain b where b: "pcbs s' = (pcbs s)(getPCB (?k + 1) := b)"
    "file_array b = std_files (file_array (pcbs s (getPCB (?k + 1))))"
    "highest_terminal_processes s' = (highest_terminal_processes s)(curr_terminal s - 1 := ?k + 1)"
    "curr_terminal s' = curr_terminal s"
    by (rule load_process_enters [OF load]) (rule that, simp_all)
  then show ?thesis
    by (simp add: tables_set_def current_pcb_def fd_of_def std_files_def)
qed

lemma pop_push: "pop t (push t p st) = st"
  by (simp add: pop_def push_def)

text \<open>C4. A parent gets back what it had: after it has started a child with \<open>execute\<close> and the child
  has run and called \<open>halt\<close>, the table of processes, the stack registers and the program page
  of the parent, with all of its bytes, are those of the call.\<close>

theorem execute_halt_round_trip:
  assumes "exec_layout s sz" and "directory_ok s sz" and "command_at s command cmd"
    and "find_file (mem s) (filesys_addr s) (command_name cmd) = Some entry"
    and "whole_file s sz (of_int (inode_num entry))"
    and "proc_view s st" and "curr_terminal s \<in> {1, 2, 3}" and "curr_scheduled s = curr_terminal s"
    and "st (curr_terminal s - 1) = q # qs" and "user_pde s = user_page (q - 1)"
    and "execute command s = Enters e s'" and "child_ran (user_pde s) s' s''"
    and "tables_set s'' (current_pcb s')"
  shows "\<exists>s3. halt status s'' = Resumes status s3 \<and> proc_view s3 st
    \<and> reg_esp s3 = reg_esp s \<and> reg_ebp s3 = reg_ebp s \<and> user_pde s3 = user_pde s
    \<and> tss_esp0 s3 = esp0 (pcbs s (getPCB q))
    \<and> bytes (mem s3) PROG_PAGE 0x400000 = bytes (mem s) PROG_PAGE 0x400000"
proof -
  let ?t = "curr_terminal s - 1"
  have t0: "?t \<in> {0, 1, 2}" using assms(7) by auto
  have q: "q \<in> set (all_procs st)" using t0 assms(9) by (auto simp: all_procs_def)
  then have q6: "1 \<le> q" "q \<le> 6" using proc_view_range [OF assms(6)] by auto
  obtain p where p: "1 \<le> p" "p \<le> 6" "p \<notin> set (all_procs st)"
    "proc_view s' (push ?t p st)" "user_pde s' = user_page (p - 1)"
    "esp (pcbs s' (getPCB p)) = reg_esp s" "ebp (pcbs s' (getPCB p)) = reg_ebp s"
    "curr_terminal s' = curr_terminal s" "curr_scheduled s' = curr_scheduled s"
    "\<And>q. q \<in> set (all_procs st) \<Longrightarrow> pcbs s' (getPCB q) = pcbs s (getPCB q)"
    by (rule execute_pushes [OF assms(6,7,11)]) (rule that)
  have pq: "user_page (p - 1) \<noteq> user_page (q - 1)" using user_page_inject [OF p(1,2) q6] p(3) q by auto
  have free: "process_count s < 6" by (rule execute_enters [OF assms(11)])
  have saved: "frames s' (user_pde s) a = mem s a" if "in_region a PROG_PAGE 0x400000" for a
  proof -
    obtain m where m: "execute command s = (if is_elf (contents (mem s) (filesys_addr s) (of_int (inode_num entry)))
        then load_process command (int (length (command_name cmd))) entry (s\<lparr>mem := m\<rparr>)
        else Returns (- 1) (s\<lparr>mem := m\<rparr>))" "same_outside (frame s) 128 (mem s) m"
      by (rule execute_found [OF assms(1,3,2) free assms(4,5)]) (rule that)
    then have load: "load_process command (int (length (command_name cmd))) entry (s\<lparr>mem := m\<rparr>) = Enters e s'"
      using assms(11) by (simp split: if_splits)
    obtain b where "user_pde s' = user_page (find_slot (pcb_slots s) 0 6)"
      by (rule load_process_enters [OF load]) (rule that, simp)
    then have "frames s' = (frames s)(user_pde s := m)"
      using load_process_frames [OF load] p(5) pq assms(10) by simp
    moreover have "m a = mem s a"
      using m(2) disjoint_regions_not_in [OF _ that, of "frame s" 128] assms(1)
      by (auto simp: same_outside_def exec_layout_def)
    ultimately show ?thesis by simp
  qed
  note ran = child_ran_pcb [OF assms(12)]
  have view: "proc_view s'' (push ?t p st)" by (rule child_ran_view [OF assms(12) p(4)])
  have keep: "curr_scheduled s'' = curr_scheduled s'" "user_pde s'' = user_pde s'"
    "frames s'' (user_pde s) = frames s' (user_pde s)"
    using assms(12) by (simp_all add: child_ran_def)
  have sched: "curr_scheduled s'' \<in> {1, 2, 3}" using keep(1) p(9) assms(7,8) by simp
  have stack: "push ?t p st (curr_scheduled s'' - 1) = p # q # qs"
    using keep(1) p(9) assms(8,9) by (simp add: push_def)
  have "current_pcb s' = getPCB p"
    using proc_view_youngest [OF p(4) t0] p(8) by (simp add: current_pcb_def push_def)
  then have tables: "tables_set s'' (getPCB p)" using assms(13) by simp
  obtain s3 where s3: "halt status s'' = Resumes status s3" "proc_view s3 (pop (curr_scheduled s'' - 1) (push ?t p st))"
    "user_pde s3 = user_page (q - 1)" "tss_esp0 s3 = esp0 (pcbs s'' (getPCB q))"
    "reg_esp s3 = esp (pcbs s'' (getPCB p))" "reg_ebp s3 = ebp (pcbs s'' (getPCB p))"
    "user_pde s'' \<noteq> user_page (q - 1) \<Longrightarrow>
      mem s3 = (\<lambda>a. if in_region a PROG_PAGE 0x400000 then frames s'' (user_page (q - 1)) a else mem s'' a)"
    by (rule halt_pops [OF view sched stack tables, of status]) (rule that)
  have "bytes (mem s3) PROG_PAGE 0x400000 = bytes (mem s) PROG_PAGE 0x400000"
  proof (rule bytes_cong)
    fix i
    assume "i < (0x400000 :: nat)"
    then have a: "in_region (PROG_PAGE + of_nat i) PROG_PAGE 0x400000" by (intro in_region_add) simp_all
    then show "mem s3 (PROG_PAGE + of_nat i) = mem s (PROG_PAGE + of_nat i)"
      using s3(7) keep(2,3) p(5) pq saved [OF a] assms(10) by simp
  qed
  moreover have "pop (curr_scheduled s'' - 1) (push ?t p st) = st"
    using keep(1) p(9) assms(8) by (simp add: pop_push)
  ultimately show ?thesis
    using s3 ran p(1,2,6,7,10) q q6 assms(10) by (intro exI [of _ s3]) simp
qed

theorem execute_halt_round_trip_witness:
  "\<exists>e s' s3. execute 0x30000 sample_process = Enters e s' \<and> halt 0 s' = Resumes 0 s3
    \<and> proc_view s3 ((\<lambda>_. [])(0 := [1])) \<and> reg_esp s3 = 0x7FE800 \<and> user_pde s3 = user_page 0"
proof -
  obtain e s' where r: "execute 0x30000 sample_process = Enters e s'" by (rule sample_execute)
  have named: "find_file (mem sample_process) (filesys_addr sample_process) (command_name [97, 32, 120])
      = Some (load_dentry elf_image 0x10040)"
    by (simp add: sample_name sample_file)
  have ran: "child_ran (user_pde sample_process) s' s'" by (simp add: child_ran_def)
  from execute_halt_round_trip [OF sample_layout sample_dir sample_command named _ sample_view _ _ _ _ r ran
      execute_tables [OF r], of 1 "[]" 0]
  show ?thesis using r by (auto simp: sample_inode sample_whole)
qed

text \<open>C30. When a process ends on a terminal that is not displayed and has a regular file open, its
  \<open>halt\<close> closes the file of the same number of the displayed terminal's process, which is
  another process: the \<open>close\<close> entry of the table works on the displayed terminal.\<close>

theorem halt_closes_displayed_file:
  assumes "proc_view s st" and "curr_scheduled s \<in> {1, 2, 3}" and "curr_terminal s \<in> {1, 2, 3}"
    and "curr_scheduled s \<noteq> curr_terminal s"
    and "st (curr_scheduled s - 1) = p # q # ps" and "st (curr_terminal s - 1) = r # rs"
    and "tables_set s (getPCB p)" and "2 \<le> fd" and "fd < 8"
    and "flags (fd_of s (getPCB p) fd) \<noteq> 0" and "fops_table (fd_of s (getPCB p) fd) = Some File_table"
  shows "r \<noteq> p \<and> (\<exists>s'. halt status s = Resumes status s' \<and> flags (fd_of s' (getPCB r) fd) = 0)"
proof
  have t0: "curr_terminal s - 1 \<in> {0, 1, 2}" "curr_scheduled s - 1 \<in> {0, 1, 2}" using assms(2,3) by auto
  show "r \<noteq> p"
  proof -
    have "distinct (all_procs st)" using assms(1) by (simp add: proc_view_def)
    then show ?thesis using t0 assms(4-6) by (auto simp: all_procs_def)
  qed
  have cur: "current_pcb s = getPCB r"
    using proc_view_youngest [OF assms(1) t0(1)] assms(6) by (simp add: current_pcb_def)
  obtain s' s1 s2 :: "'a process_scheme" where h: "halt status s = Resumes status s'"
    "close_files (getPCB p) [0, 1, 2, 3, 4, 5, 6, 7] s1 = Some s2" "pcbs s1 = pcbs s"
    "current_pcb s1 = current_pcb s" "\<And>x fd. fd_of s' x fd = fd_of s2 x fd"
    by (rule halt_pops [OF assms(1,2,5,7), of status]) (rule that)
  have "fd_of s1 (getPCB p) fd = fd_of s (getPCB p) fd" using h(3) by (simp add: fd_of_def)
  moreover have "fd \<in> set [0, 1, 2, 3, 4, 5, 6, 7]" using assms(8,9) by auto
  ultimately have "flags (fd_of s2 (current_pcb s1) fd) = 0"
    using close_files_current [OF h(2), of fd] assms(8-11) by simp
  then show "\<exists>s'. halt status s = Resumes status s' \<and> flags (fd_of s' (getPCB r) fd) = 0"
    using h(1,4,5) cur by (intro exI [of _ s']) simp
qed

text \<open>Process 2 runs under the shell 1 on the first terminal; the second terminal, with its shell 3,
  is displayed. Both 2 and 3 have a regular file open.\<close>

definition sample_three :: process where
  "sample_three = sample_two\<lparr>curr_terminal := 2, process_count := 3,
     highest_terminal_processes := (\<lambda>_. 0)(0 := 2, 1 := 3), pcb_slots := (\<lambda>_. 0)(0 := 1, 1 := 1, 2 := 1),
     pcbs := (\<lambda>_. sample_pcb 1 0)
       (getPCB 2 := (sample_pcb 2 (getPCB 1))\<lparr>file_array := (\<lambda>_. sample_fd None 0)(2 := sample_fd (Some File_table) 3)\<rparr>,
        getPCB 3 := (sample_pcb 3 0)\<lparr>file_array := (\<lambda>_. sample_fd None 0)(2 := sample_fd (Some File_table) 3)\<rparr>)\<rparr>"

theorem halt_closes_displayed_file_witness:
  "flags (fd_of sample_three (getPCB 3) 2) = 3
    \<and> (\<exists>s'. halt 0 sample_three = Resumes 0 s' \<and> flags (fd_of s' (getPCB 3) 2) = 0)"
proof -
  have view: "proc_view sample_three ((\<lambda>_. [])(0 := [2, 1], 1 := [3]))"
    by (simp add: proc_view_def all_procs_def sample_pcb_def getPCB_values sample_three_def)
  have tables: "tables_set sample_three (getPCB 2)"
    by (simp add: tables_set_def sample_three_def sample_fd_def fd_of_def getPCB_values)
  have fd: "fd_of sample_three (getPCB 2) 2 = sample_fd (Some File_table) 3"
    "fd_of sample_three (getPCB 3) 2 = sample_fd (Some File_table) 3"
    "curr_scheduled sample_three = 1" "curr_terminal sample_three = 2"
    by (simp_all add: sample_three_def sample_two_def fd_of_def getPCB_values)
  show ?thesis
    using halt_closes_displayed_file [OF view _ _ _ _ _ tables, of 1 "[]" 3 "[]" 2 0] fd
    by (simp add: sample_fd_def)
qed

end
