(* ===== verification/Sys_Calls_Laws.thy ===== *)
theory Sys_Calls_Laws
  imports Lifecycle
begin

text \<open>
  The file array of a process as a finite map from descriptors to open files: \<open>open\<close> adds the
  least free descriptor, \<open>close\<close> removes one, reading moves the position, and every call that
  fails leaves the map as it is.
\<close>

section \<open>The descriptors in use\<close>

abbreviation all_fds :: "int list" where "all_fds \<equiv> [0, 1, 2, 3, 4, 5, 6, 7]"

definition open_files :: "pcb \<Rightarrow> int \<Rightarrow> (ftable option \<times> int \<times> int) option" where
  "open_files b fd = (if fd \<in> set all_fds \<and> flags (file_array b fd) \<noteq> 0
     then Some (fops_table (file_array b fd), inode (file_array b fd), f_pos (file_array b fd)) else None)"

text \<open>The two standard files are open, open files have bit 0 in their flags and a table, and the
  counter is the number of open files.\<close>

definition files_ok :: "pcb \<Rightarrow> bool" where
  "files_ok b \<longleftrightarrow> flags (file_array b 0) \<noteq> 0 \<and> flags (file_array b 1) \<noteq> 0
     \<and> list_all (\<lambda>fd. flags (file_array b fd) \<noteq> 0 \<longrightarrow>
         odd (flags (file_array b fd)) \<and> fops_table (file_array b fd) \<noteq> None) all_fds
     \<and> file_arr_size b = int (length (filter (\<lambda>fd. flags (file_array b fd) \<noteq> 0) all_fds))"

lemma files_ok_std: "files_ok b \<Longrightarrow> flags (file_array b 0) \<noteq> 0 \<and> flags (file_array b 1) \<noteq> 0"
  unfolding files_ok_def by blast

lemma files_ok_entry:
  "files_ok b \<Longrightarrow> fd \<in> set all_fds \<Longrightarrow> flags (file_array b fd) \<noteq> 0 \<Longrightarrow>
   odd (flags (file_array b fd)) \<and> fops_table (file_array b fd) \<noteq> None"
  unfolding files_ok_def list_all_iff by blast

lemma files_ok_size:
  "files_ok b \<Longrightarrow> file_arr_size b = int (length (filter (\<lambda>fd. flags (file_array b fd) \<noteq> 0) all_fds))"
  unfolding files_ok_def by blast

lemma files_okI:
  "flags (file_array b 0) \<noteq> 0 \<Longrightarrow> flags (file_array b 1) \<noteq> 0 \<Longrightarrow>
   list_all (\<lambda>fd. flags (file_array b fd) \<noteq> 0 \<longrightarrow>
         odd (flags (file_array b fd)) \<and> fops_table (file_array b fd) \<noteq> None) all_fds \<Longrightarrow>
   file_arr_size b = int (length (filter (\<lambda>fd. flags (file_array b fd) \<noteq> 0) all_fds)) \<Longrightarrow> files_ok b"
  unfolding files_ok_def by blast

lemma filter_add:
  "distinct xs \<Longrightarrow> x \<in> set xs \<Longrightarrow> \<not> P x \<Longrightarrow>
   length (filter (\<lambda>y. y = x \<or> P y) xs) = Suc (length (filter P xs))"
proof (induction xs)
  case (Cons a xs)
  show ?case
  proof (cases "a = x")
    case True
    then have "filter (\<lambda>y. y = x \<or> P y) xs = filter P xs" using Cons.prems(1) by (auto intro: filter_cong)
    then show ?thesis using True Cons.prems(3) by simp
  next
    case False
    then show ?thesis using Cons by simp
  qed
qed simp

lemma filter_full: "length (filter P xs) < length xs \<Longrightarrow> \<exists>x \<in> set xs. \<not> P x"
  by (metis filter_True less_irrefl)

lemma find_fd_spec:
  "find_fd files fd n = fd + int (length (takeWhile (\<lambda>k. odd (flags (files (fd + int k)))) [0..<n]))"
proof (induction files fd n rule: find_fd.induct)
  case (2 files fd n)
  have "[0..<Suc n] = 0 # map Suc [0..<n]" by (simp add: map_Suc_upt upt_conv_Cons)
  moreover have "(1 AND flags (files fd) = 0) = even (flags (files fd))"
    by (simp add: one_and_eq even_iff_mod_2_eq_zero)
  ultimately show ?case using 2 by (simp add: takeWhile_map o_def add.assoc)
qed simp

text \<open>With fewer than eight open files, the search finds the least descriptor that is not in use.\<close>

lemma find_fd_free:
  assumes "files_ok b" "file_arr_size b < 8"
  defines "fd \<equiv> find_fd (file_array b) 2 6"
  shows "2 \<le> fd" "fd < 8" "flags (file_array b fd) = 0"
    "\<And>j. 0 \<le> j \<Longrightarrow> j < fd \<Longrightarrow> flags (file_array b j) \<noteq> 0"
proof -
  let ?odd = "\<lambda>k. odd (flags (file_array b (2 + int k)))"
  let ?l = "length (takeWhile ?odd [0..<6])"
  have fd: "fd = 2 + int ?l" by (simp add: fd_def find_fd_spec)
  then show "2 \<le> fd" by simp
  have "length (filter (\<lambda>fd. flags (file_array b fd) \<noteq> 0) all_fds) < length all_fds"
    using assms(1,2) by (simp add: files_ok_def)
  then obtain i where i: "i \<in> set all_fds" "flags (file_array b i) = 0" using filter_full by blast
  have "i \<noteq> 0 \<and> i \<noteq> 1" using assms(1) i(2) by (auto simp: files_ok_def)
  then have i2: "2 \<le> i" "i < 8" using i(1) by auto
  have le: "?l \<le> nat (i - 2)"
  proof (rule ccontr)
    assume "\<not> ?l \<le> nat (i - 2)"
    then have "?odd ([0..<6] ! nat (i - 2))" by (intro takeWhile_holds [of _ ?odd]) simp
    then show False using i(2) i2 by simp
  qed
  then show lt: "fd < 8" using i2 fd by linarith
  have "?l < length [0..<6]" using lt fd by simp
  from nth_length_takeWhile [OF this] have "even (flags (file_array b fd))" using lt fd by simp
  moreover have "fd \<in> set all_fds" using \<open>2 \<le> fd\<close> lt by auto
  ultimately show "flags (file_array b fd) = 0" using assms(1) unfolding files_ok_def list_all_iff by blast
  fix j
  assume j: "0 \<le> j" "j < fd"
  show "flags (file_array b j) \<noteq> 0"
  proof (cases "j < 2")
    case True
    then have "j = 0 \<or> j = 1" using j(1) by auto
    then show ?thesis using assms(1) by (auto simp: files_ok_def)
  next
    case False
    then have lt: "nat (j - 2) < ?l" using j fd by simp
    then have "?odd ([0..<6] ! nat (j - 2))" by (rule takeWhile_holds)
    moreover have "nat (j - 2) < 6" using lt le i2 by linarith
    ultimately show ?thesis using False j by auto
  qed
qed

section \<open>open and close on the map\<close>

lemma table_open_process [simp]:
  "pcbs (table_open t f s) = pcbs s" "highest_terminal_processes (table_open t f s) = highest_terminal_processes s"
  "curr_terminal (table_open t f s) = curr_terminal s" "mem (table_open t f s) = mem s"
  by (cases t; simp add: table_open_def dir_open_def rtc_open_def Let_def inb_def outb_def cli_def sti_def enable_irq_def)+

lemma fd_setup_known:
  "file_type entry \<in> {0, 1, 2} \<Longrightarrow> fops_table (fd_setup entry f) \<noteq> None"
  "flags f = 1 \<Longrightarrow> odd (flags (fd_setup entry f)) \<and> flags (fd_setup entry f) \<noteq> 0"
  by (auto simp: fd_setup_def)

text \<open>What an entry of the directory becomes in the file array.\<close>

definition entry_file :: "dentry \<Rightarrow> ftable option \<times> int \<times> int" where
  "entry_file entry =
     (if file_type entry = 0 then (Some Rtc_table, 0, 0)
      else if file_type entry = 1 then (Some Dir_table, 0, 0)
      else (Some File_table, inode_num entry, 0))"

text \<open>The block after \<open>open\<close> has stored the new file in its entry \<open>fd\<close>.\<close>

definition add_file :: "dentry \<Rightarrow> int \<Rightarrow> pcb \<Rightarrow> pcb" where
  "add_file entry fd b = b\<lparr>file_array := (file_array b)
     (fd := (fd_setup entry ((file_array b fd)\<lparr>flags := 1\<rparr>))\<lparr>f_pos := 0\<rparr>),
     file_arr_size := file_arr_size b + 1\<rparr>"

definition remove_file :: "int \<Rightarrow> pcb \<Rightarrow> pcb" where
  "remove_file fd b = b\<lparr>file_arr_size := file_arr_size b - 1,
     file_array := (file_array b)(fd := (file_array b fd)\<lparr>flags := 0\<rparr>)\<rparr>"

lemma open_files_add:
  assumes "file_type entry \<in> {0, 1, 2}" "fd \<in> set all_fds"
  shows "open_files (add_file entry fd b) = (open_files b)(fd := Some (entry_file entry))"
  using assms by (auto simp: open_files_def add_file_def fd_setup_def entry_file_def fun_eq_iff)

lemma open_files_remove: "open_files (remove_file fd b) = (open_files b)(fd := None)"
  by (auto simp: open_files_def remove_file_def fun_eq_iff)

lemma files_ok_add:
  assumes ok: "files_ok b" and new: "file_type entry \<in> {0, 1, 2}" "fd \<in> set all_fds" "flags (file_array b fd) = 0"
  shows "files_ok (add_file entry fd b)"
proof -
  let ?b = "add_file entry fd b"
  have at: "flags (file_array ?b j) = (if j = fd then flags (fd_setup entry ((file_array b fd)\<lparr>flags := 1\<rparr>))
      else flags (file_array b j))" "fops_table (file_array ?b j)
      = (if j = fd then fops_table (fd_setup entry ((file_array b fd)\<lparr>flags := 1\<rparr>)) else fops_table (file_array b j))" for j
    by (simp_all add: add_file_def)
  have set: "odd (flags (fd_setup entry ((file_array b fd)\<lparr>flags := 1\<rparr>)))"
    "flags (fd_setup entry ((file_array b fd)\<lparr>flags := 1\<rparr>)) \<noteq> 0"
    "fops_table (fd_setup entry ((file_array b fd)\<lparr>flags := 1\<rparr>)) \<noteq> None"
    using fd_setup_known(1) [OF new(1)] fd_setup_known(2) [of "(file_array b fd)\<lparr>flags := 1\<rparr>" entry] by simp_all
  have "(\<lambda>j. flags (file_array ?b j) \<noteq> 0) = (\<lambda>j. j = fd \<or> flags (file_array b j) \<noteq> 0)"
    using at(1) set(2) by (auto simp: fun_eq_iff)
  then have "length (filter (\<lambda>j. flags (file_array ?b j) \<noteq> 0) all_fds)
      = Suc (length (filter (\<lambda>j. flags (file_array b j) \<noteq> 0) all_fds))"
    using filter_add [of all_fds fd "\<lambda>j. flags (file_array b j) \<noteq> 0"] new(2,3) by simp
  moreover have "list_all (\<lambda>j. flags (file_array ?b j) \<noteq> 0 \<longrightarrow>
      odd (flags (file_array ?b j)) \<and> fops_table (file_array ?b j) \<noteq> None) all_fds"
    using files_ok_entry [OF ok] set unfolding list_all_iff at by (intro ballI) (simp split: if_splits)
  moreover have "flags (file_array ?b 0) \<noteq> 0" "flags (file_array ?b 1) \<noteq> 0"
    using files_ok_std [OF ok] new(3) at(1) [of 0] at(1) [of 1] by (auto split: if_splits)
  moreover have "file_arr_size ?b = file_arr_size b + 1" by (simp add: add_file_def)
  ultimately show ?thesis using files_ok_size [OF ok] by (intro files_okI) simp_all
qed

lemma files_ok_remove:
  assumes ok: "files_ok b" and old: "2 \<le> fd" "fd < 8" "flags (file_array b fd) \<noteq> 0"
  shows "files_ok (remove_file fd b)"
proof -
  let ?b = "remove_file fd b"
  have at: "flags (file_array ?b j) = (if j = fd then 0 else flags (file_array b j))"
    "fops_table (file_array ?b j) = fops_table (file_array b j)" for j
    by (simp_all add: remove_file_def)
  have fd: "fd \<in> set all_fds" using old(1,2) by auto
  have "(\<lambda>j. flags (file_array b j) \<noteq> 0) = (\<lambda>j. j = fd \<or> flags (file_array ?b j) \<noteq> 0)"
    using at(1) old(3) by (auto simp: fun_eq_iff)
  then have "length (filter (\<lambda>j. flags (file_array b j) \<noteq> 0) all_fds)
      = Suc (length (filter (\<lambda>j. flags (file_array ?b j) \<noteq> 0) all_fds))"
    using filter_add [of all_fds fd "\<lambda>j. flags (file_array ?b j) \<noteq> 0"] fd at(1) [of fd] by simp
  moreover have "list_all (\<lambda>j. flags (file_array ?b j) \<noteq> 0 \<longrightarrow>
      odd (flags (file_array ?b j)) \<and> fops_table (file_array ?b j) \<noteq> None) all_fds"
    using files_ok_entry [OF ok] unfolding list_all_iff at by (intro ballI) (simp split: if_splits)
  moreover have "flags (file_array ?b 0) \<noteq> 0" "flags (file_array ?b 1) \<noteq> 0"
    using files_ok_std [OF ok] old(1) at(1) by simp_all
  moreover have "file_arr_size ?b = file_arr_size b - 1" by (simp add: remove_file_def)
  ultimately show ?thesis using files_ok_size [OF ok] by (intro files_okI) simp_all
qed

lemma sys_open_run:
  assumes layout: "exec_layout s sz" "directory_ok s sz" and name: "filename \<noteq> 0"
    and entry: "find_file (mem s) (filesys_addr s) (str_prefix (mem s) filename 32) = Some entry"
    and kind: "file_type entry \<in> {0, 1, 2}"
    and ok: "files_ok (pcbs s (current_pcb s))" and room: "file_arr_size (pcbs s (current_pcb s)) < 8"
  defines "fd \<equiv> find_fd (file_array (pcbs s (current_pcb s))) 2 6"
  obtains m t where "sys_open filename s = Done (fd, table_open t filename
      (s\<lparr>mem := m, pcbs := (pcbs s)(current_pcb s := add_file entry fd (pcbs s (current_pcb s)))\<rparr>))"
    and "fst (entry_file entry) = Some t" and "\<And>a. \<not> in_region a (frame s) 64 \<Longrightarrow> m a = mem s a"
proof -
  let ?fs = "filesys_addr s" and ?p = "current_pcb s"
  have lay: "sz \<le> 4294967296" "disjoint_regions (frame s) 128 ?fs sz" "frame s \<noteq> 0"
    and img: "0 \<le> load_int (mem s) ?fs" "entries_in_image ?fs sz (nat (load_int (mem s) ?fs))"
    using layout by (simp_all add: exec_layout_def directory_ok_def)
  have dis: "disjoint_regions (frame s) 64 ?fs sz"
    using disjoint_regions_part [OF lay(2), of 0 64] by simp
  obtain q where q: "read_dentry_by_name ?fs filename (frame s) (mem s) = (0, copy (mem s) (frame s) q 64)"
    "load_dentry (copy (mem s) (frame s) q 64) (frame s) = entry"
    using read_dentry_by_name_file [OF name lay(3) img lay(1) dis] entry by auto
  have fd: "\<not> fd \<ge> 8" using find_fd_free(2) [OF ok room] by (simp add: fd_def)
  have kind_of: "fops_table (fd_setup entry f) = fst (entry_file entry)" for f
    using kind by (auto simp: fd_setup_def entry_file_def)
  let ?s = "s\<lparr>mem := copy (mem s) (frame s) q 64,
     pcbs := (pcbs s)(?p := add_file entry fd (pcbs s ?p))\<rparr>"
  obtain t where t: "fst (entry_file entry) = Some t" using kind by (auto simp: entry_file_def)
  have "sys_open filename s = Done (fd, table_open t filename ?s)"
    using q fd t kind_of room unfolding sys_open_def Let_def
    by (simp add: fd_def [symmetric] update_fd_def update_pcb_def fd_of_def add_file_def fun_upd_upd)
  from that [OF this t] show thesis by (simp add: copy_outside)
qed

lemma sys_open_adds:
  assumes layout: "exec_layout s sz" "directory_ok s sz" and name: "filename \<noteq> 0"
    and entry: "find_file (mem s) (filesys_addr s) (str_prefix (mem s) filename 32) = Some entry"
    and kind: "file_type entry \<in> {0, 1, 2}"
    and ok: "files_ok (pcbs s (current_pcb s))" and room: "file_arr_size (pcbs s (current_pcb s)) < 8"
  defines "fd \<equiv> find_fd (file_array (pcbs s (current_pcb s))) 2 6"
  obtains s' where "sys_open filename s = Done (fd, s')"
    and "pcbs s' = (pcbs s)(current_pcb s := add_file entry fd (pcbs s (current_pcb s)))"
    and "current_pcb s' = current_pcb s"
proof -
  obtain m t where "sys_open filename s = Done (fd, table_open t filename
      (s\<lparr>mem := m, pcbs := (pcbs s)(current_pcb s := add_file entry fd (pcbs s (current_pcb s)))\<rparr>))"
    unfolding fd_def by (rule sys_open_run [OF assms(1-7)])
  from that [OF this] show thesis by (simp add: current_pcb_def)
qed

section \<open>Reading a file\<close>

lemma sint_of_nat_u32: "n < 2147483648 \<Longrightarrow> sint (of_nat n :: u32) = int n"
  by (simp add: signed_of_nat signed_take_bit_int_eq_self)

text \<open>One read that starts within the file. The kernel stops after as many bytes as the file has, not
  at the end of the file.\<close>

lemma file_read_run:
  fixes len pos :: nat
  assumes fs: "filesys_addr s mod 0x1000 = 0"
    and f: "inode (fd_of s (current_pcb s) fd) = ii" "ino = of_int ii"
      "f_pos (fd_of s (current_pcb s) fd) = int pos"
    and n: "n = min (file_length (mem s) (filesys_addr s) ino) len" "0 < len" "len < 2147483648" "pos + n < 2147483648"
      "pos \<le> file_length (mem s) (filesys_addr s) ino"
    and img: "file_in_image (mem s) (filesys_addr s) sz ino (pos + n)"
    and buf: "\<And>i. i < n \<Longrightarrow> \<not> in_region (buf + of_nat i) (filesys_addr s) sz"
  shows "file_read fd buf (int len) s = (int n, update_fd (current_pcb s) fd (\<lambda>f. f\<lparr>f_pos := int (pos + n)\<rparr>)
      (s\<lparr>mem := fill_with (mem s) buf n (\<lambda>i. mem s (data_addr (mem s) (filesys_addr s) ino (pos + i)))\<rparr>))"
proof -
  have u: "unat (of_nat len :: u32) = len" "unat (of_nat pos :: u32) = pos" using n by (intro unat_of_nat_small; simp)+
  have read: "read_data (filesys_addr s) ino (of_nat pos) buf (of_nat len) (mem s)
      = (of_nat n, fill_with (mem s) buf n (\<lambda>i. mem s (data_addr (mem s) (filesys_addr s) ino (pos + i))))"
    using read_data_copies [OF fs, where offset = "of_nat pos" and inode = ino and len = "of_nat len"
        and m = "mem s" and sz = sz and buf = buf] img buf n u by simp
  have sint: "sint (of_nat n :: u32) = int n" "sint (of_nat pos + of_nat n :: u32) = int (pos + n)"
    using n sint_of_nat_u32 [of n] sint_of_nat_u32 [of "pos + n"] by simp_all
  show ?thesis
    using n(2) f read sint unfolding file_read_def Let_def
    by (simp add: update_fd_def update_pcb_def fd_of_def)
qed

lemma fill_with_image:
  assumes "\<And>i. i < n \<Longrightarrow> \<not> in_region (buf + of_nat i) fs sz"
  shows "same_image fs sz m (fill_with m buf n g)"
  unfolding same_image_def
proof (intro allI impI)
  fix a
  assume "in_region a fs sz"
  then have "\<not> in_region a buf n" using assms by (auto elim!: in_regionE [of a buf n])
  then show "fill_with m buf n g a = m a" by (simp add: fill_with_def)
qed

text \<open>One read within the file.\<close>

lemma file_read_chunk:
  fixes n pos :: nat
  assumes layout: "exec_layout s sz" and whole: "whole_file s sz ino"
    and f: "inode (fd_of s (current_pcb s) fd) = ii" "ino = of_int ii"
      "f_pos (fd_of s (current_pcb s) fd) = int pos"
    and n: "0 < n" "pos + n \<le> file_length (mem s) (filesys_addr s) ino" "pos + n < 2147483648"
    and buf: "\<And>i. i < n \<Longrightarrow> \<not> in_region (buf + of_nat i) (filesys_addr s) sz"
  obtains m where "file_read fd buf (int n) s = (int n, update_fd (current_pcb s) fd (\<lambda>f. f\<lparr>f_pos := int (pos + n)\<rparr>) (s\<lparr>mem := m\<rparr>))"
    and "bytes m buf n = take n (drop pos (contents (mem s) (filesys_addr s) ino))"
    and "same_image (filesys_addr s) sz (mem s) m"
proof (rule that)
  let ?fs = "filesys_addr s" and ?g = "\<lambda>i. mem s (data_addr (mem s) (filesys_addr s) ino (pos + i))"
  have "file_in_image (mem s) ?fs sz ino (pos + n)"
    using whole by (intro file_in_image_mono [OF _ n(2)]) (simp add: whole_file_def)
  then show "file_read fd buf (int n) s = (int n, update_fd (current_pcb s) fd (\<lambda>f. f\<lparr>f_pos := int (pos + n)\<rparr>)
      (s\<lparr>mem := fill_with (mem s) buf n ?g\<rparr>))"
    using n buf layout by (intro file_read_run [OF _ f, where sz = sz]) (simp_all add: exec_layout_def)
  have "bytes (fill_with (mem s) buf n ?g) buf n = map ?g [0..<n]" using n by (intro bytes_fill_with) simp
  also have "\<dots> = take n (drop pos (contents (mem s) ?fs ino))"
    using n by (intro nth_equalityI) (simp_all add: contents_def file_bytes_def)
  finally show "bytes (fill_with (mem s) buf n ?g) buf n = take n (drop pos (contents (mem s) ?fs ino))" .
  show "same_image ?fs sz (mem s) (fill_with (mem s) buf n ?g)" by (rule fill_with_image [OF buf])
qed

section \<open>Properties\<close>

text \<open>C16. \<open>open\<close> of a name that the directory has, in a process with fewer than eight open files,
  returns the least descriptor that is not in use, from 2 on, and binds exactly it, at position 0,
  to the table of the entry's type; other processes keep their files. It never faults.\<close>

theorem sys_open_allocates:
  assumes "exec_layout s sz" and "directory_ok s sz" and "filename \<noteq> 0"
    and "find_file (mem s) (filesys_addr s) (str_prefix (mem s) filename 32) = Some entry"
    and "file_type entry \<in> {0, 1, 2}" and "b = pcbs s (current_pcb s)"
    and "files_ok b" and "file_arr_size b < 8"
  shows "\<exists>fd s'. sys_open filename s = Done (fd, s') \<and> 2 \<le> fd \<and> fd < 8 \<and> open_files b fd = None
    \<and> {0..<fd} \<subseteq> dom (open_files b)
    \<and> open_files (pcbs s' (current_pcb s')) = (open_files b)(fd := Some (entry_file entry))
    \<and> files_ok (pcbs s' (current_pcb s')) \<and> pcbs s' = (pcbs s)(current_pcb s := pcbs s' (current_pcb s))"
proof -
  let ?fd = "find_fd (file_array b) 2 6"
  note free = find_fd_free [OF assms(7,8)]
  obtain s' where s': "sys_open filename s = Done (?fd, s')"
    "pcbs s' = (pcbs s)(current_pcb s := add_file entry ?fd b)" "current_pcb s' = current_pcb s"
    unfolding assms(6)
    by (rule sys_open_adds [OF assms(1-5)]) (use assms(6-8) in simp_all)
  have fd: "?fd \<in> set all_fds" using free(1,2) by auto
  have none: "open_files b ?fd = None" using free(3) by (simp add: open_files_def)
  have dom: "{0..<?fd} \<subseteq> dom (open_files b)"
  proof
    fix j
    assume "j \<in> {0..<?fd}"
    then have j: "0 \<le> j" "j < ?fd" by simp_all
    then have "j \<in> set all_fds" using free(2) by auto
    then show "j \<in> dom (open_files b)" using free(4) [OF j] by (simp add: open_files_def dom_def)
  qed
  have "pcbs s' (current_pcb s') = add_file entry ?fd b" using s'(2,3) by simp
  then show ?thesis
    using s' free(1,2) none dom open_files_add [OF assms(5) fd, of b] files_ok_add [OF assms(7,5) fd free(3)]
    by (intro exI [of _ ?fd] exI [of _ s']) (simp add: assms(6))
qed

lemma sample_entry_type: "file_type (load_dentry elf_image 0x10040) = 2"
proof -
  have "load32 elf_image 0x10060 = 2" by (simp add: load32_def elf_image_def sample_image_def)
  then show ?thesis by (simp add: load_dentry_def load_int_def)
qed

lemma sample_files: "files_ok (pcbs sample_process (current_pcb sample_process))"
  "file_arr_size (pcbs sample_process (current_pcb sample_process)) = 2"
  by (simp_all add: files_ok_def sample_pcb_def sample_fd_def)

lemma sample_open_name:
  "find_file (mem sample_process) (filesys_addr sample_process) (str_prefix (mem sample_process) 0x10040 32)
    = Some (load_dentry elf_image 0x10040)"
proof -
  have "str_prefix elf_image 0x10040 32 = [97]"
    using str_prefix_Suc [of elf_image "0x10040" 31] str_prefix_Suc [of elf_image "0x10041" 30]
    by (simp add: elf_image_def sample_image_def)
  then show ?thesis by (simp add: sample_file)
qed

theorem sys_open_allocates_witness:
  "\<exists>fd s'. sys_open 0x10040 sample_process = Done (fd, s')
    \<and> open_files (pcbs s' (current_pcb s')) fd = Some (Some File_table, 0, 0)"
proof -
  have "file_type (load_dentry elf_image 0x10040) \<in> {0, 1, 2}" by (simp add: sample_entry_type)
  moreover have "entry_file (load_dentry elf_image 0x10040) = (Some File_table, 0, 0)"
    by (simp add: entry_file_def sample_entry_type sample_inode)
  ultimately show ?thesis
    using sys_open_allocates [OF sample_layout sample_dir _ sample_open_name _ refl sample_files(1)] sample_files(2)
    by auto
qed

text \<open>C17. Opening and closing: \<open>close\<close> on the descriptor that \<open>open\<close> returned succeeds and restores
  the open files of the process and their number; a second \<open>close\<close> fails and changes nothing.\<close>

theorem open_close_round_trip:
  assumes "exec_layout s sz" and "directory_ok s sz" and "filename \<noteq> 0"
    and "find_file (mem s) (filesys_addr s) (str_prefix (mem s) filename 32) = Some entry"
    and "file_type entry \<in> {0, 1, 2}" and "b = pcbs s (current_pcb s)"
    and "files_ok b" and "file_arr_size b < 8"
  shows "\<exists>fd s' s''. sys_open filename s = Done (fd, s') \<and> sys_close fd s' = (0, s'')
    \<and> open_files (pcbs s'' (current_pcb s'')) = open_files b \<and> files_ok (pcbs s'' (current_pcb s''))
    \<and> file_arr_size (pcbs s'' (current_pcb s'')) = file_arr_size b \<and> sys_close fd s'' = (- 1, s'')"
proof -
  let ?fd = "find_fd (file_array b) 2 6"
  note free = find_fd_free [OF assms(7,8)]
  obtain s' where s': "sys_open filename s = Done (?fd, s')"
    "pcbs s' = (pcbs s)(current_pcb s := add_file entry ?fd b)" "current_pcb s' = current_pcb s"
    unfolding assms(6)
    by (rule sys_open_adds [OF assms(1-5)]) (use assms(6-8) in simp_all)
  have fd: "?fd \<in> set all_fds" using free(1,2) by auto
  note ok' = files_ok_add [OF assms(7,5) fd free(3)]
  have b': "pcbs s' (current_pcb s') = add_file entry ?fd b" using s'(2,3) by simp
  have set: "flags (file_array (add_file entry ?fd b) ?fd) \<noteq> 0"
    using fd_setup_known(2) [of "(file_array b ?fd)\<lparr>flags := 1\<rparr>" entry] by (simp add: add_file_def)
  let ?s = "update_pcb (current_pcb s') (remove_file ?fd) s'"
  have close: "sys_close ?fd s' = (0, ?s)"
    using free(1,2) set b' by (simp add: sys_close_def Let_def update_fd_def update_pcb_def fd_of_def remove_file_def)
  have cur: "current_pcb ?s = current_pcb s'" by (simp add: current_pcb_def update_pcb_def)
  then have b'': "pcbs ?s (current_pcb ?s) = remove_file ?fd (add_file entry ?fd b)"
    using b' by (simp add: update_pcb_def)
  have "sys_close ?fd ?s = (- 1, ?s)"
    using b'' by (simp add: sys_close_def Let_def fd_of_def remove_file_def)
  moreover have "open_files (pcbs ?s (current_pcb ?s)) = open_files b"
    using free(3) unfolding b'' open_files_remove open_files_add [OF assms(5) fd] by (simp add: open_files_def fun_eq_iff)
  moreover have "files_ok (pcbs ?s (current_pcb ?s))"
    unfolding b'' by (rule files_ok_remove [OF ok' free(1,2) set])
  moreover have "file_arr_size (pcbs ?s (current_pcb ?s)) = file_arr_size b"
    unfolding b'' by (simp add: remove_file_def add_file_def)
  ultimately show ?thesis using s'(1) close by blast
qed

theorem open_close_round_trip_witness:
  "\<exists>fd s' s''. sys_open 0x10040 sample_process = Done (fd, s') \<and> sys_close fd s' = (0, s'')
    \<and> file_arr_size (pcbs s'' (current_pcb s'')) = 2 \<and> sys_close fd s'' = (- 1, s'')"
proof -
  have "file_type (load_dentry elf_image 0x10040) \<in> {0, 1, 2}" by (simp add: sample_entry_type)
  then show ?thesis
    using open_close_round_trip [OF sample_layout sample_dir _ sample_open_name _ refl sample_files(1)] sample_files(2)
    by auto
qed

text \<open>C19. Reading in steps: reads of \<open>n\<close> bytes each, from the start of an open regular file,
  deliver the successive pieces of its contents as long as they lie within the file.\<close>

theorem file_read_sequential:
  fixes n k :: nat
  assumes "exec_layout s sz" and "whole_file s sz (of_int i)"
    and "inode (fd_of s (current_pcb s) fd) = i" and "f_pos (fd_of s (current_pcb s) fd) = 0"
    and "0 < n" and "Suc k * n \<le> file_length (mem s) (filesys_addr s) (of_int i)" and "Suc k * n < 2147483648"
    and "disjoint_regions buf n (filesys_addr s) sz"
  shows "let s' = ((\<lambda>s. snd (file_read fd buf (int n) s)) ^^ k) s
    in fst (file_read fd buf (int n) s') = int n
     \<and> bytes (mem (snd (file_read fd buf (int n) s'))) buf n
       = take n (drop (k * n) (contents (mem s) (filesys_addr s) (of_int i)))"
proof -
  let ?fs = "filesys_addr s" and ?p = "current_pcb s" and ?read = "file_read fd buf (int n)"
  let ?s = "\<lambda>k. ((\<lambda>s. snd (?read s)) ^^ k) s"
  have lay: "sz \<le> 4294967296" using assms(1) by (simp add: exec_layout_def)
  have img: "in_image ?fs sz (inode_addr ?fs (of_int i))"
    "file_in_image (mem s) ?fs sz (of_int i) (file_length (mem s) ?fs (of_int i))"
    using assms(2) by (simp_all add: whole_file_def)
  have buf: "\<not> in_region (buf + of_nat j) ?fs sz" if "j < n" for j
    using assms(7) that by (intro disjoint_regions_not_in [OF assms(8)] in_region_add) simp_all
  have chunk: "\<exists>m. ?read t = (int n, update_fd ?p fd (\<lambda>f. f\<lparr>f_pos := int (j * n + n)\<rparr>) (t\<lparr>mem := m\<rparr>))
      \<and> bytes m buf n = take n (drop (j * n) (contents (mem s) ?fs (of_int i))) \<and> same_image ?fs sz (mem s) m"
    if t: "filesys_addr t = ?fs" "frame t = frame s" "current_pcb t = ?p" "same_image ?fs sz (mem s) (mem t)"
      "inode (fd_of t ?p fd) = i" "f_pos (fd_of t ?p fd) = int (j * n)" and j: "j \<le> k" for t :: "'a process_scheme" and j
  proof -
    have le: "j * n + n \<le> Suc k * n" using j by simp
    have layt: "exec_layout t sz" using assms(1) t(1,2) by (simp add: exec_layout_def)
    note c = same_image_contents [OF t(4) img(1) lay img(2)]
    have whole: "whole_file t sz (of_int i)"
      using same_image_file_in_image [OF t(4) img(2)] img(1) t(1) c(1) by (simp add: whole_file_def)
    have n2: "j * n + n \<le> file_length (mem t) (filesys_addr t) (of_int i)"
      unfolding t(1) c(1) using le assms(6) by (rule le_trans)
    have small: "j * n + n < 2147483648" using le assms(7) by (rule le_less_trans)
    have fdt: "inode (fd_of t (current_pcb t) fd) = i" "f_pos (fd_of t (current_pcb t) fd) = int (j * n)"
      using t(3,5,6) by simp_all
    have buft: "\<And>j. j < n \<Longrightarrow> \<not> in_region (buf + of_nat j) (filesys_addr t) sz" using buf t(1) by simp
    obtain m where "?read t = (int n, update_fd (current_pcb t) fd (\<lambda>f. f\<lparr>f_pos := int (j * n + n)\<rparr>) (t\<lparr>mem := m\<rparr>))"
      "bytes m buf n = take n (drop (j * n) (contents (mem t) (filesys_addr t) (of_int i)))"
      "same_image (filesys_addr t) sz (mem t) m"
      by (rule file_read_chunk [OF layt whole fdt(1) refl fdt(2) assms(5) n2 small buft]) (assumption, rule that)
    then show ?thesis using t(1,3) c(2) same_image_trans [OF t(4)] by (intro exI [of _ m]) simp
  qed
  have run: "filesys_addr (?s j) = ?fs \<and> frame (?s j) = frame s \<and> current_pcb (?s j) = ?p
      \<and> same_image ?fs sz (mem s) (mem (?s j)) \<and> inode (fd_of (?s j) ?p fd) = i
      \<and> f_pos (fd_of (?s j) ?p fd) = int (j * n)" if "j \<le> k" for j
    using that
  proof (induction j)
    case 0
    then show ?case using assms(3,4) by simp
  next
    case (Suc j)
    then obtain m where "?read (?s j) = (int n, update_fd ?p fd (\<lambda>f. f\<lparr>f_pos := int (j * n + n)\<rparr>) ((?s j)\<lparr>mem := m\<rparr>))"
      "same_image ?fs sz (mem s) m"
      using chunk [of "?s j" j] by auto
    then show ?case using Suc by (simp add: update_fd_def update_pcb_def fd_of_def current_pcb_def add.commute)
  qed
  from chunk [of "?s k" k] run [of k] show ?thesis by (auto simp: Let_def update_fd_def update_pcb_def)
qed

definition sample_reader :: process where
  "sample_reader = sample_process\<lparr>pcbs := \<lambda>_. (sample_pcb 1 0)\<lparr>file_array := (\<lambda>_. sample_fd None 0)
     (2 := (sample_fd (Some File_table) 3)\<lparr>inode := 0\<rparr>)\<rparr>\<rparr>"

theorem file_read_sequential_witness:
  "drop 10 (bytes (mem (snd (file_read 2 0x50000 14 (snd (file_read 2 0x50000 14 sample_reader))))) 0x50000 14)
    = [0x94, 0x80, 4, 8]"
proof -
  have s: "exec_layout sample_reader 0x3000" "whole_file sample_reader 0x3000 (of_int 0)"
    using sample_layout sample_whole by (simp_all add: exec_layout_def whole_file_def sample_reader_def)
  have f: "inode (fd_of sample_reader (current_pcb sample_reader) 2) = 0"
    "f_pos (fd_of sample_reader (current_pcb sample_reader) 2) = 0"
    by (simp_all add: sample_reader_def fd_of_def) (simp add: sample_fd_def)
  have m: "mem sample_reader = elf_image" "filesys_addr sample_reader = 0x10000" by (simp_all add: sample_reader_def)
  have "disjoint_regions 0x50000 14 (filesys_addr sample_reader) 0x3000" by (simp add: m disjoint_regions_def)
  then have r: "bytes (mem (snd (file_read 2 0x50000 14 (snd (file_read 2 0x50000 14 sample_reader))))) 0x50000 14
      = take 14 (drop 14 (contents elf_image 0x10000 0))"
    using file_read_sequential [OF s f, of 14 1 "0x50000"] by (simp add: m elf_addrs Let_def)
  show ?thesis unfolding r by (simp add: elf_contents)
qed

lemma files_ok_upd_pos: "files_ok (b\<lparr>file_array := (file_array b)(fd := (file_array b fd)\<lparr>f_pos := x\<rparr>)\<rparr>) = files_ok b"
proof -
  let ?b = "b\<lparr>file_array := (file_array b)(fd := (file_array b fd)\<lparr>f_pos := x\<rparr>)\<rparr>"
  have "flags (file_array ?b j) = flags (file_array b j)" "fops_table (file_array ?b j) = fops_table (file_array b j)" for j
    by simp_all
  then show ?thesis unfolding files_ok_def by (simp del: fun_upd_apply)
qed

text \<open>C18. The file array stays consistent under every outcome of \<open>open\<close>, \<open>close\<close> and a read of a
  regular file: the standard files stay open, open files keep their table, the counter is the
  number of open files, at most eight. \<open>open\<close> never indexes past the array nor calls through an
  unset pointer, provided that the directory holds the three known types only.\<close>

theorem file_array_invariant:
  assumes "exec_layout s sz" and "directory_ok s sz" and "filename \<noteq> 0"
    and "case find_file (mem s) (filesys_addr s) (str_prefix (mem s) filename 32) of None \<Rightarrow> True
      | Some entry \<Rightarrow> file_type entry \<in> {0, 1, 2}"
    and "files_ok (pcbs s (current_pcb s))"
  shows "\<exists>r s'. sys_open filename s = Done (r, s') \<and> files_ok (pcbs s' (current_pcb s'))
    \<and> file_arr_size (pcbs s' (current_pcb s')) \<le> 8
    \<and> files_ok (pcbs (snd (sys_close fd s)) (current_pcb (snd (sys_close fd s))))
    \<and> files_ok (pcbs (snd (file_read fd buf n s)) (current_pcb (snd (file_read fd buf n s))))"
proof -
  let ?b = "pcbs s (current_pcb s)" and ?fs = "filesys_addr s"
  have le8: "file_arr_size b \<le> 8" if "files_ok b" for b
    using files_ok_size [OF that] length_filter_le [of "\<lambda>fd. flags (file_array b fd) \<noteq> 0" all_fds] by simp
  have lay: "sz \<le> 4294967296" "disjoint_regions (frame s) 128 ?fs sz" "frame s \<noteq> 0"
    and img: "0 \<le> load_int (mem s) ?fs" "entries_in_image ?fs sz (nat (load_int (mem s) ?fs))"
    using assms(1,2) by (simp_all add: exec_layout_def directory_ok_def)
  have dis: "disjoint_regions (frame s) 64 ?fs sz"
    using disjoint_regions_part [OF lay(2), of 0 64] by simp
  note look = read_dentry_by_name_file [OF assms(3) lay(3) img lay(1) dis]
  have "\<exists>r s'. sys_open filename s = Done (r, s') \<and> files_ok (pcbs s' (current_pcb s'))"
  proof (cases "find_file (mem s) ?fs (str_prefix (mem s) filename 32)")
    case None
    then have "sys_open filename s = Done (- 1, s)" using look by (simp add: sys_open_def Let_def)
    then show ?thesis using assms(5) by simp
  next
    case (Some entry)
    show ?thesis
    proof (cases "file_arr_size ?b < 8")
      case True
      have kind: "file_type entry \<in> {0, 1, 2}" using assms(4) Some by simp
      note free = find_fd_free [OF assms(5) True]
      obtain s' where "sys_open filename s = Done (find_fd (file_array ?b) 2 6, s')"
        "pcbs s' = (pcbs s)(current_pcb s := add_file entry (find_fd (file_array ?b) 2 6) ?b)" "current_pcb s' = current_pcb s"
        by (rule sys_open_adds [OF assms(1-3) Some kind assms(5) True])
      moreover have "find_fd (file_array ?b) 2 6 \<in> set all_fds" using free(1,2) by auto
      ultimately show ?thesis using files_ok_add [OF assms(5) kind _ free(3)] by simp
    next
      case False
      obtain q where "read_dentry_by_name ?fs filename (frame s) (mem s) = (0, copy (mem s) (frame s) q 64)"
        using look Some by auto
      then have "sys_open filename s = Done (- 1, s\<lparr>mem := copy (mem s) (frame s) q 64\<rparr>)"
        using False by (simp add: sys_open_def Let_def)
      then show ?thesis using assms(5) by (simp add: current_pcb_def)
    qed
  qed
  moreover have "files_ok (pcbs (snd (sys_close fd s)) (current_pcb (snd (sys_close fd s))))"
  proof (cases "2 \<le> fd \<and> fd < 8 \<and> flags (file_array ?b fd) \<noteq> 0")
    case True
    have "snd (sys_close fd s) = update_pcb (current_pcb s) (remove_file fd) s"
      using True by (simp add: sys_close_def Let_def update_fd_def update_pcb_def fd_of_def remove_file_def)
    then show ?thesis
      using files_ok_remove [OF assms(5), of fd] True by (simp add: current_pcb_def update_pcb_def)
  next
    case False
    then show ?thesis using assms(5) by (auto simp: sys_close_def Let_def fd_of_def)
  qed
  moreover have "files_ok (pcbs (snd (file_read fd buf n s)) (current_pcb (snd (file_read fd buf n s))))"
    using assms(5) files_ok_upd_pos
    by (simp add: file_read_def Let_def update_fd_def update_pcb_def current_pcb_def fd_of_def split: prod.splits)
  ultimately show ?thesis using le8 by blast
qed

theorem file_array_invariant_witness:
  "\<exists>r s'. sys_open 0x10040 sample_process = Done (r, s') \<and> files_ok (pcbs s' (current_pcb s'))"
proof -
  have "case find_file (mem sample_process) (filesys_addr sample_process) (str_prefix (mem sample_process) 0x10040 32) of
      None \<Rightarrow> True | Some entry \<Rightarrow> file_type entry \<in> {0, 1, 2}"
    unfolding sample_open_name by (simp add: sample_entry_type)
  from file_array_invariant [OF sample_layout sample_dir _ this sample_files(1), of 2 0 0]
  show ?thesis by (simp, blast)
qed

section \<open>getargs and vidmap\<close>

lemma args_length_run:
  "(\<And>j. j < k \<Longrightarrow> arg (unat (c + of_nat j)) \<noteq> 0) \<Longrightarrow> arg (unat (c + of_nat k)) = 0 \<Longrightarrow>
   args_length arg c = Some (c + of_nat k)"
proof (induction k arbitrary: c)
  case 0
  then show ?case by (subst args_length.simps) simp
next
  case (Suc k)
  have "args_length arg c = args_length arg (c + 1)"
    using Suc.prems(1) [of 0] by (subst args_length.simps) simp
  also have "\<dots> = Some (c + 1 + of_nat k)"
    using Suc.prems(1) [of "Suc j" for j] Suc.prems(2) by (intro Suc.IH) (simp_all add: add.assoc)
  finally show ?case by (simp add: add.assoc)
qed

lemma getargs_run:
  assumes "args (pcbs s (current_pcb s)) = xs @ 0 # rest" and "0 \<notin> set xs"
    and "length (xs @ 0 # rest) = 127" and "1 \<le> n" and "n < 2147483648"
  shows "int (length xs) < n \<Longrightarrow>
      getargs buf n s = Done (0, s\<lparr>mem := fill_with (mem s) buf (nat n) (arg_byte s (pcbs s (current_pcb s)))\<rparr>)"
    and "int (length xs) < n \<Longrightarrow> str_at (fill_with (mem s) buf (nat n) (arg_byte s (pcbs s (current_pcb s)))) buf xs"
    and "n \<le> int (length xs) \<Longrightarrow> getargs buf n s = Done (- 1, s)"
proof -
  let ?arg = "arg_byte s (pcbs s (current_pcb s))"
  let ?m = "fill_with (mem s) buf (nat n) ?arg"
  have arg: "?arg j = (xs @ 0 # rest) ! j" if "j < 127" for j using that assms(1) by (simp add: arg_byte_def)
  have l: "length xs < 127" using assms(3) by simp
  have u: "unat (of_nat j :: u32) = j" if "j \<le> length xs" for j using that l by (intro unat_of_nat_small) simp
  have len: "args_length ?arg 0 = Some (of_nat (length xs))"
    using args_length_run [of "length xs" ?arg 0] arg u l assms(2) by (simp add: nth_append) (metis nth_mem)
  have cmp: "(of_int (n - 1) < (of_nat (length xs) :: u32)) = (n \<le> int (length xs))"
  proof -
    have "unat (of_int (n - 1) :: u32) = nat (n - 1)" using assms(4,5) by (intro unat_of_int_u32) simp_all
    then show ?thesis using u [of "length xs"] assms(4) by (auto simp: word_less_nat_alt nat_less_iff)
  qed
  have n: "unat (of_int n :: u32) = nat n" using assms(4,5) by (intro unat_of_int_u32) simp_all
  show "getargs buf n s = Done (0, s\<lparr>mem := ?m\<rparr>)" if "int (length xs) < n"
    using len cmp that by (simp add: getargs_def Let_def n del: of_int_diff)
  show "getargs buf n s = Done (- 1, s)" if "n \<le> int (length xs)"
    using len cmp that by (simp add: getargs_def Let_def del: of_int_diff)
  assume small: "int (length xs) < n"
  have at: "?m (buf + of_nat j) = ?arg j" if "j \<le> length xs" for j
  proof -
    have "j < nat n" using that small by linarith
    then show ?thesis using that l by (simp add: fill_with_def in_region_def unat_of_nat_small)
  qed
  have "bytes ?m buf (length xs) = xs"
    using at arg l by (intro nth_equalityI) (simp_all add: nth_bytes nth_append)
  moreover have "?m (buf + of_nat (length xs)) = 0" using at [of "length xs"] arg l by simp
  ultimately show "str_at ?m buf xs" using assms(2) by (simp add: str_at_def)
qed

text \<open>C35. \<open>getargs\<close> delivers the argument string with its NUL when the buffer holds both, and fails
  without writing otherwise.\<close>

theorem getargs_delivers:
  assumes "args (pcbs s (current_pcb s)) = xs @ 0 # rest" and "0 \<notin> set xs"
    and "length (xs @ 0 # rest) = 127" and "1 \<le> n" and "n < 2147483648"
  shows "if int (length xs) < n
    then \<exists>s'. getargs buf n s = Done (0, s') \<and> str_at (mem s') buf xs
    else getargs buf n s = Done (- 1, s)"
  using getargs_run [OF assms] by auto

definition sample_args :: process where
  "sample_args = sample_process\<lparr>pcbs := \<lambda>_. (sample_pcb 1 0)\<lparr>args := [120] @ 0 # replicate 125 0\<rparr>\<rparr>"

theorem getargs_delivers_witness:
  "(\<exists>s'. getargs 0x50000 8 sample_args = Done (0, s') \<and> str_at (mem s') 0x50000 [120])
    \<and> getargs 0x50000 1 sample_args = Done (- 1, sample_args)"
proof -
  have a: "args (pcbs sample_args (current_pcb sample_args)) = [120] @ 0 # replicate 125 0"
    by (simp add: sample_args_def)
  show ?thesis
    using getargs_delivers [OF a, of 8 "0x50000"] getargs_delivers [OF a, of 1 "0x50000"] by simp
qed

text \<open>The screen page of a terminal: the screen when it is displayed, else its own page.\<close>

definition page_of :: "int \<Rightarrow> int \<Rightarrow> u32" where
  "page_of displayed t = (if t = displayed then VIDEO else if t = 1 then VIDEO1 else if t = 2 then VIDEO2 else VIDEO3)"

lemma map_video_page:
  "t \<in> {1, 2, 3} \<Longrightarrow> map_video t s = s\<lparr>pgTbl_vidMem := (pgTbl_vidMem s)(0 := page_of (curr_terminal s) t OR 7),
     video_mem := page_of (curr_terminal s) t\<rparr>"
  by (auto simp: map_video_def page_of_def)

text \<open>C34. \<open>vidmap\<close> accepts exactly the pointers into the program page. It then stores the address
  0x08400000 there, maps that address to the page that shows the scheduled terminal, and the
  kernel prints to the same page. A refused call changes nothing, but returns with the
  interrupts disabled.\<close>

theorem vidmap_maps_screen:
  assumes "curr_scheduled s \<in> {1, 2, 3}" and "user_vid_mem s = 0 \<or> user_vid_mem s = USER_VID_ADDR"
  shows "if PROG_PAGE \<le> screen_start \<and> screen_start < USER_VID_ADDR
    then \<exists>s'. vidmap screen_start s = (0, s') \<and> load32 (mem s') screen_start = 0x08400000 \<and> intr s'
      \<and> pageDirectory s' 33 = pgTbl_vidMem_addr s OR 7
      \<and> pgTbl_vidMem s' 0 = page_of (curr_terminal s) (curr_scheduled s) OR 7
      \<and> video_mem s' = page_of (curr_terminal s) (curr_scheduled s)
    else vidmap screen_start s = (- 1, s\<lparr>intr := False\<rparr>)"
proof (cases "PROG_PAGE \<le> screen_start \<and> screen_start < USER_VID_ADDR")
  case True
  then have "\<not> (screen_start = 0 \<or> screen_start < PROG_PAGE \<or> screen_start \<ge> USER_VID_ADDR)"
    by (auto simp: word_less_nat_alt word_le_nat_alt)
  then show ?thesis
    using True assms by (auto simp: vidmap_def Let_def map_video_page)
next
  case False
  then have "screen_start = 0 \<or> screen_start < PROG_PAGE \<or> screen_start \<ge> USER_VID_ADDR"
    by (auto simp: not_le not_less)
  with False show ?thesis by (simp add: vidmap_def Let_def)
qed

theorem vidmap_maps_screen_witness:
  "\<exists>s'. vidmap 0x08048010 sample_process = (0, s') \<and> load32 (mem s') 0x08048010 = 0x08400000 \<and> video_mem s' = VIDEO"
  using vidmap_maps_screen [of sample_process "0x08048010"]
  by (auto simp: sample_process_def page_of_def)

end
