(* ===== verification/Scheduler_Laws.thy ===== *)
theory Scheduler_Laws
  imports Scheduler Sys_Calls_Laws
begin

text \<open>
  What the timer interrupt guarantees once the three shells run: the processor goes to the
  terminals in turn, the page tables, the task state and the page for output always belong to the
  terminal that is scheduled, and a process that is preempted gets its context back.
\<close>

section \<open>The consistent states\<close>

text \<open>\<open>st\<close> gives the processes of each terminal; \<open>running\<close> is the youngest of the scheduled one.\<close>

definition running :: "(int \<Rightarrow> int list) \<Rightarrow> int \<Rightarrow> int" where
  "running st t = youngest (st (t - 1))"

definition sched_core :: "'a scheduler_scheme \<Rightarrow> (int \<Rightarrow> int list) \<Rightarrow> bool" where
  "sched_core s st \<longleftrightarrow> proc_view s st \<and> list_all (\<lambda>t. st t \<noteq> []) [0, 1, 2]
     \<and> curr_scheduled s \<in> {1, 2, 3} \<and> curr_terminal s \<in> {1, 2, 3} \<and> switch_flag s \<in> {0, 1, 2, 3}
     \<and> total_terminal s > 3 \<and> user_pde s = user_page (running st (curr_scheduled s) - 1)"

text \<open>Also, the user's and the kernel's output go to the page of the scheduled terminal.\<close>

definition sched_ok :: "'a scheduler_scheme \<Rightarrow> (int \<Rightarrow> int list) \<Rightarrow> bool" where
  "sched_ok s st \<longleftrightarrow> sched_core s st
     \<and> pgTbl_vidMem s 0 = page_of (curr_terminal s) (curr_scheduled s) OR 7
     \<and> video_mem s = page_of (curr_terminal s) (curr_scheduled s)"

text \<open>The successor in the rotation.\<close>

definition next_of :: "int \<Rightarrow> int" where
  "next_of t = t smod 3 + 1"

lemma next_of_values [simp]: "next_of 1 = 2" "next_of 2 = 3" "next_of 3 = 1"
  by (simp_all add: next_of_def smod_nonneg)

lemma next_of_range: "t \<in> {1, 2, 3} \<Longrightarrow> next_of t \<in> {1, 2, 3} \<and> next_of t \<noteq> t"
  by auto

lemma next_of_cycle: "t \<in> {1, 2, 3} \<Longrightarrow> next_of (next_of (next_of t)) = t"
  by auto

section \<open>The steps of the handler\<close>

lemma send_eoi_process [simp]:
  "curr_terminal (send_eoi irq s) = curr_terminal s" "curr_scheduled (send_eoi irq s) = curr_scheduled s"
  by (simp_all add: send_eoi_def outb_def Let_def)

lemma send_eoi_scheduler [simp]:
  "switch_flag (send_eoi irq s) = switch_flag s" 
  by (simp add: send_eoi_def outb_def Let_def)

lemma send_eoi_table [simp]:
  fixes s :: "'a scheduler_scheme"
  shows "total_terminal (send_eoi irq s) = total_terminal s" "pcbs (send_eoi irq s) = pcbs s"
  "highest_terminal_processes (send_eoi irq s) = highest_terminal_processes s"
  "pcb_slots (send_eoi irq s) = pcb_slots s" "process_count (send_eoi irq s) = process_count s"
  "user_pde (send_eoi irq s) = user_pde s" "frames (send_eoi irq s) = frames s"
  "tss_esp0 (send_eoi irq s) = tss_esp0 s" "reg_ebp (send_eoi irq s) = reg_ebp s"
  by (simp_all add: send_eoi_def outb_def Let_def)

lemma switch_terminal_table [simp]:
  fixes s :: "'a scheduler_scheme"
  shows "total_terminal (switch_terminal a b s) = total_terminal s" "pcbs (switch_terminal a b s) = pcbs s"
  "highest_terminal_processes (switch_terminal a b s) = highest_terminal_processes s"
  "pcb_slots (switch_terminal a b s) = pcb_slots s" "process_count (switch_terminal a b s) = process_count s"
  "user_pde (switch_terminal a b s) = user_pde s" "frames (switch_terminal a b s) = frames s"
  "tss_esp0 (switch_terminal a b s) = tss_esp0 s" "reg_ebp (switch_terminal a b s) = reg_ebp s"
  "switch_flag (switch_terminal a b s) = switch_flag s"
  by (simp_all add: switch_terminal_def update_cursor_def outb_def Let_def)

lemma pit_switch_table [simp]:
  fixes s :: "'a scheduler_scheme"
  shows "total_terminal (pit_switch s) = total_terminal s" "pcbs (pit_switch s) = pcbs s"
  "highest_terminal_processes (pit_switch s) = highest_terminal_processes s"
  "pcb_slots (pit_switch s) = pcb_slots s" "process_count (pit_switch s) = process_count s"
  "user_pde (pit_switch s) = user_pde s" "frames (pit_switch s) = frames s"
  "tss_esp0 (pit_switch s) = tss_esp0 s" "reg_ebp (pit_switch s) = reg_ebp s"
  "curr_scheduled (pit_switch s) = curr_scheduled s"
  by (simp_all add: pit_switch_def)

lemma pit_switch_terminal:
  "switch_flag s \<in> {0, 1, 2, 3} \<Longrightarrow>
   curr_terminal (pit_switch s) = (if switch_flag s = 0 then curr_terminal s else switch_flag s)
   \<and> switch_flag (pit_switch s) = 0"
  by (auto simp: pit_switch_def)

text \<open>The screens lie below the program window.\<close>

lemma screens_below_window: "in_region a PROG_PAGE 0x400000 \<Longrightarrow> b \<in> {VIDEO, VIDEO1, VIDEO2, VIDEO3} \<Longrightarrow> \<not> in_region a b 4000"
  by (rule disjoint_regions_not_in [of PROG_PAGE "0x400000"]) (auto simp: disjoint_regions_def)

lemma switch_terminal_window:
  assumes "a \<in> {1, 2, 3}" "b \<in> {1, 2, 3}" "in_region x PROG_PAGE 0x400000"
  shows "mem (switch_terminal a b s) x = mem s x"
  unfolding switch_terminal_mem
  using video_buf_page [OF assms(1), of s] screens_below_window [OF assms(3)]
  by (intro switch_page_outside) auto

lemma pit_switch_window:
  "curr_terminal s \<in> {1, 2, 3} \<Longrightarrow> in_region x PROG_PAGE 0x400000 \<Longrightarrow> mem (pit_switch s) x = mem s x"
  by (auto simp: pit_switch_def switch_terminal_window)

section \<open>A tick\<close>

text \<open>Different terminals run different processes.\<close>

lemma running_distinct:
  assumes ok: "sched_core s st" and t: "t \<in> {1, 2, 3}" "u \<in> {1, 2, 3}" "t \<noteq> u"
  shows "getPCB (running st t) \<noteq> getPCB (running st u)"
    and "user_page (running st t - 1) \<noteq> user_page (running st u - 1)"
proof -
  have view: "proc_view s st" using ok by (simp add: sched_core_def)
  have run: "running st v \<in> set (st (v - 1))" if "v \<in> {1, 2, 3}" for v
  proof -
    have "st (v - 1) \<noteq> []" using ok that by (auto simp: sched_core_def)
    then show ?thesis by (auto simp: running_def youngest_def split: list.split)
  qed
  have rng: "1 \<le> running st v \<and> running st v \<le> 6" if "v \<in> {1, 2, 3}" for v
    using proc_view_range [OF view, of "running st v"] run [OF that] that by (auto simp: all_procs_def)
  have "distinct (all_procs st)" using view by (simp add: proc_view_def)
  then have "set (st (t - 1)) \<inter> set (st (u - 1)) = {}" using t by (auto simp: all_procs_def)
  then have "running st t \<noteq> running st u" using run [OF t(1)] run [OF t(2)] by auto
  then show "getPCB (running st t) \<noteq> getPCB (running st u)"
    "user_page (running st t - 1) \<noteq> user_page (running st u - 1)"
    using getPCB_inject user_page_inject rng [OF t(1)] rng [OF t(2)] by blast+
qed

lemma tick_schedules:
  fixes s :: "'a scheduler_scheme"
  assumes ok: "sched_core s st"
  defines "t \<equiv> curr_scheduled s" and "P \<equiv> getPCB (running st (curr_scheduled s))"
    and "Q \<equiv> getPCB (running st (next_of (curr_scheduled s)))"
  obtains s' where "pit_handler s = Returns 0 s'" and "sched_ok s' st"
    and "curr_scheduled s' = next_of t"
    and "pcbs s' = (pcbs s)(P := (pcbs s P)\<lparr>esp0 := tss_esp0 s, ebp_scheduler := reg_ebp s\<rparr>)"
    and "tss_esp0 s' = esp0 (pcbs s Q)" and "reg_ebp s' = ebp_scheduler (pcbs s Q)"
    and "\<And>a. in_region a PROG_PAGE 0x400000 \<Longrightarrow> frames s' (user_pde s) a = mem s a"
    and "\<And>a. in_region a PROG_PAGE 0x400000 \<Longrightarrow> mem s' a = frames s (user_pde s') a"
    and "\<And>page. page \<noteq> user_pde s \<Longrightarrow> frames s' page = frames s page"
    and "P \<noteq> Q" and "user_pde s' \<noteq> user_pde s"
proof -
  let ?n = "next_of t" and ?p = "running st t" and ?q = "running st (next_of t)"
  have view: "proc_view s st" and t: "t \<in> {1, 2, 3}" and flag: "switch_flag s \<in> {0, 1, 2, 3}"
    and d: "curr_terminal s \<in> {1, 2, 3}" and tot: "total_terminal s > 3"
    and pde: "user_pde s = user_page (?p - 1)"
    using ok by (simp_all add: sched_core_def t_def)
  have n: "?n \<in> {1, 2, 3}" "?n \<noteq> t" using next_of_range [OF t] by simp_all
  have run: "highest_terminal_processes s (u - 1) = running st u" if "u \<in> {1, 2, 3}" for u
    using proc_view_youngest [OF view, of "u - 1"] that by (auto simp: running_def)
  have tn: "t \<noteq> ?n" using n(2) by simp
  have PQ: "P \<noteq> Q" using running_distinct(1) [OF ok t n(1) tn] by (simp add: P_def Q_def t_def)
  have pages: "user_page (?q - 1) \<noteq> user_page (?p - 1)"
    using running_distinct(2) [OF ok t n(1) tn] by simp
  define u where "u = pit_switch (send_eoi 0 s)"
  have u: "total_terminal u = total_terminal s" "pcbs u = pcbs s" "curr_scheduled u = t"
    "highest_terminal_processes u = highest_terminal_processes s" "pcb_slots u = pcb_slots s"
    "process_count u = process_count s" "user_pde u = user_pde s" "frames u = frames s"
    "tss_esp0 u = tss_esp0 s" "reg_ebp u = reg_ebp s"
    by (simp_all add: u_def t_def)
  have ud: "curr_terminal u \<in> {1, 2, 3}" "switch_flag u = 0"
    using pit_switch_terminal [of "send_eoi 0 s"] flag d by (auto simp: u_def)
  have umem: "mem u a = mem s a" if "in_region a PROG_PAGE 0x400000" for a
    using pit_switch_window [of "send_eoi 0 s" a] that d by (simp add: u_def)
  define v where "v = u\<lparr>pgTbl_vidMem := (pgTbl_vidMem u)(0 := page_of (curr_terminal u) ?n OR 7),
     video_mem := page_of (curr_terminal u) ?n\<rparr>"
  have v: "map_video ?n u = v" using map_video_page [OF n(1), of u] by (simp add: v_def)
  let ?s = "pit_schedule ?n v"
  have tick: "pit_handler s = Returns 0 ?s"
    using tot v by (simp add: pit_handler_def Let_def u_def [symmetric] t_def [symmetric] u(1,3) next_of_def v_def)
  have high: "highest_terminal_processes v (t - 1) = ?p" "highest_terminal_processes v (?n - 1) = ?q"
    using run [OF t] run [OF n(1)] u(4) by (simp_all add: v_def)
  have vf: "pcbs v = pcbs s" "curr_scheduled v = t" "user_pde v = user_pde s" "frames v = frames s"
    "tss_esp0 v = tss_esp0 s" "reg_ebp v = reg_ebp s" "mem v = mem u"
    using u by (simp_all add: v_def)
  have PQ': "getPCB ?p = P" "getPCB ?q = Q" by (simp_all add: P_def Q_def t_def)
  have f: "pcbs ?s = (pcbs s)(P := (pcbs s P)\<lparr>esp0 := tss_esp0 s, ebp_scheduler := reg_ebp s\<rparr>)"
    "curr_scheduled ?s = ?n" "user_pde ?s = user_page (?q - 1)" "tss_esp0 ?s = esp0 (pcbs s Q)"
    "reg_ebp ?s = ebp_scheduler (pcbs s Q)"
    "frames ?s = (frames s)(user_pde s := mem u)"
    "mem ?s = (\<lambda>a. if in_region a PROG_PAGE 0x400000 then frames s (user_page (?q - 1)) a else mem u a)"
    using high PQ PQ' pages pde vf unfolding pit_schedule_def Let_def
    by (simp_all add: update_pcb_def flush_tlb_def Let_def cong: if_cong)
  have g: "highest_terminal_processes ?s = highest_terminal_processes s" "pcb_slots ?s = pcb_slots s"
    "process_count ?s = process_count s" "total_terminal ?s = total_terminal s" "switch_flag ?s = 0"
    "curr_terminal ?s = curr_terminal u" "video_mem ?s = page_of (curr_terminal u) ?n"
    "pgTbl_vidMem ?s 0 = page_of (curr_terminal u) ?n OR 7"
    using u ud unfolding pit_schedule_def Let_def by (simp_all add: update_pcb_def v_def flush_tlb_def Let_def)
  have "proc_view ?s st = proc_view s st"
    using f(1) g(1-3) by (intro proc_view_cong) simp_all
  then have "sched_ok ?s st"
    using ok view ud g f(2,3) n(1) by (simp add: sched_ok_def sched_core_def)
  then show thesis
  proof (rule that [OF tick])
    show "curr_scheduled ?s = ?n" "tss_esp0 ?s = esp0 (pcbs s Q)" "reg_ebp ?s = ebp_scheduler (pcbs s Q)"
      "P \<noteq> Q" "pcbs ?s = (pcbs s)(P := (pcbs s P)\<lparr>esp0 := tss_esp0 s, ebp_scheduler := reg_ebp s\<rparr>)"
      using f PQ by simp_all
    show "frames ?s (user_pde s) a = mem s a" if "in_region a PROG_PAGE 0x400000" for a
      using f(6) umem [OF that] by simp
    show "mem ?s a = frames s (user_pde ?s) a" if "in_region a PROG_PAGE 0x400000" for a
      using f(3,7) that by simp
    show "frames ?s page = frames s page" if "page \<noteq> user_pde s" for page using f(6) that by simp
    show "user_pde ?s \<noteq> user_pde s" using f(3) pages pde by simp
  qed
qed

lemma sched_ok_core: "sched_ok s st \<Longrightarrow> sched_core s st"
  by (simp add: sched_ok_def)

lemma pit_step:
  assumes "sched_core s st"
  obtains s' where "pit_handler s = Returns 0 s'" "sched_ok s' st" "curr_scheduled s' = next_of (curr_scheduled s)"
  by (rule tick_schedules [OF assms]) (rule that)

text \<open>A state for the examples: a shell on each of the three terminals, the first one scheduled and
  displayed.\<close>

definition sample_scheduler :: scheduler where
  "sample_scheduler = process.extend (sample_process\<lparr>process_count := 3,
       highest_terminal_processes := (\<lambda>_. 0)(0 := 1, 1 := 2, 2 := 3), pcb_slots := (\<lambda>_. 0)(0 := 1, 1 := 1, 2 := 1),
       pcbs := (\<lambda>_. sample_pcb 1 0)(getPCB 2 := sample_pcb 2 0, getPCB 3 := sample_pcb 3 0)\<rparr>)
     (scheduler.fields 4 1)"

definition sample_stacks :: "int \<Rightarrow> int list" where
  "sample_stacks = (\<lambda>_. [])(0 := [1], 1 := [2], 2 := [3])"

lemma sample_scheduler_simps:
  "total_terminal sample_scheduler = 4" "curr_scheduled sample_scheduler = 1" "curr_terminal sample_scheduler = 1"
  "switch_flag sample_scheduler = 0" "user_pde sample_scheduler = user_page 0"
  "reg_ebp sample_scheduler = 0x7FE810" "tss_esp0 sample_scheduler = 0x7FFFFC"
  by (simp_all add: sample_scheduler_def process.defs scheduler.defs sample_process_def)

lemma sample_scheduler_view: "proc_view sample_scheduler sample_stacks"
  by (simp add: proc_view_def all_procs_def sample_stacks_def sample_pcb_def getPCB_values sample_scheduler_def
      process.defs scheduler.defs)

lemma sample_scheduler_ok: "sched_core sample_scheduler sample_stacks"
  using sample_scheduler_view
  by (simp add: sched_core_def sample_scheduler_simps running_def sample_stacks_def)

section \<open>Properties\<close>

text \<open>The state after an interrupt that returns.\<close>

definition tick :: "'a scheduler_scheme \<Rightarrow> 'a scheduler_scheme" where
  "tick s = (case pit_handler s of Returns _ s' \<Rightarrow> s' | _ \<Rightarrow> s)"

text \<open>C6. Every timer interrupt gives the processor to the next terminal in the rotation, and the
  machine is consistent afterwards: the program page, the page for the user's and the kernel's
  output (with a pending switch of the display performed) are those of the terminal scheduled,
  and the stack registers and kernel stack are those its process had when it was preempted.\<close>

theorem pit_handler_schedules:
  assumes "sched_core s st"
  shows "\<exists>s'. pit_handler s = Returns 0 s' \<and> sched_ok s' st \<and> curr_scheduled s' = next_of (curr_scheduled s)
    \<and> reg_ebp s' = ebp_scheduler (pcbs s (getPCB (running st (curr_scheduled s'))))
    \<and> tss_esp0 s' = esp0 (pcbs s (getPCB (running st (curr_scheduled s'))))
    \<and> ebp_scheduler (pcbs s' (getPCB (running st (curr_scheduled s)))) = reg_ebp s
    \<and> esp0 (pcbs s' (getPCB (running st (curr_scheduled s)))) = tss_esp0 s"
proof -
  obtain s' where "pit_handler s = Returns 0 s'" "sched_ok s' st" "curr_scheduled s' = next_of (curr_scheduled s)"
    "pcbs s' = (pcbs s)(getPCB (running st (curr_scheduled s)) := (pcbs s (getPCB (running st (curr_scheduled s))))
      \<lparr>esp0 := tss_esp0 s, ebp_scheduler := reg_ebp s\<rparr>)"
    "tss_esp0 s' = esp0 (pcbs s (getPCB (running st (next_of (curr_scheduled s)))))"
    "reg_ebp s' = ebp_scheduler (pcbs s (getPCB (running st (next_of (curr_scheduled s)))))"
    by (rule tick_schedules [OF assms]) (rule that)
  then show ?thesis by (intro exI [of _ s']) simp
qed

theorem pit_handler_schedules_witness:
  "\<exists>s'. pit_handler sample_scheduler = Returns 0 s' \<and> sched_ok s' sample_stacks \<and> curr_scheduled s' = 2"
  using pit_handler_schedules [OF sample_scheduler_ok] by (auto simp: sample_scheduler_simps)

text \<open>C12. No terminal starves: from any consistent state, each terminal is scheduled after at most
  three ticks.\<close>

theorem scheduler_is_fair:
  assumes "sched_core s st" and "t \<in> {1, 2, 3}"
  shows "\<exists>k. 1 \<le> k \<and> k \<le> 3 \<and> curr_scheduled ((tick ^^ k) s) = t"
proof -
  have step: "sched_ok (tick u) st \<and> curr_scheduled (tick u) = next_of (curr_scheduled u)" if ok: "sched_core u st" for u :: "'a scheduler_scheme"
  proof -
    obtain u' where "pit_handler u = Returns 0 u'" "sched_ok u' st" "curr_scheduled u' = next_of (curr_scheduled u)"
      by (rule pit_step [OF ok])
    then show ?thesis by (simp add: tick_def)
  qed
  have ok1: "sched_core (tick s) st" and ok2: "sched_core (tick (tick s)) st"
    using step [OF assms(1)] step sched_ok_core by blast+
  have c: "curr_scheduled ((tick ^^ 1) s) = next_of (curr_scheduled s)"
    "curr_scheduled ((tick ^^ 2) s) = next_of (next_of (curr_scheduled s))"
    "curr_scheduled ((tick ^^ 3) s) = next_of (next_of (next_of (curr_scheduled s)))"
    using step [OF assms(1)] step [OF ok1] step [OF ok2] by (simp_all add: numeral_2_eq_2 numeral_3_eq_3)
  have "curr_scheduled s \<in> {1, 2, 3}" using assms(1) by (simp add: sched_core_def)
  then have "t = next_of (curr_scheduled s) \<or> t = next_of (next_of (curr_scheduled s))
      \<or> t = next_of (next_of (next_of (curr_scheduled s)))"
    using assms(2) by auto
  then show ?thesis
  proof (elim disjE)
    assume "t = next_of (curr_scheduled s)"
    then show ?thesis using c(1) by (intro exI [of _ 1]) simp
  next
    assume "t = next_of (next_of (curr_scheduled s))"
    then show ?thesis using c(2) by (intro exI [of _ 2]) simp
  next
    assume "t = next_of (next_of (next_of (curr_scheduled s)))"
    then show ?thesis using c(3) by (intro exI [of _ 3]) simp
  qed
qed

theorem scheduler_is_fair_witness: "\<exists>k. 1 \<le> k \<and> k \<le> 3 \<and> curr_scheduled ((tick ^^ k) sample_scheduler) = 3"
  using scheduler_is_fair [OF sample_scheduler_ok, of 3] by simp

text \<open>What may happen while another terminal is scheduled: processes start and end on that terminal,
  memory changes, but not the block of process \<open>p\<close>, its program page, or what runs on \<open>t\<close>.\<close>

definition others_ran :: "int \<Rightarrow> int \<Rightarrow> 'a scheduler_scheme \<Rightarrow> 'a scheduler_scheme \<Rightarrow> (int \<Rightarrow> int list) \<Rightarrow> bool" where
  "others_ran t p s s' st' \<longleftrightarrow> sched_core s' st' \<and> running st' t = p \<and> curr_scheduled s' = curr_scheduled s
     \<and> esp0 (pcbs s' (getPCB p)) = esp0 (pcbs s (getPCB p))
     \<and> ebp_scheduler (pcbs s' (getPCB p)) = ebp_scheduler (pcbs s (getPCB p))
     \<and> frames s' (user_page (p - 1)) = frames s (user_page (p - 1))"

text \<open>C5. A preempted process resumes with its context: when the rotation comes back to its terminal
  after two other terminals have run, its frame pointer, its kernel stack, its program page and
  every byte of it are what they were at the interrupt.\<close>

theorem preempted_process_resumes:
  assumes "sched_core s st" and "others_ran (curr_scheduled s) (running st (curr_scheduled s)) (tick s) s1 st1"
    and "others_ran (curr_scheduled s) (running st (curr_scheduled s)) (tick s1) s2 st2"
  shows "curr_scheduled (tick s2) = curr_scheduled s \<and> reg_ebp (tick s2) = reg_ebp s
    \<and> tss_esp0 (tick s2) = tss_esp0 s \<and> user_pde (tick s2) = user_pde s
    \<and> bytes (mem (tick s2)) PROG_PAGE 0x400000 = bytes (mem s) PROG_PAGE 0x400000"
proof -
  let ?t = "curr_scheduled s"
  let ?p = "running st ?t"
  let ?P = "getPCB ?p" and ?page = "user_page (?p - 1)"
  have t: "?t \<in> {1, 2, 3}" and pde: "user_pde s = ?page" using assms(1) by (simp_all add: sched_core_def)
  have tn: "next_of ?t \<in> {1, 2, 3}" "next_of (next_of ?t) \<in> {1, 2, 3}" "next_of ?t \<noteq> ?t" "next_of (next_of ?t) \<noteq> ?t"
    using t by auto
  obtain s0 where s0: "pit_handler s = Returns 0 s0" "curr_scheduled s0 = next_of ?t"
    "pcbs s0 = (pcbs s)(?P := (pcbs s ?P)\<lparr>esp0 := tss_esp0 s, ebp_scheduler := reg_ebp s\<rparr>)"
    "\<And>a. in_region a PROG_PAGE 0x400000 \<Longrightarrow> frames s0 (user_pde s) a = mem s a"
    by (rule tick_schedules [OF assms(1)]) (rule that)
  note r1 = assms(2) [unfolded others_ran_def]
  have ok1: "sched_core s1 st1" and p1: "running st1 ?t = ?p" and c1: "curr_scheduled s1 = next_of ?t"
    and P1: "esp0 (pcbs s1 ?P) = tss_esp0 s" "ebp_scheduler (pcbs s1 ?P) = reg_ebp s"
    and f1: "frames s1 ?page = frames s0 ?page"
    using r1 s0 by (simp_all add: tick_def)
  have pde1: "user_pde s1 = user_page (running st1 (next_of ?t) - 1)" using ok1 c1 by (simp add: sched_core_def)
  have other: "getPCB (running st1 (next_of ?t)) \<noteq> ?P" "?page \<noteq> user_pde s1"
    using running_distinct [OF ok1 t tn(1) tn(3) [symmetric]] p1 pde1 by simp_all
  obtain s1' where s1': "pit_handler s1 = Returns 0 s1'" "curr_scheduled s1' = next_of (next_of ?t)"
    "pcbs s1' = (pcbs s1)(getPCB (running st1 (next_of ?t)) := (pcbs s1 (getPCB (running st1 (next_of ?t))))
      \<lparr>esp0 := tss_esp0 s1, ebp_scheduler := reg_ebp s1\<rparr>)"
    "\<And>page. page \<noteq> user_pde s1 \<Longrightarrow> frames s1' page = frames s1 page"
    using tick_schedules [OF ok1] unfolding c1 by metis
  note r2 = assms(3) [unfolded others_ran_def]
  have ok2: "sched_core s2 st2" and p2: "running st2 ?t = ?p" and c2: "curr_scheduled s2 = next_of (next_of ?t)"
    and P2: "esp0 (pcbs s2 ?P) = tss_esp0 s" "ebp_scheduler (pcbs s2 ?P) = reg_ebp s"
    and f2: "frames s2 ?page = frames s0 ?page"
    using r2 s1' other P1 f1 by (simp_all add: tick_def)
  have c3: "next_of (curr_scheduled s2) = ?t" unfolding c2 by (rule next_of_cycle [OF t])
  obtain s3 where s3: "pit_handler s2 = Returns 0 s3" "sched_core s3 st2" "curr_scheduled s3 = ?t"
    "tss_esp0 s3 = esp0 (pcbs s2 (getPCB (running st2 ?t)))"
    "reg_ebp s3 = ebp_scheduler (pcbs s2 (getPCB (running st2 ?t)))"
    "\<And>a. in_region a PROG_PAGE 0x400000 \<Longrightarrow> mem s3 a = frames s2 (user_pde s3) a"
    using tick_schedules [OF ok2] unfolding c3 by (metis sched_ok_core)
  have pde3: "user_pde s3 = ?page" using s3(2,3) p2 by (simp add: sched_core_def)
  have "bytes (mem s3) PROG_PAGE 0x400000 = bytes (mem s) PROG_PAGE 0x400000"
  proof (rule bytes_cong)
    fix i
    assume "i < (0x400000 :: nat)"
    then have a: "in_region (PROG_PAGE + of_nat i) PROG_PAGE 0x400000" by (intro in_region_add) simp_all
    show "mem s3 (PROG_PAGE + of_nat i) = mem s (PROG_PAGE + of_nat i)"
      using s3(6) [OF a] s0(4) [OF a] pde pde3 f2 by simp
  qed
  moreover have "tick s2 = s3" using s3(1) by (simp add: tick_def)
  ultimately show ?thesis using s3(3-5) p2 P2 pde pde3 by simp
qed

lemma others_idle:
  assumes "sched_core s st" "running st t = p"
  shows "others_ran t p s s st"
  using assms by (simp add: others_ran_def)

theorem preempted_process_resumes_witness:
  "curr_scheduled (tick (tick (tick sample_scheduler))) = 1 \<and> reg_ebp (tick (tick (tick sample_scheduler))) = 0x7FE810"
proof -
  have core: "sched_core (tick s) st" if c: "sched_core s st" for s :: scheduler and st
  proof -
    obtain s' where "pit_handler s = Returns 0 s'" "sched_ok s' st" by (rule pit_step [OF c])
    then show ?thesis by (simp add: tick_def sched_ok_core)
  qed
  note c1 = core [OF sample_scheduler_ok] and c2 = core [OF core [OF sample_scheduler_ok]]
  from preempted_process_resumes [OF sample_scheduler_ok others_idle [OF c1 refl] others_idle [OF c2 refl]]
  show ?thesis by (simp add: sample_scheduler_simps)
qed

section \<open>The first interrupts\<close>

lemma start_process_more:
  assumes "start_process i entry_point s = Enters e s'"
  shows "process.more s' = process.more s" "video_mem s' = video_mem s" "curr_scheduled s' = curr_scheduled s"
  using assms by (auto simp: start_process_def Let_def update_pcb_def)

lemma flush_tlb_more [simp]:
  "process.more (flush_tlb s) = process.more s" "video_mem (flush_tlb s) = video_mem s"
  "curr_scheduled (flush_tlb s) = curr_scheduled s"
  by (simp_all add: flush_tlb_def Let_def)

lemma load_process_more:
  assumes "load_process command i temp s = Enters e s'"
  shows "process.more s' = process.more s" "video_mem s' = video_mem s" "curr_scheduled s' = curr_scheduled s"
  using assms unfolding load_process_def Let_def
  by (auto simp: update_pcb_def dest: start_process_more split: if_splits option.splits prod.splits)

lemma execute_more:
  assumes "execute command s = Enters e s'"
  shows "process.more s' = process.more s" "video_mem s' = video_mem s" "curr_scheduled s' = curr_scheduled s"
proof -
  obtain i temp m where "load_process command i temp (s\<lparr>mem := m\<rparr>) = Enters e s'"
    by (rule execute_enters [OF assms])
  from load_process_more [OF this] show "process.more s' = process.more s" "video_mem s' = video_mem s"
    "curr_scheduled s' = curr_scheduled s" by simp_all
qed

lemma scheduler_of_more:
  "process.more s' = process.more s \<Longrightarrow> total_terminal s' = total_terminal s \<and> init_flag s' = init_flag s"
  by (cases s; cases s'; simp)

lemma pit_new_terminal_simps:
  "curr_terminal (pit_new_terminal nx s) = (if total_terminal s = 0 then curr_terminal s else total_terminal s + 1)"
  "total_terminal (pit_new_terminal nx s) = total_terminal s + 1"
  "curr_scheduled (pit_new_terminal nx s) = (if total_terminal s = 0 then curr_scheduled s else nx)"
  "video_mem (pit_new_terminal nx s) = video_mem s"
  "highest_terminal_processes (pit_new_terminal nx s) = highest_terminal_processes s"
  "pcb_slots (pit_new_terminal nx s) = pcb_slots s" "process_count (pit_new_terminal nx s) = process_count s"
  "process_num (pcbs (pit_new_terminal nx s) q) = process_num (pcbs s q)"
  "parent_task (pcbs (pit_new_terminal nx s) q) = parent_task (pcbs s q)"
  by (simp_all add: pit_new_terminal_def Let_def update_pcb_def set_cursors_def update_cursor_def outb_def
      switch_terminal_def cli_def)

text \<open>The branch of the first interrupts, with no switch of the display pending.\<close>

lemma pit_handler_boots:
  assumes "total_terminal s < 3" and "switch_flag s = 0" and "curr_scheduled s = c"
  defines "u \<equiv> map_video (next_of c) (send_eoi 0 s)"
  shows "pit_handler s = (case execute (str_shell u) (pit_new_terminal (next_of c) u) of
      Returns r s \<Rightarrow> Returns 0 s
      | Enters e s \<Rightarrow> Enters e s | Resumes st s \<Rightarrow> Resumes st s | Stuck \<Rightarrow> Stuck | Crash \<Rightarrow> Crash)"
proof -
  have sw: "pit_switch (send_eoi 0 s) = send_eoi 0 s" using assms(2) by (simp add: pit_switch_def)
  have "total_terminal u = total_terminal s"
    by (simp add: u_def map_video_def Let_def)
  with assms(1,3) show ?thesis unfolding pit_handler_def Let_def sw by (simp add: u_def next_of_def)
qed

text \<open>An interrupt that starts a shell: with \<open>n\<close> shells running it makes terminal \<open>n + 1\<close> the displayed
  and the scheduled one and pushes the process with the least free number on its stack. The kernel's
  \<open>video_mem\<close> then points to a page that is not displayed, although the terminal is.\<close>

lemma boot_starts_shell:
  assumes "proc_view s st" and "total_terminal s = n" and "n \<in> {0, 1, 2}" and "switch_flag s = 0"
    and "curr_terminal s = max 1 n" and "curr_scheduled s = max 1 n"
    and "list_all (\<lambda>t. st t \<noteq> []) (filter (\<lambda>t. t < n) [0, 1])" and "st n = []"
    and "pit_handler s = Enters e s'"
  shows "\<exists>p. 1 \<le> p \<and> p \<notin> set (all_procs st) \<and> (\<forall>q. 1 \<le> q \<and> q < p \<longrightarrow> q \<in> set (all_procs st))
    \<and> proc_view s' (push n p st) \<and> user_pde s' = user_page (p - 1)
    \<and> total_terminal s' = n + 1 \<and> curr_terminal s' = n + 1 \<and> curr_scheduled s' = n + 1
    \<and> video_mem s' \<noteq> page_of (curr_terminal s') (curr_scheduled s')"
proof -
  define u where "u = map_video (next_of (max 1 n)) (send_eoi 0 s)"
  have nx: "next_of (max 1 n) \<in> {1, 2, 3}" using assms(3) by auto
  have u0: "u = (send_eoi 0 s)\<lparr>pgTbl_vidMem := (pgTbl_vidMem (send_eoi 0 s))
      (0 := page_of (max 1 n) (next_of (max 1 n)) OR 7), video_mem := page_of (max 1 n) (next_of (max 1 n))\<rparr>"
    using map_video_page [OF nx, of "send_eoi 0 s"] assms(5) by (simp add: u_def)
  let ?v = "pit_new_terminal (next_of (max 1 n)) u"
  have uf: "total_terminal u = n" "curr_terminal u = max 1 n" "curr_scheduled u = max 1 n"
    "highest_terminal_processes u = highest_terminal_processes s" "pcb_slots u = pcb_slots s"
    "process_count u = process_count s" "pcbs u = pcbs s" "video_mem u = page_of (max 1 n) (next_of (max 1 n))"
    using assms(2,5,6) by (simp_all add: u0)
  have "pit_handler s = (case execute (str_shell u) ?v of Returns r s \<Rightarrow> Returns 0 s
      | Enters e s \<Rightarrow> Enters e s | Resumes st s \<Rightarrow> Resumes st s | Stuck \<Rightarrow> Stuck | Crash \<Rightarrow> Crash)"
    using pit_handler_boots [of s "max 1 n"] assms(2,3,4,6) unfolding u_def by auto
  then have ex: "execute (str_shell u) ?v = Enters e s'"
    using assms(9) by (simp split: control.splits)
  have vf: "curr_terminal ?v = n + 1" "total_terminal ?v = n + 1" "curr_scheduled ?v = n + 1"
    "video_mem ?v = video_mem u" "highest_terminal_processes ?v = highest_terminal_processes s"
    "pcb_slots ?v = pcb_slots s" "process_count ?v = process_count s"
    using uf pit_new_terminal_simps [of "next_of (max 1 n)" u] assms(3) by auto
  have pv: "process_num (pcbs ?v q) = process_num (pcbs s q)" "parent_task (pcbs ?v q) = parent_task (pcbs s q)" for q
    using uf pit_new_terminal_simps(8,9) [of "next_of (max 1 n)" u q] by simp_all
  have "proc_view ?v st = proc_view s st"
    using vf(5-7) pv by (intro proc_view_cong) simp_all
  then have view: "proc_view ?v st" using assms(1) by simp
  have d: "curr_terminal ?v \<in> {1, 2, 3}" using vf(1) assms(3) by auto
  obtain p where p: "1 \<le> p" "p \<notin> set (all_procs st)" "\<And>q. 1 \<le> q \<Longrightarrow> q < p \<Longrightarrow> q \<in> set (all_procs st)"
    "proc_view s' (push (curr_terminal ?v - 1) p st)"
    "user_pde s' = user_page (p - 1)" "curr_terminal s' = curr_terminal ?v"
    by (rule execute_pushes [OF view d ex]) (rule that)
  have "total_terminal s' = n + 1" "curr_scheduled s' = n + 1" "video_mem s' = page_of (max 1 n) (next_of (max 1 n))"
    using scheduler_of_more [OF execute_more(1) [OF ex]] execute_more(2,3) [OF ex] vf uf(8) by simp_all
  moreover have "page_of (max 1 n) (next_of (max 1 n)) \<noteq> VIDEO" using assms(3) by (auto simp: page_of_def)
  ultimately show ?thesis
    using p vf(1) by (intro exI [of _ p]) (simp add: page_of_def)
qed

text \<open>A machine before the first interrupt.\<close>

definition sample_boot :: scheduler where
  "sample_boot = process.extend (sample_process\<lparr>process_count := 0,
       highest_terminal_processes := \<lambda>_. 0, pcb_slots := \<lambda>_. 0, str_shell := 0x30000\<rparr>) (scheduler.fields 0 0)"

lemma sample_boot_simps:
  "total_terminal sample_boot = 0" "switch_flag sample_boot = 0" "curr_terminal sample_boot = 1"
  "curr_scheduled sample_boot = 1" "str_shell sample_boot = 0x30000" "mem sample_boot = elf_image"
  "process_count sample_boot = 0" "pcb_slots sample_boot = (\<lambda>_. 0)" "frame sample_boot = 0x7FF000"
  "filesys_addr sample_boot = 0x10000" "pcbs sample_boot q = sample_pcb 1 0"
  by (simp_all add: sample_boot_def process.defs scheduler.defs sample_process_def)

lemma sample_boot_view: "proc_view sample_boot (\<lambda>_. [])"
  by (simp add: proc_view_def all_procs_def sample_boot_def process.defs scheduler.defs)

lemma boot_slot: "find_slot (\<lambda>_. 0) 0 6 = 0"
  by (simp add: eval_nat_numeral)

end
