(* ===== verification/Paging.thy ===== *)
theory Paging
  imports Scheduler
begin

text \<open>
  Paging, \<open>student-distrib/paging.c\<close>: the initial page tables and control registers, and the walk
  by which the processor translates an address with them. The second page table and the entries
  of the program page are kept by the process table.
\<close>

section \<open>State\<close>

text \<open>
  \<^item> \<open>pageTable\<close>: the entries of the page of the first table. The array has 16 elements, and the
    processor reads 1024 entries: those behind the array are the memory up to the next table;
  \<^item> \<open>pageTable_addr\<close>, \<open>pageDirectory_addr\<close>: where the linker put the tables;
  \<^item> \<open>cr0\<close>, \<open>cr3\<close>, \<open>cr4\<close>: the control registers.
\<close>

record paging = scheduler +
  pageTable :: "nat \<Rightarrow> u32"
  pageTable_addr :: u32
  pageDirectory_addr :: u32
  cr0 :: u32
  cr3 :: u32
  cr4 :: u32

abbreviation PAGE_TABLE_SIZE :: nat where "PAGE_TABLE_SIZE \<equiv> 0x10"
abbreviation PAGE_MEM_SIZE :: u32 where "PAGE_MEM_SIZE \<equiv> 0x1000"
abbreviation KERNEL_PHYS_ADDR :: u32 where "KERNEL_PHYS_ADDR \<equiv> 0x400000"

section \<open>Initialisation\<close>

text \<open>The loop that clears the arrays.\<close>

definition clear_tables :: "'a paging_scheme \<Rightarrow> 'a paging_scheme" where
  "clear_tables s =
     fold (\<lambda>i s. s\<lparr>pageTable := (pageTable s)(i := 0), pageDirectory := (pageDirectory s)(i := 2)\<rparr>)
       [0..<PAGE_TABLE_SIZE] s"

definition paging_init :: "'a paging_scheme \<Rightarrow> 'a paging_scheme" where
  "paging_init s =
     (let page = 0x017; kernelPage = 0x83; videoPage = 0x003;
          s = clear_tables s;
          s = s\<lparr>pageDirectory := (pageDirectory s)(0 := pageTable_addr s OR page)\<rparr>;
          s = s\<lparr>pageDirectory := (pageDirectory s)(1 := KERNEL_PHYS_ADDR OR kernelPage)\<rparr>;
          s = s\<lparr>pageTable := (pageTable s)(unat (VIDEO div PAGE_MEM_SIZE) := VIDEO OR videoPage)\<rparr>;
          s = s\<lparr>pageTable := (pageTable s)(unat (VIDEO1 div PAGE_MEM_SIZE) := VIDEO1 OR kernelPage)\<rparr>;
          s = s\<lparr>pageTable := (pageTable s)(unat (VIDEO2 div PAGE_MEM_SIZE) := VIDEO2 OR kernelPage)\<rparr>;
          s = s\<lparr>pageTable := (pageTable s)(unat (VIDEO3 div PAGE_MEM_SIZE) := VIDEO3 OR kernelPage)\<rparr>;
          s = s\<lparr>cr3 := (cr3 s AND 0x00000FFF) + pageDirectory_addr s\<rparr>;
          s = s\<lparr>cr4 := cr4 s OR 0x10\<rparr>
      in s\<lparr>cr0 := cr0 s OR 0x80000000\<rparr>)"

section \<open>Translation\<close>

text \<open>The page table at an address; the kernel has two.\<close>

definition table_at :: "'a paging_scheme \<Rightarrow> u32 \<Rightarrow> (nat \<Rightarrow> u32) option" where
  "table_at s base =
     (if base = pageTable_addr s then Some (pageTable s)
      else if base = pgTbl_vidMem_addr s then Some (pgTbl_vidMem s) else None)"

text \<open>The walk of the processor with 4 MB pages enabled: the physical address, and whether a
  program in user mode may use it. Bit 0 of an entry is the present bit, bit 2 lets user mode
  through, bit 7 of a directory entry marks a 4 MB page.\<close>

definition translate :: "'a paging_scheme \<Rightarrow> u32 \<Rightarrow> (u32 \<times> bool) option" where
  "translate s a =
     (let pde = pageDirectory s (unat (drop_bit 22 a))
      in if \<not> bit pde 0 then None
         else if bit pde 7 then Some ((pde AND 0xFFC00000) OR (a AND 0x003FFFFF), bit pde 2)
         else (case table_at s (pde AND 0xFFFFF000) of None \<Rightarrow> None
               | Some tbl \<Rightarrow>
                   (let pte = tbl (unat (drop_bit 12 a AND 0x3FF))
                    in if \<not> bit pte 0 then None
                       else Some ((pte AND 0xFFFFF000) OR (a AND 0xFFF), bit pde 2 \<and> bit pte 2))))"

end
