(* ===== verification/Descriptors.thy ===== *)
theory Descriptors
  imports Paging Printf
begin

text \<open>
  The descriptors of \<open>student-distrib/x86_desc.h\<close> and the interrupt descriptor table of
  \<open>student-distrib/idt.c\<close>: segment descriptors and gates as the records of bit fields that the
  header declares, the macros that fill them, \<open>add_vector\<close> and \<open>idt_init\<close>, and the exception
  handlers. The handlers written in assembly are known by their addresses only.
\<close>

section \<open>Segment descriptors\<close>

record seg_desc =
  seg_lim_15_00 :: u16
  base_15_00 :: u16
  base_23_16 :: u8
  seg_type :: "4 word"
  seg_sys :: "1 word"
  seg_dpl :: "2 word"
  seg_present :: "1 word"
  seg_lim_19_16 :: "4 word"
  avail :: "1 word"
  reserved :: "1 word"
  opsize :: "1 word"
  granularity :: "1 word"
  base_31_24 :: u8

text \<open>The macros \<open>SET_LDT_PARAMS\<close> and \<open>SET_TSS_PARAMS\<close>.\<close>

definition set_ldt_params :: "seg_desc \<Rightarrow> u32 \<Rightarrow> u32 \<Rightarrow> seg_desc" where
  "set_ldt_params str addr lim =
     str\<lparr>base_31_24 := ucast (drop_bit 24 (addr AND 0xFF000000)),
         base_23_16 := ucast (drop_bit 16 (addr AND 0x00FF0000)),
         base_15_00 := ucast (addr AND 0x0000FFFF),
         seg_lim_19_16 := ucast (drop_bit 16 (lim AND 0x000F0000)),
         seg_lim_15_00 := ucast (lim AND 0x0000FFFF)\<rparr>"

definition set_tss_params :: "seg_desc \<Rightarrow> u32 \<Rightarrow> u32 \<Rightarrow> seg_desc" where
  "set_tss_params str addr lim =
     str\<lparr>base_31_24 := ucast (drop_bit 24 (addr AND 0xFF000000)),
         base_23_16 := ucast (drop_bit 16 (addr AND 0x00FF0000)),
         base_15_00 := ucast (addr AND 0x0000FFFF),
         seg_lim_19_16 := ucast (drop_bit 16 (lim AND 0x000F0000)),
         seg_lim_15_00 := ucast (lim AND 0x0000FFFF)\<rparr>"

text \<open>The union member \<open>val[2]\<close>: the two words that the processor reads, from the packed struct.\<close>

definition seg_val :: "seg_desc \<Rightarrow> u32 \<times> u32" where
  "seg_val d =
     (ucast (seg_lim_15_00 d) OR push_bit 16 (ucast (base_15_00 d)),
      ucast (base_23_16 d) OR push_bit 8 (ucast (seg_type d)) OR push_bit 12 (ucast (seg_sys d))
      OR push_bit 13 (ucast (seg_dpl d)) OR push_bit 15 (ucast (seg_present d))
      OR push_bit 16 (ucast (seg_lim_19_16 d)) OR push_bit 20 (ucast (avail d))
      OR push_bit 21 (ucast (reserved d)) OR push_bit 22 (ucast (opsize d))
      OR push_bit 23 (ucast (granularity d)) OR push_bit 24 (ucast (base_31_24 d)))"

section \<open>Gates\<close>

record idt_desc =
  offset_15_00 :: u16
  seg_selector :: u16
  reserved4 :: u8
  reserved3 :: "1 word"
  reserved2 :: "1 word"
  reserved1 :: "1 word"
  gate_size :: "1 word"
  reserved0 :: "1 word"
  gate_dpl :: "2 word"
  gate_present :: "1 word"
  offset_31_16 :: u16

text \<open>The macro \<open>SET_IDT_ENTRY\<close>.\<close>

definition set_idt_entry :: "idt_desc \<Rightarrow> u32 \<Rightarrow> idt_desc" where
  "set_idt_entry str handler =
     str\<lparr>offset_31_16 := ucast (drop_bit 16 (handler AND 0xFFFF0000)), offset_15_00 := ucast (handler AND 0xFFFF)\<rparr>"

definition gate_val :: "idt_desc \<Rightarrow> u32 \<times> u32" where
  "gate_val d =
     (ucast (offset_15_00 d) OR push_bit 16 (ucast (seg_selector d)),
      ucast (reserved4 d) OR push_bit 8 (ucast (reserved3 d)) OR push_bit 9 (ucast (reserved2 d))
      OR push_bit 10 (ucast (reserved1 d)) OR push_bit 11 (ucast (gate_size d))
      OR push_bit 12 (ucast (reserved0 d)) OR push_bit 13 (ucast (gate_dpl d))
      OR push_bit 15 (ucast (gate_present d)) OR push_bit 16 (ucast (offset_31_16 d)))"

section \<open>The interrupt descriptor table\<close>

datatype handler =
    Divide_err | Debug | Nmi | Breakpoint | Overflow | Bound | Invalid_opcode | Device_NA | Double_fault
  | Coprocessor_seg_overrun | Invalid_tss | Seg_not_present | Stack_seg_fault | General_protection | Page_fault
  | Floating_point_err | Alignment_check | Machine_check | Floating_point_exception
  | System_calls_assembly | Rtc_assembly | Keyboard_assembly | Pit_assembly

text \<open>
  \<^item> \<open>idt\<close>: the 256 gates;
  \<^item> \<open>address_of\<close>, \<open>string_at\<close>: the addresses of the handlers and of the string literals;
  \<^item> \<open>arguments\<close>: where the caller of \<open>printf\<close> pushes the arguments behind the format;
  \<^item> \<open>ldt_desc_ptr\<close>, \<open>tss_desc_ptr\<close>: the two entries of the GDT that C code sets;
  \<^item> \<open>ldt\<close>, \<open>ldt_size\<close>, \<open>tss\<close>, \<open>tss_size\<close>: the tables of \<open>x86_desc.S\<close>, by address and limit;
  \<^item> \<open>tss_ldt\<close>, \<open>ldtr\<close>, \<open>tr\<close>: the selector in the task state segment, and the two registers.
\<close>

record descriptors = paging +
  idt :: "int \<Rightarrow> idt_desc"
  address_of :: "handler \<Rightarrow> u32"
  string_at :: "string \<Rightarrow> u32"
  arguments :: u32
  ldt_desc_ptr :: seg_desc
  tss_desc_ptr :: seg_desc
  ldt :: u32
  ldt_size :: u32
  tss :: u32
  tss_size :: u32
  tss_ldt :: u16
  ldtr :: u16
  tr :: u16

abbreviation U_LVL :: int where "U_LVL \<equiv> 3"
abbreviation K_LVL :: int where "K_LVL \<equiv> 0"
abbreviation CODE_TYPE :: int where "CODE_TYPE \<equiv> 1"
abbreviation DATA_TYPE :: int where "DATA_TYPE \<equiv> 0"
abbreviation KERNEL_CS :: u16 where "KERNEL_CS \<equiv> 0x0010"

definition add_vector :: "int \<Rightarrow> handler \<Rightarrow> int \<Rightarrow> int \<Rightarrow> 'a descriptors_scheme \<Rightarrow> 'a descriptors_scheme" where
  "add_vector index handler privilege type s =
     s\<lparr>idt := (idt s)(index :=
       (set_idt_entry (idt s index) (address_of s handler))
         \<lparr>seg_selector := KERNEL_CS, gate_present := 1, gate_dpl := of_int privilege, gate_size := 1,
          reserved0 := 0, reserved1 := 1, reserved2 := 1, reserved3 := of_int type, reserved4 := 0\<rparr>)\<rparr>"

definition idt_init :: "'a descriptors_scheme \<Rightarrow> 'a descriptors_scheme" where
  "idt_init s =
     (let s = add_vector 0 Divide_err K_LVL CODE_TYPE s;
          s = add_vector 1 Debug K_LVL CODE_TYPE s;
          s = add_vector 2 Nmi K_LVL CODE_TYPE s;
          s = add_vector 3 Breakpoint U_LVL DATA_TYPE s;
          s = add_vector 4 Overflow U_LVL DATA_TYPE s;
          s = add_vector 5 Bound U_LVL DATA_TYPE s;
          s = add_vector 6 Invalid_opcode K_LVL CODE_TYPE s;
          s = add_vector 7 Device_NA K_LVL CODE_TYPE s;
          s = add_vector 8 Double_fault K_LVL CODE_TYPE s;
          s = add_vector 9 Coprocessor_seg_overrun K_LVL CODE_TYPE s;
          s = add_vector 10 Invalid_tss K_LVL CODE_TYPE s;
          s = add_vector 11 Seg_not_present K_LVL CODE_TYPE s;
          s = add_vector 12 Stack_seg_fault K_LVL CODE_TYPE s;
          s = add_vector 13 General_protection K_LVL CODE_TYPE s;
          s = add_vector 14 Page_fault K_LVL CODE_TYPE s;
          s = add_vector 16 Floating_point_err K_LVL CODE_TYPE s;
          s = add_vector 17 Alignment_check K_LVL CODE_TYPE s;
          s = add_vector 18 Machine_check K_LVL CODE_TYPE s;
          s = add_vector 19 Floating_point_exception K_LVL CODE_TYPE s;
          s = add_vector 0x80 System_calls_assembly U_LVL 1 s;
          s = add_vector 40 Rtc_assembly K_LVL DATA_TYPE s;
          s = add_vector 33 Keyboard_assembly K_LVL DATA_TYPE s
      in add_vector 32 Pit_assembly K_LVL DATA_TYPE s)"

section \<open>The handlers\<close>

text \<open>The message that each exception handler prints.\<close>

fun message :: "handler \<Rightarrow> string" where
  "message Divide_err = ''div by zero''"
| "message Debug = ''debug''"
| "message Nmi = ''NMI''"
| "message Breakpoint = ''breakpoint''"
| "message Overflow = ''overflow error''"
| "message Bound = ''out of bounds''"
| "message Invalid_opcode = ''invalid opcode''"
| "message Device_NA = ''device not available''"
| "message Double_fault = ''double fault''"
| "message Coprocessor_seg_overrun = ''coprecessor segment overrun''"
| "message Invalid_tss = ''invalid tss''"
| "message Seg_not_present = ''segment not present''"
| "message Stack_seg_fault = ''stack segment fault''"
| "message General_protection = ''general protection''"
| "message Page_fault = ''page fault''"
| "message Floating_point_err = ''floating point error''"
| "message Alignment_check = ''alignment check''"
| "message Machine_check = ''machine check''"
| "message Floating_point_exception = ''floating point exception''"
| "message System_calls_assembly = ''''"
| "message Rtc_assembly = ''''"
| "message Keyboard_assembly = ''''"
| "message Pit_assembly = ''''"

text \<open>The state in which the handler of an exception stays: its last statement is \<open>while(1)\<close>.\<close>

definition exception_handler :: "handler \<Rightarrow> 'a descriptors_scheme \<Rightarrow> 'a descriptors_scheme option" where
  "exception_handler h s =
     (case printf2 (string_at s (message h)) (arguments s) s of
        None \<Rightarrow> None
      | Some (_, s) \<Rightarrow> Some (cli s))"

definition rtc_interrupt :: "'a rtc_scheme \<Rightarrow> 'a rtc_scheme" where
  "rtc_interrupt s = sti (rtc_handler (cli s))"

definition keyboard_interrupt :: "'a keyboard_scheme \<Rightarrow> 'a keyboard_scheme" where
  "keyboard_interrupt s = keyboard_handler s"

end
