(* ===== verification/Boot.thy ===== *)
theory Boot
  imports Descriptors
begin

text \<open>
  \<open>entry\<close> of \<open>student-distrib/kernel.c\<close>, the C part of the boot: it prints what the boot loader
  passed in the structures of \<open>multiboot.h\<close>, remembers where the file system module was loaded,
  completes the GDT, and initialises the interrupt table, paging and the devices.
\<close>

section \<open>Printing\<close>

text \<open>A call of \<open>printf\<close> with a string literal: the caller stores the arguments behind the format,
  so they lie at \<open>arguments\<close> when \<open>printf\<close> reads them.\<close>

primrec push_args :: "mem \<Rightarrow> u32 \<Rightarrow> u32 list \<Rightarrow> mem" where
  "push_args m sp [] = m"
| "push_args m sp (v # vs) = push_args (store32 m sp v) (sp + 4) vs"

definition call_printf :: "string \<Rightarrow> u32 list \<Rightarrow> 'a descriptors_scheme \<Rightarrow> 'a descriptors_scheme option" where
  "call_printf format vs s =
     (case printf (string_at s format) (arguments s) (s\<lparr>mem := push_args (mem s) (arguments s) vs\<rparr>) of
        None \<Rightarrow> None
      | Some (_, s) \<Rightarrow> Some s)"

section \<open>The structures of the boot loader\<close>

abbreviation MULTIBOOT_BOOTLOADER_MAGIC :: u32 where "MULTIBOOT_BOOTLOADER_MAGIC \<equiv> 0x2BADB002"

definition mb_flags :: "'a machine_scheme \<Rightarrow> u32 \<Rightarrow> u32" where "mb_flags s mbi = load32 (mem s) mbi"
definition mb_mem_lower :: "'a machine_scheme \<Rightarrow> u32 \<Rightarrow> u32" where "mb_mem_lower s mbi = load32 (mem s) (mbi + 4)"
definition mb_mem_upper :: "'a machine_scheme \<Rightarrow> u32 \<Rightarrow> u32" where "mb_mem_upper s mbi = load32 (mem s) (mbi + 8)"
definition mb_boot_device :: "'a machine_scheme \<Rightarrow> u32 \<Rightarrow> u32" where "mb_boot_device s mbi = load32 (mem s) (mbi + 12)"
definition mb_cmdline :: "'a machine_scheme \<Rightarrow> u32 \<Rightarrow> u32" where "mb_cmdline s mbi = load32 (mem s) (mbi + 16)"
definition mb_mods_count :: "'a machine_scheme \<Rightarrow> u32 \<Rightarrow> u32" where "mb_mods_count s mbi = load32 (mem s) (mbi + 20)"
definition mb_mods_addr :: "'a machine_scheme \<Rightarrow> u32 \<Rightarrow> u32" where "mb_mods_addr s mbi = load32 (mem s) (mbi + 24)"

text \<open>\<open>elf_sec\<close> is a structure of four words at offset 28.\<close>

definition mb_elf_sec :: "'a machine_scheme \<Rightarrow> u32 \<Rightarrow> u32 list" where
  "mb_elf_sec s mbi = map (\<lambda>k. load32 (mem s) (mbi + k)) [28, 32, 36, 40]"

definition mb_mmap_length :: "'a machine_scheme \<Rightarrow> u32 \<Rightarrow> u32" where "mb_mmap_length s mbi = load32 (mem s) (mbi + 44)"
definition mb_mmap_addr :: "'a machine_scheme \<Rightarrow> u32 \<Rightarrow> u32" where "mb_mmap_addr s mbi = load32 (mem s) (mbi + 48)"

definition check_flag :: "u32 \<Rightarrow> nat \<Rightarrow> bool" where
  "check_flag fl b \<longleftrightarrow> fl AND push_bit b 1 \<noteq> 0"

section \<open>The module\<close>

text \<open>The loop over the first 16 bytes, from \<open>i\<close> on with \<open>n\<close> to go; a \<open>char\<close> is passed sign-extended.\<close>

fun print_bytes :: "u32 \<Rightarrow> nat \<Rightarrow> nat \<Rightarrow> 'a descriptors_scheme \<Rightarrow> 'a descriptors_scheme option" where
  "print_bytes module i 0 s = Some s"
| "print_bytes module i (Suc n) s =
     (case call_printf ''0x%x '' [scast (mem s (load32 (mem s) module + of_nat i))] s of
        None \<Rightarrow> None
      | Some s \<Rightarrow> print_bytes module (Suc i) n s)"

text \<open>One round of the loop over the modules.\<close>

definition print_module :: "u32 \<Rightarrow> u32 \<Rightarrow> 'a descriptors_scheme \<Rightarrow> 'a descriptors_scheme option" where
  "print_module mod_count module s =
     (case call_printf (''Module %d loaded at address: 0x%#x'' @ [CHR 0x0A]) [mod_count, load32 (mem s) module] s of
        None \<Rightarrow> None
      | Some s \<Rightarrow>
          (let s = s\<lparr>filesys_addr := load32 (mem s) module\<rparr>
           in case call_printf (''Module %d ends at address: 0x%#x'' @ [CHR 0x0A])
                     [mod_count, load32 (mem s) (module + 4)] s of
                None \<Rightarrow> None
              | Some s \<Rightarrow>
                  (case call_printf (''First few bytes of module:'' @ [CHR 0x0A]) [] s of
                     None \<Rightarrow> None
                   | Some s \<Rightarrow>
                       (case print_bytes module 0 16 s of
                          None \<Rightarrow> None
                        | Some s \<Rightarrow> call_printf [CHR 0x0A] [] s))))"

partial_function (option) modules_loop ::
    "u32 \<Rightarrow> u32 \<Rightarrow> u32 \<Rightarrow> 'a descriptors_scheme \<Rightarrow> 'a descriptors_scheme option" where
  "modules_loop mbi mod_count module s =
     (if mod_count < mb_mods_count s mbi then
        (case print_module mod_count module s of
           None \<Rightarrow> None
         | Some s \<Rightarrow> modules_loop mbi (mod_count + 1) (module + 16) s)
      else Some s)"

section \<open>The memory map\<close>

definition print_mmap :: "u32 \<Rightarrow> 'a descriptors_scheme \<Rightarrow> 'a descriptors_scheme option" where
  "print_mmap mmap s =
     call_printf (''    size = 0x%x, base_addr = 0x%#x%#x'' @ [CHR 0x0A]
         @ ''    type = 0x%x,  length    = 0x%#x%#x'' @ [CHR 0x0A])
       [load32 (mem s) mmap, load32 (mem s) (mmap + 8), load32 (mem s) (mmap + 4), load32 (mem s) (mmap + 20),
        load32 (mem s) (mmap + 16), load32 (mem s) (mmap + 12)] s"

partial_function (option) mmap_loop :: "u32 \<Rightarrow> u32 \<Rightarrow> 'a descriptors_scheme \<Rightarrow> 'a descriptors_scheme option" where
  "mmap_loop mbi mmap s =
     (if mmap < mb_mmap_addr s mbi + mb_mmap_length s mbi then
        (case print_mmap mmap s of
           None \<Rightarrow> None
         | Some s \<Rightarrow> mmap_loop mbi (mmap + load32 (mem s) mmap + 4) s)
      else Some s)"

section \<open>The information that the loader passed\<close>

text \<open>From the flags to the memory map. The result says whether \<open>entry\<close> goes on: it returns when
  bits 4 and 5 are both set.\<close>

definition when_flag ::
    "u32 \<Rightarrow> nat \<Rightarrow> ('a descriptors_scheme \<Rightarrow> 'a descriptors_scheme option) \<Rightarrow> 'a descriptors_scheme \<Rightarrow>
     'a descriptors_scheme option" where
  "when_flag mbi b action s = (if check_flag (mb_flags s mbi) b then action s else Some s)"

definition print_info :: "u32 \<Rightarrow> 'a descriptors_scheme \<Rightarrow> (bool \<times> 'a descriptors_scheme) option" where
  "print_info mbi s =
     (case call_printf (''flags = 0x%#x'' @ [CHR 0x0A]) [mb_flags s mbi] s of None \<Rightarrow> None | Some s \<Rightarrow>
     (case when_flag mbi 0 (\<lambda>s. call_printf (''mem_lower = %uKB, mem_upper = %uKB'' @ [CHR 0x0A])
             [mb_mem_lower s mbi, mb_mem_upper s mbi] s) s of None \<Rightarrow> None | Some s \<Rightarrow>
     (case when_flag mbi 1 (\<lambda>s. call_printf (''boot_device = 0x%#x'' @ [CHR 0x0A]) [mb_boot_device s mbi] s) s
           of None \<Rightarrow> None | Some s \<Rightarrow>
     (case when_flag mbi 2 (\<lambda>s. call_printf (''cmdline = %s'' @ [CHR 0x0A]) [mb_cmdline s mbi] s) s
           of None \<Rightarrow> None | Some s \<Rightarrow>
     (case when_flag mbi 3 (\<lambda>s. modules_loop mbi 0 (mb_mods_addr s mbi) s) s of None \<Rightarrow> None | Some s \<Rightarrow>
     (if check_flag (mb_flags s mbi) 4 \<and> check_flag (mb_flags s mbi) 5 then
        map_option (Pair False) (call_printf (''Both bits 4 and 5 are set.'' @ [CHR 0x0A]) [] s)
      else
     (case when_flag mbi 5 (\<lambda>s. call_printf
             (''elf_sec: num = %u, size = 0x%#x, addr = 0x%#x, shndx = 0x%#x'' @ [CHR 0x0A])
             (mb_elf_sec s mbi) s) s of None \<Rightarrow> None | Some s \<Rightarrow>
      map_option (Pair True)
        (when_flag mbi 6 (\<lambda>s. case call_printf (''mmap_addr = 0x%#x, mmap_length = 0x%x'' @ [CHR 0x0A])
             [mb_mmap_addr s mbi, mb_mmap_length s mbi] s of None \<Rightarrow> None | Some s \<Rightarrow>
           mmap_loop mbi (mb_mmap_addr s mbi) s) s))))))))"

section \<open>The descriptors of the LDT and the TSS\<close>

abbreviation TSS_SIZE :: u32 where "TSS_SIZE \<equiv> 104"
abbreviation KERNEL_TSS :: u16 where "KERNEL_TSS \<equiv> 0x0030"
abbreviation KERNEL_LDT :: u16 where "KERNEL_LDT \<equiv> 0x0038"

text \<open>The local descriptor \<open>d\<close> is not initialised; the statements set every field of it.\<close>

definition init_ldt :: "seg_desc \<Rightarrow> 'a descriptors_scheme \<Rightarrow> 'a descriptors_scheme" where
  "init_ldt d s =
     (let d = d\<lparr>granularity := 0, opsize := 1, reserved := 0, avail := 0, seg_present := 1, seg_dpl := 0,
                seg_sys := 0, seg_type := 2\<rparr>;
          d = set_ldt_params d (ldt s) (ldt_size s);
          s = s\<lparr>ldt_desc_ptr := d\<rparr>
      in s\<lparr>ldtr := KERNEL_LDT\<rparr>)"

definition init_tss :: "seg_desc \<Rightarrow> 'a descriptors_scheme \<Rightarrow> 'a descriptors_scheme" where
  "init_tss d s =
     (let d = d\<lparr>granularity := 0, opsize := 0, reserved := 0, avail := 0,
                seg_lim_19_16 := ucast (TSS_SIZE AND 0x000F0000), seg_present := 1, seg_dpl := 0, seg_sys := 0,
                seg_type := 9, seg_lim_15_00 := ucast (TSS_SIZE AND 0x0000FFFF)\<rparr>;
          d = set_tss_params d (tss s) (tss_size s);
          s = s\<lparr>tss_desc_ptr := d\<rparr>;
          s = s\<lparr>tss_ldt := KERNEL_LDT\<rparr>;
          s = s\<lparr>tss_ss0 := KERNEL_DS\<rparr>;
          s = s\<lparr>tss_esp0 := 0x800000\<rparr>
      in s\<lparr>tr := KERNEL_TSS\<rparr>)"

section \<open>Initialisation\<close>

definition init_devices :: "'a descriptors_scheme \<Rightarrow> 'a descriptors_scheme" where
  "init_devices s =
     (let s = idt_init s;
          s = paging_init s;
          s = i8259_init s;
          s = enable_irq 1 s;
          s = sti s;
          s = clear s;
          s = clear1 s;
          s = clear2 s;
          s = clear3 s;
          s = cli s;
          s = outb 0x8B 0x70 s;
          (prev, s) = inb 0x71 s;
          s = outb 0x8B 0x70 s;
          s = outb (prev OR 0x40) 0x71 s;
          (_, s) = rtc_open 0 s;
          s = enable_irq 8 s;
          s = pit_init s
      in sti s)"

text \<open>The boolean says whether the kernel reaches its idle loop; the other results are returns to
  the assembly code. \<open>d1\<close> and \<open>d2\<close> are what the stack holds where the local descriptors lie.\<close>

definition entry ::
    "u32 \<Rightarrow> u32 \<Rightarrow> seg_desc \<Rightarrow> seg_desc \<Rightarrow> 'a descriptors_scheme \<Rightarrow> (bool \<times> 'a descriptors_scheme) option" where
  "entry magic addr d1 d2 s =
     (let s = clear s
      in if magic \<noteq> MULTIBOOT_BOOTLOADER_MAGIC then
           map_option (Pair False) (call_printf (''Invalid magic number: 0x%#x'' @ [CHR 0x0A]) [magic] s)
         else
           (case print_info addr s of
              None \<Rightarrow> None
            | Some (go_on, s) \<Rightarrow>
                if go_on then Some (True, init_devices (init_tss d2 (init_ldt d1 s))) else Some (False, s)))"

end
