(* ===== verification/Paging_Laws.thy ===== *)
theory Paging_Laws
  imports Paging Scheduler_Laws
begin

text \<open>
  What the page tables allow: the addresses that are mapped after the initialisation, the
  invariant that the kernel keeps of its tables, and the addresses that a program in user mode
  reaches under it.
\<close>

section \<open>The tables\<close>

text \<open>The linker aligns the tables to pages, at different addresses.\<close>

definition tables_linked :: "'a paging_scheme \<Rightarrow> bool" where
  "tables_linked s \<longleftrightarrow> pageTable_addr s AND 0xFFF = 0 \<and> pgTbl_vidMem_addr s AND 0xFFF = 0
     \<and> pageTable_addr s \<noteq> pgTbl_vidMem_addr s"

definition screen_entries :: "nat \<Rightarrow> u32" where
  "screen_entries = (\<lambda>_. 0)(0xB8 := 0xB8003, 0xB9 := 0xB9083, 0xBA := 0xBA083, 0xBB := 0xBB083)"

text \<open>The entries that the kernel ever makes present: the first page table, the kernel page, the
  program page of a process, and the second page table with the page that shows a terminal.\<close>

definition tables_ok :: "'a paging_scheme \<Rightarrow> bool" where
  "tables_ok s \<longleftrightarrow> tables_linked s \<and> pageTable s = screen_entries
     \<and> pageDirectory s 0 = pageTable_addr s OR 0x17 \<and> pageDirectory s 1 = 0x400083
     \<and> (\<forall>i. bit (pageDirectory s i) 0 \<longrightarrow> i = 0 \<or> i = 1 \<or> i = 32 \<or> i = 33)
     \<and> (bit (pageDirectory s 32) 0 \<longrightarrow> pageDirectory s 32 \<in> user_page ` {0, 1, 2, 3, 4, 5})
     \<and> (bit (pageDirectory s 33) 0 \<longrightarrow> pageDirectory s 33 = pgTbl_vidMem_addr s OR 7)
     \<and> (\<forall>i. bit (pgTbl_vidMem s i) 0 \<longrightarrow> i = 0)
     \<and> (bit (pgTbl_vidMem s 0) 0 \<longrightarrow> pgTbl_vidMem s 0 \<in> {0xB8007, 0xB9007, 0xBA007, 0xBB007})"

section \<open>Bits of entries\<close>

lemma page_bits:
  assumes "addr AND 0xFFF = (0 :: u32)" and "fl AND 0xFFFFF000 = 0"
  shows "(addr OR fl) AND 0xFFFFF000 = addr"
proof (rule bit_word_eqI)
  fix n :: nat
  assume n: "n < LENGTH(32)"
  have a: "\<not> (bit addr n \<and> bit (0xFFF :: u32) n)" and f: "\<not> (bit fl n \<and> bit (0xFFFFF000 :: u32) n)"
    using assms by (metis bit_and_iff bit_0_eq bot_apply bot_bool_def)+
  have "n \<in> {0..<32}" using n by simp
  then have "n \<in> {0, 1, 2, 3, 4, 5, 6, 7, 8, 9, 10, 11, 12, 13, 14, 15, 16, 17, 18, 19, 20, 21, 22, 23, 24, 25,
    26, 27, 28, 29, 30, 31}" by (simp add: atLeastLessThan_nat_numeral) presburger
  then have "bit (0xFFF :: u32) n = (\<not> bit (0xFFFFF000 :: u32) n)" by auto
  with a f show "bit ((addr OR fl) AND 0xFFFFF000) n = bit addr n"
    by (auto simp: bit_simps)
qed

lemma page_flag:
  assumes "addr AND 0xFFF = (0 :: u32)" and "bit (0xFFF :: u32) n"
  shows "bit (addr OR fl) n = bit fl n"
proof -
  have "\<not> (bit addr n \<and> bit (0xFFF :: u32) n)"
    using assms(1) by (metis bit_and_iff bit_0_eq bot_apply bot_bool_def)
  with assms(2) show ?thesis by (simp add: bit_or_iff)
qed

text \<open>The page and the offset of an address, as regions of memory.\<close>

lemma region_of_directory:
  "drop_bit 22 (a :: u32) = b \<Longrightarrow> in_region a (push_bit 22 b) 0x400000"
  "drop_bit 12 (a :: u32) = b \<Longrightarrow> in_region a (push_bit 12 b) 0x1000"
proof -
  have split: "a - push_bit n (drop_bit n a) = take_bit n a" for n
    using bits_ident [of n a] by (metis add_diff_cancel_left')
  have bound: "unat (take_bit n a) < 2 ^ n" for n
    by (simp add: unsigned_take_bit_eq)
  show "drop_bit 22 a = b \<Longrightarrow> in_region a (push_bit 22 b) 0x400000"
    using bound [of 22] by (auto simp: in_region_def split)
  show "drop_bit 12 a = b \<Longrightarrow> in_region a (push_bit 12 b) 0x1000"
    using bound [of 12] by (auto simp: in_region_def split)
qed

text \<open>A frame joined with an offset lies in the frame.\<close>

lemma in_frame_mask:
  assumes "base AND m = (0 :: u32)" and "unat m < n"
  shows "in_region (base OR (a AND m)) base n"
proof -
  have "base AND (a AND m) = 0" using assms(1) by (simp add: and.left_commute [of base a])
  from disjunctive_add_eq_or [OF this] have "(base OR (a AND m)) - base = a AND m"
    by (metis add_diff_cancel_left')
  moreover have "unat (a AND m) \<le> unat m" using word_and_le1 [of a m] by (simp only: word_le_nat_alt)
  ultimately show ?thesis using assms(2) by (simp only: in_region_def)
qed

lemma in_frame:
  "base AND 0x3FFFFF = (0 :: u32) \<Longrightarrow> in_region (base OR (a AND 0x3FFFFF)) base 0x400000"
  "base AND 0xFFF = (0 :: u32) \<Longrightarrow> in_region (base OR (a AND 0xFFF)) base 0x1000"
  by (erule in_frame_mask, simp)+

section \<open>Translation under the tables\<close>

lemma screen_entries_bits:
  "bit (screen_entries j) 0 \<Longrightarrow> j \<in> {0xB8, 0xB9, 0xBA, 0xBB}" "\<not> bit (screen_entries j) 2"
  by (auto simp: screen_entries_def split: if_splits)

lemma user_page_entry:
  assumes "k \<in> {0, 1, 2, 3, 4, 5}"
  shows "bit (user_page k) 0" "bit (user_page k) 7" "bit (user_page k) 2"
    "user_page k AND 0xFFC00000 = MB8 + of_int k * MB4"
  using assms by (auto simp: user_page_def)

text \<open>A table entry of the 1024.\<close>

lemma table_index: "unat (drop_bit 12 (a :: u32) AND 0x3FF) < 1024" "unat (drop_bit 22 (a :: u32)) < 1024"
proof -
  show "unat (drop_bit 12 a AND 0x3FF) < 1024"
    using word_and_le1 [of "drop_bit 12 a" "0x3FF"] by (simp add: word_le_nat_alt)
  have "unat (drop_bit 22 a) = unat a div 2 ^ 22" by (simp add: drop_bit_eq_div unat_div)
  then show "unat (drop_bit 22 a) < 1024"
    using unat_u32_bound [of a] by (simp add: div_less_iff_less_mult)
qed

lemma directory_region:
  assumes "unat (drop_bit 22 (a :: u32)) = i"
  shows "in_region a (of_nat (i * 0x400000)) 0x400000"
proof -
  have "drop_bit 22 a = of_nat i" using assms by auto
  then have "in_region a (push_bit 22 (of_nat i)) 0x400000" by (rule region_of_directory)
  then show ?thesis by (simp add: push_bit_eq_mult)
qed

lemma page_number:
  assumes "unat (drop_bit 22 (a :: u32)) = i" and "unat (drop_bit 12 a AND 0x3FF) = j"
  shows "drop_bit 12 a = of_nat (1024 * i + j)"
proof -
  have ij: "drop_bit 22 a = of_nat i" "drop_bit 12 a AND 0x3FF = of_nat j" using assms by auto
  have "drop_bit 12 a = push_bit 10 (drop_bit 10 (drop_bit 12 a)) + take_bit 10 (drop_bit 12 a)"
    by (simp only: bits_ident)
  also have "take_bit 10 (drop_bit 12 a) = of_nat j" using ij(2) by (simp add: take_bit_eq_mask mask_numeral)
  also have "drop_bit 10 (drop_bit 12 a) = of_nat i" using ij(1) by simp
  finally show ?thesis by (simp add: push_bit_eq_mult)
qed

lemma translate_user:
  assumes ok: "tables_ok s" and tr: "translate s a = Some (phys, True)"
  shows "(\<exists>k \<in> {0, 1, 2, 3, 4, 5}. pageDirectory s 32 = user_page k \<and> in_region a PROG_PAGE 0x400000
        \<and> in_region phys (MB8 + of_int k * MB4) 0x400000)
    \<or> in_region a USER_VID_ADDR 0x1000
        \<and> in_region phys (pgTbl_vidMem s 0 AND 0xFFFFF000) 0x1000 \<and> bit (pgTbl_vidMem s 0) 0"
proof -
  define i where "i = unat (drop_bit 22 a)"
  define j where "j = unat (drop_bit 12 a AND 0x3FF)"
  have linked: "pageTable_addr s AND 0xFFF = 0" "pgTbl_vidMem_addr s AND 0xFFF = 0"
    "pageTable_addr s \<noteq> pgTbl_vidMem_addr s"
    using ok by (simp_all add: tables_ok_def tables_linked_def)
  have present: "bit (pageDirectory s i) 0"
    using tr by (auto simp: translate_def Let_def i_def split: if_splits)
  then have "i = 0 \<or> i = 1 \<or> i = 32 \<or> i = 33" using ok by (simp add: tables_ok_def)
  then consider "i = 0" | "i = 1" | "i = 32" | "i = 33" by blast
  then show ?thesis
  proof cases
    case 1
    have "pageDirectory s 0 = pageTable_addr s OR 0x17" using ok by (simp add: tables_ok_def)
    moreover have "\<not> bit (pageTable_addr s OR 0x17) 7"
      using page_flag [OF linked(1), of 7 "0x17"] by simp
    moreover have "(pageTable_addr s OR 0x17) AND 0xFFFFF000 = pageTable_addr s"
      by (rule page_bits [OF linked(1)]) simp
    ultimately have False
      using tr 1 ok screen_entries_bits(2)
      by (auto simp: translate_def Let_def i_def table_at_def tables_ok_def split: if_splits)
    then show ?thesis ..
  next
    case 2
    have "pageDirectory s 1 = 0x400083" using ok by (simp add: tables_ok_def)
    with tr 2 have False by (auto simp: translate_def Let_def i_def split: if_splits)
    then show ?thesis ..
  next
    case 3
    then obtain k where k: "k \<in> {0, 1, 2, 3, 4, 5}" "pageDirectory s 32 = user_page k"
      using ok present by (auto simp: tables_ok_def)
    have "phys = (MB8 + of_int k * MB4) OR (a AND 0x3FFFFF)"
      using tr 3 k user_page_entry [OF k(1)] by (simp add: translate_def Let_def i_def)
    moreover have "(MB8 + of_int k * MB4) AND 0x3FFFFF = 0" using k(1) by auto
    ultimately have "in_region phys (MB8 + of_int k * MB4) 0x400000" using in_frame(1) by simp
    moreover have "in_region a PROG_PAGE 0x400000" using directory_region [of a 32] 3 by (simp add: i_def)
    ultimately show ?thesis using k by blast
  next
    case 4
    have pde: "pageDirectory s 33 = pgTbl_vidMem_addr s OR 7" using ok present 4 by (simp add: tables_ok_def)
    have big: "\<not> bit (pgTbl_vidMem_addr s OR 7) 7" using page_flag [OF linked(2), of 7 7] by simp
    have base: "(pgTbl_vidMem_addr s OR 7) AND 0xFFFFF000 = pgTbl_vidMem_addr s"
      by (rule page_bits [OF linked(2)]) simp
    have tbl: "table_at s (pgTbl_vidMem_addr s) = Some (pgTbl_vidMem s)"
      using linked(3) by (simp add: table_at_def)
    have walk: "bit (pgTbl_vidMem s j) 0 \<and> phys = (pgTbl_vidMem s j AND 0xFFFFF000) OR (a AND 0xFFF)"
      using tr 4 pde big base tbl by (auto simp: translate_def Let_def i_def j_def split: if_splits)
    then have j: "j = 0" using ok by (simp add: tables_ok_def)
    have "in_region phys (pgTbl_vidMem s 0 AND 0xFFFFF000) 0x1000"
      using walk j in_frame(2) [of "pgTbl_vidMem s 0 AND 0xFFFFF000" a] by (simp add: and.assoc)
    moreover have "in_region a USER_VID_ADDR 0x1000"
    proof -
      have "drop_bit 12 a = 0x8400" using page_number [of a 33 0] 4 j by (simp add: i_def j_def)
      from region_of_directory(2) [OF this] show ?thesis by simp
    qed
    ultimately show ?thesis using walk j by blast
  qed
qed

section \<open>The initial tables\<close>

lemma in_region_interval:
  assumes "unat b + n \<le> 4294967296"
  shows "in_region a b n = (unat b \<le> unat a \<and> unat a < unat b + n)"
proof (cases "b \<le> a")
  case True
  then show ?thesis by (auto simp: in_region_def unat_sub word_le_nat_alt)
next
  case False
  then have "unat a < unat b" by (simp add: word_le_nat_alt)
  moreover have "unat (a - b) = 4294967296 + unat a - unat b"
    using False by (simp add: unat_sub_if' word_le_nat_alt)
  ultimately show ?thesis using assms unfolding in_region_def by linarith
qed

lemma low_bits: "a AND 0xFFF = take_bit 12 (a :: u32)" "a AND 0x3FFFFF = take_bit 22 (a :: u32)"
  by (simp_all add: take_bit_eq_mask mask_numeral)

text \<open>A frame joined with the offset of an address of the same number is that address.\<close>

lemma identity_frame:
  assumes "take_bit n base = (0 :: u32)" and "drop_bit n base = drop_bit n a"
  shows "base OR take_bit n a = a"
proof -
  have "base AND take_bit n a = 0"
    using assms(1) by (simp add: take_bit_eq_mask and.left_commute [of base a])
  then have "base OR take_bit n a = base + take_bit n a" by (rule disjunctive_add_eq_or [symmetric])
  moreover have "base = push_bit n (drop_bit n a)"
    using assms bits_ident [of n base] by simp
  ultimately show ?thesis by (simp add: bits_ident)
qed

lemma directory_entry: "(unat (drop_bit 22 (a :: u32)) = i) = (unat a div 0x400000 = i)"
  by (simp add: drop_bit_eq_div unat_div)

lemma page_entry: "unat (drop_bit 12 (a :: u32)) = unat a div 0x1000"
  by (simp add: drop_bit_eq_div unat_div)

text \<open>The first page table maps the four text pages to themselves, for the kernel alone; the
  second entry of the directory maps the kernel's 4 MB to themselves.\<close>

lemma div_range:
  "0 < d \<Longrightarrow> (k * d \<le> x \<and> x < (k + n) * d) = (k \<le> x div d \<and> x div d < k + n)" for d :: nat
  by (simp add: less_eq_div_iff_mult_less_eq div_less_iff_less_mult)

lemma video_region: "in_region a VIDEO 0x4000 = (drop_bit 12 a \<in> {0xB8, 0xB9, 0xBA, 0xBB})"
proof -
  have "in_region a VIDEO 0x4000 = (0xB8 * 0x1000 \<le> unat a \<and> unat a < (0xB8 + 4) * 0x1000)"
    by (simp add: in_region_interval)
  also have "\<dots> = (0xB8 \<le> unat (drop_bit 12 a) \<and> unat (drop_bit 12 a) < 0xB8 + 4)"
    unfolding page_entry by (rule div_range) simp
  also have "\<dots> = (unat (drop_bit 12 a) \<in> {0xB8, 0xB9, 0xBA, 0xBB})" by auto
  also have "\<dots> = (drop_bit 12 a \<in> {0xB8, 0xB9, 0xBA, 0xBB})" by (auto simp: word_unat_eq_iff)
  finally show ?thesis .
qed

lemma kernel_region: "in_region a 0x400000 0x400000 = (drop_bit 22 a = 1)"
proof -
  have "in_region a 0x400000 0x400000 = (1 * 0x400000 \<le> unat a \<and> unat a < (1 + 1) * 0x400000)"
    by (simp add: in_region_interval)
  also have "\<dots> = (1 \<le> unat a div 0x400000 \<and> unat a div 0x400000 < 1 + 1)"
    by (rule div_range) simp
  also have "\<dots> = (unat (drop_bit 22 a) = 1)" by (auto simp: directory_entry)
  finally show ?thesis by (simp add: word_unat_eq_iff)
qed

lemma clear_tables_eq:
  "clear_tables s = s\<lparr>pageTable := \<lambda>i. if i < 16 then 0 else pageTable s i,
     pageDirectory := \<lambda>i. if i < 16 then 2 else pageDirectory s i\<rparr>"
proof -
  let ?f = "\<lambda>i s. s\<lparr>pageTable := (pageTable s)(i := 0), pageDirectory := (pageDirectory s)(i := 2)\<rparr>"
  have upd: "(\<lambda>i. if i < n then c else f i)(n := c) = (\<lambda>i. if i < Suc n then c else f i)"
    for c :: u32 and f and n :: nat
    by (auto simp: less_Suc_eq)
  have "fold ?f [0..<n] s = s\<lparr>pageTable := \<lambda>i. if i < n then 0 else pageTable s i,
     pageDirectory := \<lambda>i. if i < n then 2 else pageDirectory s i\<rparr>" for n
  proof (induction n)
    case (Suc n)
    have "fold ?f [0..<Suc n] s = ?f n (fold ?f [0..<n] s)" by simp
    then show ?case unfolding Suc.IH by (simp add: upd del: fun_upd_apply)
  qed simp
  then show ?thesis by (simp add: clear_tables_def)
qed

text \<open>Memory behind the arrays that nothing has written to yet.\<close>

definition tables_blank :: "'a paging_scheme \<Rightarrow> bool" where
  "tables_blank s \<longleftrightarrow> (\<forall>i \<ge> 16. pageTable s i = 0 \<and> pageDirectory s i = 0) \<and> pgTbl_vidMem s = (\<lambda>_. 0)"

lemma paging_init_tables:
  "pageTable_addr (paging_init s) = pageTable_addr s" "pageDirectory_addr (paging_init s) = pageDirectory_addr s"
  "pgTbl_vidMem_addr (paging_init s) = pgTbl_vidMem_addr s" "pgTbl_vidMem (paging_init s) = pgTbl_vidMem s"
  "cr3 (paging_init s) = (cr3 s AND 0xFFF) + pageDirectory_addr s" "cr4 (paging_init s) = cr4 s OR 0x10"
  "cr0 (paging_init s) = cr0 s OR 0x80000000"
  "pageDirectory (paging_init s) = (\<lambda>i. if i < 16 then 2 else pageDirectory s i)
     (0 := pageTable_addr s OR 0x17, 1 := 0x400083)"
  "tables_blank s \<Longrightarrow> pageTable (paging_init s) = screen_entries"
  by (auto simp: paging_init_def Let_def clear_tables_eq tables_blank_def screen_entries_def fun_eq_iff)

lemma paging_init_ok: "tables_linked s \<Longrightarrow> tables_blank s \<Longrightarrow> tables_ok (paging_init s)"
  unfolding tables_ok_def
  by (auto simp: paging_init_tables tables_linked_def tables_blank_def)

lemma paging_init_maps_all:
  assumes "tables_linked s" and "tables_blank s" and "pageDirectory_addr s AND 0xFFF = 0"
  shows "translate (paging_init s) a =
      (if in_region a VIDEO 0x4000 \<or> in_region a 0x400000 0x400000 then Some (a, False) else None)
    \<and> cr3 (paging_init s) AND 0xFFFFF000 = pageDirectory_addr s
    \<and> bit (cr0 (paging_init s)) 31 \<and> bit (cr4 (paging_init s)) 4 \<and> tables_ok (paging_init s)"
proof (intro conjI)
  let ?s = "paging_init s" and ?i = "unat (drop_bit 22 a)" and ?j = "unat (drop_bit 12 a AND 0x3FF)"
  note ok = paging_init_ok [OF assms(1,2)]
  have linked: "pageTable_addr s AND 0xFFF = 0" using assms(1) by (simp add: tables_linked_def)
  have dir: "pageDirectory ?s ?i = (if ?i = 0 then pageTable_addr s OR 0x17 else if ?i = 1 then 0x400083
      else if ?i < 16 then 2 else 0)"
    using assms(2) by (auto simp: paging_init_tables tables_blank_def)
  have kernel: "in_region a 0x400000 0x400000 = (?i = 1)" by (simp add: kernel_region word_unat_eq_iff)
  have pages: "drop_bit 12 a = of_nat (1024 * ?i + ?j)" by (rule page_number) simp_all
  have video: "in_region a VIDEO 0x4000 = (?i = 0 \<and> ?j \<in> {0xB8, 0xB9, 0xBA, 0xBB})"
  proof
    assume "in_region a VIDEO 0x4000"
    then have *: "drop_bit 12 a \<in> {0xB8, 0xB9, 0xBA, 0xBB}" by (simp only: video_region)
    have "drop_bit 22 a = drop_bit 10 (drop_bit 12 a)" by simp
    also have "\<dots> = 0" using * by (elim insertE emptyE) (simp_all only:, simp_all)
    finally show "?i = 0 \<and> ?j \<in> {0xB8, 0xB9, 0xBA, 0xBB}" using * by auto
  next
    assume *: "?i = 0 \<and> ?j \<in> {0xB8, 0xB9, 0xBA, 0xBB}"
    have "\<forall>j \<in> {0xB8, 0xB9, 0xBA, 0xBB}. (of_nat j :: u32) \<in> {0xB8, 0xB9, 0xBA, 0xBB}" by simp
    moreover have "drop_bit 12 a = of_nat ?j" using pages * by (metis add_0 mult_0_right)
    ultimately have "drop_bit 12 a \<in> {0xB8, 0xB9, 0xBA, 0xBB}" using * by metis
    then show "in_region a VIDEO 0x4000" by (simp only: video_region)
  qed
  show "translate ?s a =
      (if in_region a VIDEO 0x4000 \<or> in_region a 0x400000 0x400000 then Some (a, False) else None)"
  proof (cases "?i = 0")
    case True
    have big: "bit (pageTable_addr s OR 0x17) 0" "\<not> bit (pageTable_addr s OR 0x17) 7"
      using page_flag [OF linked, of _ "0x17"] by simp_all
    have base: "(pageTable_addr s OR 0x17) AND 0xFFFFF000 = pageTable_addr s"
      by (rule page_bits [OF linked]) simp
    have entry: "(screen_entries ?j AND 0xFFFFF000) OR (a AND 0xFFF) = a" if "?j \<in> {0xB8, 0xB9, 0xBA, 0xBB}"
    proof -
      have frames: "\<forall>j \<in> {0xB8, 0xB9, 0xBA, 0xBB}. take_bit 12 (screen_entries j AND 0xFFFFF000) = 0
          \<and> drop_bit 12 (screen_entries j AND 0xFFFFF000) = of_nat j"
        by (simp add: screen_entries_def)
      have "drop_bit 12 a = of_nat ?j" using pages True by (metis add_0 mult_0_right)
      with frames that show ?thesis unfolding low_bits by (intro identity_frame) metis+
    qed
    have "translate ?s a = (if bit (screen_entries ?j) 0
        then Some ((screen_entries ?j AND 0xFFFFF000) OR (a AND 0xFFF), False) else None)"
      using True dir big base paging_init_tables(9) [OF assms(2)] screen_entries_bits(2)
      by (simp add: translate_def Let_def table_at_def paging_init_tables)
    moreover have "bit (screen_entries ?j) 0 = (?j \<in> {0xB8, 0xB9, 0xBA, 0xBB})"
      using screen_entries_bits(1) by (auto simp: screen_entries_def)
    ultimately show ?thesis using entry True by (simp only: video kernel) auto
  next
    case False
    have "(0x400083 AND 0xFFC00000) OR (a AND 0x3FFFFF) = a" if "?i = 1"
      unfolding low_bits using that by (intro identity_frame) (simp_all add: word_unat_eq_iff)
    then show ?thesis using False dir by (auto simp: translate_def Let_def video kernel)
  qed
  show "cr3 ?s AND 0xFFFFF000 = pageDirectory_addr s"
  proof -
    have "pageDirectory_addr s AND (cr3 s AND 0xFFF) = 0"
      using assms(3) by (simp add: and.left_commute)
    then have "cr3 ?s = pageDirectory_addr s OR (cr3 s AND 0xFFF)"
      by (simp add: paging_init_tables disjunctive_add_eq_or add.commute)
    then show ?thesis using page_bits [OF assms(3), of "cr3 s AND 0xFFF"] by (simp add: and.assoc)
  qed
  show "bit (cr0 ?s) 31" "bit (cr4 ?s) 4" by (simp_all add: paging_init_tables bit_or_iff)
  show "tables_ok ?s" by (rule ok)
qed

section \<open>Properties\<close>

text \<open>C26. After \<open>paging_init\<close> the processor has paging with 4 MB pages turned on and walks the
  kernel's directory; exactly the four text pages and the kernel's 4 MB are mapped, each address to
  itself, and none of it can be used in user mode. In particular a NULL pointer faults.\<close>

theorem paging_init_maps:
  assumes "tables_linked s" and "tables_blank s" and "pageDirectory_addr s AND 0xFFF = 0"
  shows "translate (paging_init s) a =
      (if in_region a VIDEO 0x4000 \<or> in_region a 0x400000 0x400000 then Some (a, False) else None)
    \<and> cr3 (paging_init s) AND 0xFFFFF000 = pageDirectory_addr s
    \<and> bit (cr0 (paging_init s)) 31 \<and> bit (cr4 (paging_init s)) 4 \<and> tables_ok (paging_init s)"
  using assms by (rule paging_init_maps_all)

text \<open>A machine before paging is turned on.\<close>

definition sample_unpaged :: paging where
  "sample_unpaged = scheduler.extend (sample_boot\<lparr>pageDirectory := \<lambda>_. 0\<rparr>)
     (paging.fields (\<lambda>_. 0) 0x4000 0x6000 0x11 0 0)"

theorem paging_init_maps_witness:
  "translate (paging_init sample_unpaged) 0xB8FFF = Some (0xB8FFF, False)
    \<and> translate (paging_init sample_unpaged) 0 = None"
proof -
  have "tables_linked sample_unpaged" "tables_blank sample_unpaged" "pageDirectory_addr sample_unpaged AND 0xFFF = 0"
    by (simp_all add: sample_unpaged_def tables_linked_def tables_blank_def sample_boot_def scheduler.defs
        paging.defs process.defs sample_process_def)
  note maps = paging_init_maps [OF this]
  show ?thesis using maps [of "0xB8FFF"] maps [of 0] by (simp add: in_region_def)
qed

end
