(* ===== verification/Printf_Spec.thy ===== *)
theory Printf_Spec
  imports Printf_Laws
begin

text \<open>
  What \<open>printf\<close> and \<open>printf2\<close> print: the format string with each conversion replaced by the text
  of its argument. The specification is a function on lists of bytes; the proof is done once for
  the interface of a character device and holds for both routines.
\<close>

section \<open>Specification\<close>

definition hex_text :: "bool \<Rightarrow> u32 \<Rightarrow> u8 list" where
  "hex_text alternate v =
     (let ds = numeral_of 16 (unat v) in if alternate then replicate (8 - length ds) 48 @ ds else ds)"

definition decimal_text :: "u32 \<Rightarrow> u8 list" where
  "decimal_text v = (if sint v < 0 then 45 # numeral_of 10 (unat (- v)) else numeral_of 10 (unat v))"

text \<open>\<open>strings\<close> gives the string at an address. After a percent sign, \<open>#\<close> asks for all eight
  hexadecimal digits; an unknown conversion prints nothing and takes no argument.\<close>

fun spec_format :: "(u32 \<Rightarrow> u8 list) \<Rightarrow> u8 list \<Rightarrow> u32 list \<Rightarrow> u8 list"
  and spec_conversion :: "(u32 \<Rightarrow> u8 list) \<Rightarrow> bool \<Rightarrow> u8 list \<Rightarrow> u32 list \<Rightarrow> u8 list" where
  "spec_format strings [] args = []"
| "spec_format strings (c # cs) args =
     (if c = 37 then spec_conversion strings False cs args else c # spec_format strings cs args)"
| "spec_conversion strings alternate [] args = []"
| "spec_conversion strings alternate (c # cs) args =
     (if c = 37 then 37 # spec_format strings cs args
      else if c = 35 then spec_conversion strings True cs args
      else if c = 120 then hex_text alternate (hd args) @ spec_format strings cs (tl args)
      else if c = 117 then numeral_of 10 (unat (hd args)) @ spec_format strings cs (tl args)
      else if c = 100 then decimal_text (hd args) @ spec_format strings cs (tl args)
      else if c = 99 then ucast (hd args) # spec_format strings cs (tl args)
      else if c = 115 then strings (hd args) @ spec_format strings cs (tl args)
      else spec_format strings cs args)"

text \<open>Every percent sign is followed by a conversion, and there are arguments and strings for
  all of them.\<close>

fun format_ok :: "(u32 \<Rightarrow> bool) \<Rightarrow> u8 list \<Rightarrow> u32 list \<Rightarrow> bool"
  and conversion_ok :: "(u32 \<Rightarrow> bool) \<Rightarrow> u8 list \<Rightarrow> u32 list \<Rightarrow> bool" where
  "format_ok good [] args = True"
| "format_ok good (c # cs) args = (if c = 37 then conversion_ok good cs args else format_ok good cs args)"
| "conversion_ok good [] args = False"
| "conversion_ok good (c # cs) args =
     (if c = 37 then format_ok good cs args
      else if c = 35 then conversion_ok good cs args
      else if c = 120 \<or> c = 117 \<or> c = 100 \<or> c = 99 then args \<noteq> [] \<and> format_ok good cs (tl args)
      else if c = 115 then args \<noteq> [] \<and> good (hd args) \<and> format_ok good cs (tl args)
      else format_ok good cs args)"

text \<open>The words of the arguments on the stack.\<close>

primrec args_at :: "mem \<Rightarrow> u32 \<Rightarrow> u32 list \<Rightarrow> bool" where
  "args_at m sp [] = True"
| "args_at m sp (v # vs) = (load32 m sp = v \<and> args_at m (sp + 4) vs)"

section \<open>Digits\<close>

lemma sint_of_nat_small:
  assumes "n < 2147483648"
  shows "sint (of_nat n :: u32) = int n"
  using assms by (simp add: signed_of_nat signed_take_bit_int_eq_self)

lemma zero_pad_fill:
  "k \<le> 8 \<Longrightarrow> zero_pad buf (8 - int k) m = fill m (buf + of_int (8 - int k)) k 48"
proof (induction k arbitrary: m)
  case 0
  then show ?case by (subst zero_pad.simps) simp
next
  case (Suc k)
  have "zero_pad buf (8 - int (Suc k)) m = zero_pad buf (8 - int k) (m(buf + of_int (8 - int (Suc k)) := 48))"
    by (subst zero_pad.simps) (simp add: algebra_simps)
  also have "\<dots> = fill (m(buf + of_int (8 - int (Suc k)) := 48)) (buf + of_int (8 - int (Suc k)) + 1) k 48"
    using Suc by (simp add: algebra_simps)
  also have "\<dots> = fill m (buf + of_int (8 - int (Suc k))) (Suc k) 48"
    using Suc.prems by (intro fill_Suc) simp
  finally show ?case .
qed

lemma length_hex: "length (numeral_of 16 (unat (v :: u32))) \<le> 8"
proof -
  have "length (rdigits 16 (unat v)) \<le> 8" using unat_u32_bound [of v] by (intro length_rdigits) simp_all
  then show ?thesis by (simp add: numeral_of_def)
qed

lemma replicate_str_at:
  "str_at m (a + of_nat k) cs \<Longrightarrow> (\<And>i. i < k \<Longrightarrow> m (a + of_nat i) = 48) \<Longrightarrow> str_at m a (replicate k 48 @ cs)"
proof (induction k arbitrary: a)
  case (Suc k)
  have "str_at m (a + 1) (replicate k 48 @ cs)"
    using Suc.prems(1) Suc.prems(2) [of "Suc i" for i] by (intro Suc.IH) (simp_all add: add.assoc)
  then show ?case using Suc.prems(2) [of 0] by (simp add: str_at_Cons)
qed simp

lemma str_at_cong:
  "str_at m a cs \<Longrightarrow> (\<And>i. i \<le> length cs \<Longrightarrow> m' (a + of_nat i) = m (a + of_nat i)) \<Longrightarrow> str_at m' a cs"
  unfolding str_at_def by (auto simp: bytes_eq_iff)

text \<open>The hexadecimal conversion with leading zeros: the digits at offset 8 of the buffer and
  zeros before them make a string of eight characters.\<close>

lemma padded_str_at:
  assumes "str_at m (buf + 8) ds" and "length ds \<le> 8"
  shows "str_at (zero_pad buf (int (length ds)) m) (buf + of_nat (length ds)) (replicate (8 - length ds) 48 @ ds)"
proof -
  let ?n = "length ds"
  let ?m = "fill m (buf + of_nat ?n) (8 - ?n) 48"
  have pad: "zero_pad buf (int ?n) m = ?m"
    using zero_pad_fill [of "8 - ?n" buf m] assms(2) by (simp add: of_nat_diff)
  have eq: "buf + of_nat ?n + of_nat (8 - ?n) = buf + 8"
    using assms(2) by (metis add.assoc le_add_diff_inverse of_nat_add of_nat_numeral)
  have "?m (buf + 8 + of_nat i) = m (buf + 8 + of_nat i)" if "i \<le> ?n" for i
  proof -
    have "buf + 8 + of_nat i - (buf + of_nat ?n) = of_nat (8 - ?n + i)"
      using eq by (simp add: algebra_simps)
    moreover have "unat (of_nat (8 - ?n + i) :: u32) = 8 - ?n + i"
      by (rule unat_of_nat_small) (use that assms(2) in linarith)
    ultimately have "unat (buf + 8 + of_nat i - (buf + of_nat ?n)) = 8 - ?n + i" by (simp only:)
    then show ?thesis by (simp add: fill_def in_region_def)
  qed
  with assms(1) have "str_at ?m (buf + of_nat ?n + of_nat (8 - ?n)) ds"
    unfolding eq by (rule str_at_cong)
  moreover have "?m (buf + of_nat ?n + of_nat i) = 48" if "i < 8 - ?n" for i
    using in_region_add [OF that, of "buf + of_nat ?n"] by (simp add: fill_def)
  ultimately show ?thesis unfolding pad by (rule replicate_str_at)
qed

lemma zero_pad_outside:
  assumes "n \<le> 8" and "\<not> in_region a buf 8"
  shows "zero_pad buf (int n) m a = m a"
proof -
  have "zero_pad buf (int n) m = fill m (buf + of_nat n) (8 - n) 48"
    using zero_pad_fill [of "8 - n" buf m] assms(1) by (simp add: of_nat_diff)
  moreover have "\<not> in_region a (buf + of_nat n) (8 - n)"
  proof
    assume "in_region a (buf + of_nat n) (8 - n)"
    then obtain i where "i < 8 - n" "a = buf + of_nat (n + i)" by (auto elim!: in_regionE simp: add.assoc)
    then have "in_region a buf 8" using in_region_add [of "n + i" 8 buf] by simp
    with assms(2) show False ..
  qed
  ultimately show ?thesis by (simp add: fill_def)
qed

section \<open>What a call needs\<close>

text \<open>The bytes that printing leaves alone: those of neither the page nor \<open>conv_buf\<close>.\<close>

definition kept :: "u32 \<Rightarrow> 'a console_scheme \<Rightarrow> u32 \<Rightarrow> bool" where
  "kept page s a \<longleftrightarrow> \<not> in_region a page 4000 \<and> \<not> in_region a (frame s) 64"

definition string_kept :: "u32 \<Rightarrow> 'a console_scheme \<Rightarrow> u32 \<Rightarrow> u8 list \<Rightarrow> bool" where
  "string_kept page s a cs \<longleftrightarrow> str_at (mem s) a cs \<and> (\<forall>i \<le> length cs. kept page s (a + of_nat i))"

text \<open>The format, the arguments and the strings lie in memory that printing leaves alone.\<close>

definition printable ::
    "u32 \<Rightarrow> (u32 \<Rightarrow> u8 list) \<Rightarrow> (u32 \<Rightarrow> bool) \<Rightarrow> u32 \<Rightarrow> u8 list \<Rightarrow> u32 \<Rightarrow> u32 list \<Rightarrow> 'a console_scheme \<Rightarrow> bool" where
  "printable page strings good buf fs sp args s \<longleftrightarrow> disjoint_regions (frame s) 64 page 4000
     \<and> string_kept page s buf fs \<and> args_at (mem s) sp args \<and> (\<forall>i < 4 * length args. kept page s (sp + of_nat i))
     \<and> (\<forall>a. good a \<longrightarrow> string_kept page s a (strings a))"

section \<open>Devices whose state is in memory\<close>

text \<open>A character device that does not depend on the memory outside its page.\<close>

locale memory_device = char_device put view ready page
  for put :: "u8 \<Rightarrow> 'a console_scheme \<Rightarrow> 'a console_scheme" and view ready page +
  assumes ready_mem: "ready (s\<lparr>mem := m\<rparr>) = ready s"
    and view_mem: "(\<And>a. in_region a page 4000 \<Longrightarrow> m a = mem s a) \<Longrightarrow> view (s\<lparr>mem := m\<rparr>) = view s"
begin

definition printed :: "u8 list \<Rightarrow> 'a console_scheme \<Rightarrow> 'a console_scheme \<Rightarrow> bool" where
  "printed out s s' \<longleftrightarrow> ready s' \<and> view s' = fold spec_putc out (view s) \<and> frame s' = frame s
     \<and> (\<forall>a. kept page s a \<longrightarrow> mem s' a = mem s a)"

lemma printed_refl: "ready s \<Longrightarrow> printed [] s s"
  by (simp add: printed_def)

lemma printed_trans: "printed xs s s' \<Longrightarrow> printed ys s' s'' \<Longrightarrow> printed (xs @ ys) s s''"
  by (auto simp: printed_def kept_def)

lemma printed_put: "ready s \<Longrightarrow> printed [c] s (put c s)"
  by (simp add: printed_def kept_def view_put ready_put mem_put frame_put)

lemma printed_fold: "ready s \<Longrightarrow> printed cs s (fold put cs s)"
proof (induction cs arbitrary: s)
  case (Cons c cs)
  from printed_trans [OF printed_put [OF Cons.prems, of c] Cons.IH [OF ready_put [OF Cons.prems]]]
  show ?case by simp
qed (simp add: printed_refl)

lemma printed_mem:
  assumes "ready s" and "disjoint_regions (frame s) 64 page 4000"
    and "\<And>a. \<not> in_region a (frame s) 64 \<Longrightarrow> m a = mem s a"
  shows "printed [] s (s\<lparr>mem := m\<rparr>)"
proof -
  have "view (s\<lparr>mem := m\<rparr>) = view s"
    using assms(3) disjoint_regions_not_in [OF assms(2)] by (intro view_mem) blast
  then show ?thesis using assms by (simp add: printed_def ready_mem kept_def)
qed

lemma printed_str:
  assumes "ready s" and "str_at (mem s) str cs" and "\<And>i. i \<le> length cs \<Longrightarrow> \<not> in_region (str + of_nat i) page 4000"
  shows "\<exists>s'. puts_with put str s = Some s' \<and> printed cs s s'"
  using puts_str [OF assms] printed_fold [OF assms(1)] by (simp add: puts_with_def)

lemma print_buffer:
  assumes ready: "ready s" and apart: "disjoint_regions (frame s) 64 page 4000"
    and same: "\<And>a. \<not> in_region a (frame s) 64 \<Longrightarrow> m a = mem s a"
    and str: "str_at m (frame s + of_nat k) cs" and len: "k + length cs < 64"
  shows "\<exists>s'. puts_with put (frame s + of_nat k) (s\<lparr>mem := m\<rparr>) = Some s' \<and> printed cs s s'"
proof -
  have "\<not> in_region (frame s + of_nat k + of_nat i) page 4000" if "i \<le> length cs" for i
  proof -
    have "in_region (frame s + of_nat (k + i)) (frame s) 64" using that len by (intro in_region_add) simp_all
    then show ?thesis using disjoint_regions_not_in [OF apart] by (simp add: add.assoc)
  qed
  then obtain s' where "puts_with put (frame s + of_nat k) (s\<lparr>mem := m\<rparr>) = Some s'"
    "printed cs (s\<lparr>mem := m\<rparr>) s'"
    using printed_str [of "s\<lparr>mem := m\<rparr>" "frame s + of_nat k" cs] ready str by (auto simp: ready_mem)
  with printed_trans [OF printed_mem [OF ready apart same]] show ?thesis by auto
qed

lemma buffer_part: "\<not> in_region a (frame s) 64 \<Longrightarrow> k + n \<le> 64 \<Longrightarrow> \<not> in_region a (frame s + of_nat k) n"
proof
  assume "\<not> in_region a (frame s) 64" "k + n \<le> 64" "in_region a (frame s + of_nat k) n"
  then obtain i where "i < n" "a = frame s + of_nat (k + i)" by (auto elim!: in_regionE simp: add.assoc)
  moreover have "in_region (frame s + of_nat (k + i)) (frame s) 64"
    using \<open>i < n\<close> \<open>k + n \<le> 64\<close> by (intro in_region_add) simp_all
  ultimately show False using \<open>\<not> in_region a (frame s) 64\<close> by simp
qed

lemma print_number:
  assumes ready: "ready s" and apart: "disjoint_regions (frame s) 64 page 4000"
    and r: "2 \<le> unat radix" "unat radix \<le> 36" and k: "k \<le> 8"
    and same: "\<And>a. \<not> in_region a (frame s) 64 \<Longrightarrow> m0 a = mem s a"
  obtains m where "itoa m0 v (frame s + of_nat k) radix = Some m"
    and "str_at m (frame s + of_nat k) (numeral_of (unat radix) (unat v))"
    and "length (numeral_of (unat radix) (unat v)) \<le> 32"
    and "\<And>a. \<not> in_region a (frame s) 64 \<Longrightarrow> m a = mem s a"
    and "\<And>i. i < k \<Longrightarrow> m (frame s + of_nat i) = m0 (frame s + of_nat i)"
proof -
  let ?ds = "numeral_of (unat radix) (unat v)"
  obtain m where m: "itoa m0 v (frame s + of_nat k) radix = Some m" "str_at m (frame s + of_nat k) ?ds"
    "length ?ds \<le> 32" "\<And>a. \<not> in_region a (frame s + of_nat k) (Suc (length ?ds)) \<Longrightarrow> m a = m0 a"
    by (rule itoa_result [OF r, of m0 v "frame s + of_nat k"]) (rule that)
  show thesis
  proof (rule that [OF m(1-3)])
    show "m a = mem s a" if "\<not> in_region a (frame s) 64" for a
      using m(4) [OF buffer_part [OF that]] m(3) k same [OF that] by simp
    show "m (frame s + of_nat i) = m0 (frame s + of_nat i)" if "i < k" for i
    proof (rule m(4))
      have "unat (of_nat i - of_nat k :: u32) = 4294967296 - (k - i)"
        using that k by (simp add: unat_sub_if' unat_of_nat_small)
      then show "\<not> in_region (frame s + of_nat i) (frame s + of_nat k) (Suc (length ?ds))"
        using m(3) k that by (simp add: in_region_def)
    qed
  qed
qed

lemma print_unsigned_text:
  assumes "ready s" and "disjoint_regions (frame s) 64 page 4000"
  shows "\<exists>s'. print_unsigned put v s = Some s' \<and> printed (numeral_of 10 (unat v)) s s'"
proof -
  obtain m where "itoa (mem s) v (frame s + of_nat 0) 10 = Some m"
    "str_at m (frame s + of_nat 0) (numeral_of (unat (10 :: u32)) (unat v))"
    "length (numeral_of (unat (10 :: u32)) (unat v)) \<le> 32" "\<And>a. \<not> in_region a (frame s) 64 \<Longrightarrow> m a = mem s a"
    by (rule print_number [OF assms, of 10 0 "mem s" v]) simp_all
  with print_buffer [OF assms, of m 0 "numeral_of 10 (unat v)"] show ?thesis
    by (auto simp: print_unsigned_def Let_def)
qed

lemma print_signed_text:
  assumes "ready s" and "disjoint_regions (frame s) 64 page 4000"
  shows "\<exists>s'. print_signed put v s = Some s' \<and> printed (decimal_text v) s s'"
proof (cases "sint v < 0")
  case True
  have out: "((mem s)(frame s := 45)) a = mem s a" if "\<not> in_region a (frame s) 64" for a
    using that by (auto simp: in_region_def)
  obtain m where m: "itoa ((mem s)(frame s := 45)) (- v) (frame s + of_nat 1) 10 = Some m"
    "str_at m (frame s + of_nat 1) (numeral_of (unat (10 :: u32)) (unat (- v)))"
    "length (numeral_of (unat (10 :: u32)) (unat (- v))) \<le> 32"
    "\<And>a. \<not> in_region a (frame s) 64 \<Longrightarrow> m a = mem s a"
    "\<And>i. i < 1 \<Longrightarrow> m (frame s + of_nat i) = ((mem s)(frame s := 45)) (frame s + of_nat i)"
    by (rule print_number [OF assms, of 10 1 "(mem s)(frame s := 45)" "- v"]) (simp_all add: out del: fun_upd_apply)
  have "str_at m (frame s + of_nat 0) (decimal_text v)"
    using True m(2) m(5) [of 0] by (simp add: decimal_text_def str_at_Cons)
  with m True print_buffer [OF assms, of m 0 "decimal_text v"] show ?thesis
    by (auto simp: print_signed_def Let_def decimal_text_def)
next
  case False
  with print_unsigned_text [OF assms, of v] show ?thesis
    by (simp add: print_signed_def print_unsigned_def Let_def decimal_text_def)
qed

lemma print_hex_text:
  assumes "ready s" and "disjoint_regions (frame s) 64 page 4000"
  shows "\<exists>s'. print_hex put alternate v s = Some s' \<and> printed (hex_text alternate v) s s'"
proof (cases alternate)
  case False
  obtain m where "itoa (mem s) v (frame s + of_nat 0) 16 = Some m"
    "str_at m (frame s + of_nat 0) (numeral_of (unat (16 :: u32)) (unat v))"
    "length (numeral_of (unat (16 :: u32)) (unat v)) \<le> 32" "\<And>a. \<not> in_region a (frame s) 64 \<Longrightarrow> m a = mem s a"
    by (rule print_number [OF assms, of 16 0 "mem s" v]) simp_all
  with False print_buffer [OF assms, of m 0 "numeral_of 16 (unat v)"] show ?thesis
    by (auto simp: print_hex_def hex_text_def Let_def)
next
  case True
  let ?ds = "numeral_of 16 (unat v)"
  obtain m where m: "itoa (mem s) v (frame s + of_nat 8) 16 = Some m"
    "str_at m (frame s + of_nat 8) (numeral_of (unat (16 :: u32)) (unat v))"
    "length (numeral_of (unat (16 :: u32)) (unat v)) \<le> 32" "\<And>a. \<not> in_region a (frame s) 64 \<Longrightarrow> m a = mem s a"
    by (rule print_number [OF assms, of 16 8 "mem s" v]) simp_all
  have str: "str_at m (frame s + 8) ?ds" using m(2) by simp
  have len: "length ?ds \<le> 8" by (rule length_hex)
  have sint: "sint (of_nat (length ?ds) :: u32) = int (length ?ds)"
    using len by (intro sint_of_nat_small) simp
  let ?m = "zero_pad (frame s) (int (length ?ds)) m"
  have "?m a = mem s a" if "\<not> in_region a (frame s) 64" for a
    using m(4) [OF that] buffer_part [OF that, of 0 8] zero_pad_outside [OF len, of a "frame s" m] by simp
  moreover have "str_at ?m (frame s + of_nat (length ?ds)) (replicate (8 - length ?ds) 48 @ ?ds)"
    by (rule padded_str_at [OF str len])
  ultimately have "\<exists>s'. puts_with put (frame s + of_nat (length ?ds)) (s\<lparr>mem := ?m\<rparr>) = Some s'
      \<and> printed (replicate (8 - length ?ds) 48 @ ?ds) s s'"
    using len by (intro print_buffer [OF assms]) simp_all
  then show ?thesis
    using True m(1) strlen_str_at [OF str] sint by (simp add: print_hex_def hex_text_def Let_def)
qed

text \<open>The device is ready, and all is in place.\<close>

definition area_ok ::
    "(u32 \<Rightarrow> u8 list) \<Rightarrow> (u32 \<Rightarrow> bool) \<Rightarrow> u32 \<Rightarrow> u8 list \<Rightarrow> u32 \<Rightarrow> u32 list \<Rightarrow> 'a console_scheme \<Rightarrow> bool" where
  "area_ok strings good buf fs sp args s \<longleftrightarrow> ready s \<and> printable page strings good buf fs sp args s"

lemma string_kept_printed: "printed out s s' \<Longrightarrow> string_kept page s a cs \<Longrightarrow> string_kept page s' a cs"
  unfolding string_kept_def by (auto simp: printed_def kept_def intro: str_at_cong)

lemma args_kept:
  "args_at m sp args \<Longrightarrow> (\<And>i. i < 4 * length args \<Longrightarrow> m' (sp + of_nat i) = m (sp + of_nat i)) \<Longrightarrow> args_at m' sp args"
proof (induction args arbitrary: sp)
  case (Cons v vs)
  have "args_at m' (sp + 4) vs"
    using Cons.prems(1) Cons.prems(2) [of "4 + i" for i] by (intro Cons.IH) (simp_all add: add.assoc)
  moreover have "load32 m' sp = load32 m sp"
    using Cons.prems(2) [of 0] Cons.prems(2) [of 1] Cons.prems(2) [of 2] Cons.prems(2) [of 3]
    by (intro load32_cong) simp_all
  ultimately show ?case using Cons.prems(1) by simp
qed simp

lemma area_printed: "printed out s s' \<Longrightarrow> area_ok strings good buf fs sp args s \<Longrightarrow> area_ok strings good buf fs sp args s'"
  unfolding area_ok_def printable_def
  by (auto simp: string_kept_printed) (auto simp: printed_def kept_def intro: args_kept)

lemma area_next:
  assumes "area_ok strings good buf (c # cs) sp args s"
  shows "area_ok strings good (buf + 1) cs sp args s"
    and "args \<noteq> [] \<Longrightarrow> area_ok strings good (buf + 1) cs (sp + 4) (tl args) s"
    and "mem s buf = c" and "args \<noteq> [] \<Longrightarrow> load32 (mem s) sp = hd args" and "c \<noteq> 0"
proof -
  have str: "str_at (mem s) buf (c # cs)" and kept: "\<And>i. i \<le> Suc (length cs) \<Longrightarrow> kept page s (buf + of_nat i)"
    using assms by (simp_all add: area_ok_def printable_def string_kept_def)
  have next': "string_kept page s (buf + 1) cs"
    using str kept [of "Suc i" for i] by (simp add: string_kept_def str_at_Cons add.assoc)
  then show "area_ok strings good (buf + 1) cs sp args s" using assms by (simp add: area_ok_def printable_def)
  show "mem s buf = c" "c \<noteq> 0" using str by (simp_all add: str_at_Cons)
  show "area_ok strings good (buf + 1) cs (sp + 4) (tl args) s" "load32 (mem s) sp = hd args" if ne: "args \<noteq> []"
  proof -
    obtain v vs where args: "args = v # vs" using ne by (cases args) simp_all
    have "kept page s (sp + 4 + of_nat i)" if "i < 4 * length vs" for i
    proof -
      have "\<forall>i < 4 * length args. kept page s (sp + of_nat i)" using assms unfolding area_ok_def printable_def by blast
      moreover have "4 + i < 4 * length args" using that args by simp
      ultimately have "kept page s (sp + of_nat (4 + i))" by blast
      then show ?thesis by (simp add: add.assoc)
    qed
    then show "area_ok strings good (buf + 1) cs (sp + 4) (tl args) s" "load32 (mem s) sp = hd args"
      using assms next' args by (simp_all add: area_ok_def printable_def)
  qed
qed

lemma format_run:
  "area_ok strings good buf fs sp args s \<Longrightarrow> format_ok good fs args \<Longrightarrow>
   \<exists>s'. printf_loop put buf sp s = Some (buf + of_nat (length fs), s') \<and> printed (spec_format strings fs args) s s'"
  "area_ok strings good buf fs sp args s \<Longrightarrow> conversion_ok good fs args \<Longrightarrow>
   \<exists>buf' sp' s1 s'. format_char put alternate buf sp s = Some (buf', sp', s1)
     \<and> printf_loop put (buf' + 1) sp' s1 = Some (buf + of_nat (length fs), s')
     \<and> printed (spec_conversion strings alternate fs args) s s'"
proof (induction strings fs args and strings alternate fs args arbitrary: buf sp s and buf sp s
    rule: spec_format_spec_conversion.induct)
  case (1 strings args)
  then have "mem s buf = 0" "ready s" by (simp_all add: area_ok_def printable_def string_kept_def str_at_Nil)
  then show ?case by (subst printf_loop.simps) (simp add: printed_refl)
next
  case (2 strings c cs args)
  note area = area_next [OF 2(3)]
  show ?case
  proof (cases "c = 37")
    case True
    obtain buf' sp' s1 s' where "format_char put False (buf + 1) sp s = Some (buf', sp', s1)"
      "printf_loop put (buf' + 1) sp' s1 = Some (buf + 1 + of_nat (length cs), s')"
      "printed (spec_conversion strings False cs args) s s'"
      using 2(1) [OF True area(1)] 2(4) True by auto
    then show ?thesis using True area(3) by (subst printf_loop.simps) (simp add: add.assoc)
  next
    case False
    have p: "printed [c] s (put c s)" using 2(3) by (intro printed_put) (simp add: area_ok_def printable_def)
    obtain s' where "printf_loop put (buf + 1) sp (put c s) = Some (buf + 1 + of_nat (length cs), s')"
      "printed (spec_format strings cs args) (put c s) s'"
      using 2(2) [OF False area_printed [OF p area(1)]] 2(4) False by auto
    then show ?thesis
      using False area(3,5) printed_trans [OF p] by (subst printf_loop.simps) (simp add: add.assoc)
  qed
next
  case (3 strings alternate args)
  then show ?case by simp
next
  case (4 strings alternate c cs args)
  note area = area_next [OF 4(9)]
  have ready: "ready s" and apart: "disjoint_regions (frame s) 64 page 4000"
    using 4(9) by (simp_all add: area_ok_def printable_def)
  text \<open>After one conversion that printed \<open>out\<close>, with the rest of the format and the arguments \<open>vs\<close>.\<close>
  have rest: "\<exists>buf' sp' s1 s'. format_char put alternate buf sp s = Some (buf', sp', s1)
     \<and> printf_loop put (buf' + 1) sp' s1 = Some (buf + of_nat (length (c # cs)), s')
     \<and> printed (out @ spec_format strings cs vs) s s'"
    if step: "format_char put alternate buf sp s = Some (buf, sq, s1)" and p: "printed out s s1"
      and IH: "area_ok strings good (buf + 1) cs sq vs s1 \<Longrightarrow> format_ok good cs vs \<Longrightarrow>
        \<exists>s'. printf_loop put (buf + 1) sq s1 = Some (buf + 1 + of_nat (length cs), s')
          \<and> printed (spec_format strings cs vs) s1 s'"
      and ok: "area_ok strings good (buf + 1) cs sq vs s" "format_ok good cs vs" for out sq s1 vs
    using IH [OF area_printed [OF p ok(1)] ok(2)] step printed_trans [OF p] by (auto simp: add.assoc)
  note unfold = format_char.simps [of put alternate buf sp s]
  consider (percent) "c = 37" | (sharp) "c = 35" | (hex) "c = 120" | (unsigned) "c = 117" | (signed) "c = 100"
    | (char) "c = 99" | (string) "c = 115"
    | (other) "c \<noteq> 37" "c \<noteq> 35" "c \<noteq> 120" "c \<noteq> 117" "c \<noteq> 100" "c \<noteq> 99" "c \<noteq> 115" by blast
  then show ?case
  proof cases
    case percent
    then show ?thesis
      using rest [OF _ printed_put [OF ready] 4(1) [OF percent] area(1), of 37] unfold area(3) 4(10) by simp
  next
    case sharp
    then have "\<exists>buf' sp' s1 s'. format_char put True (buf + 1) sp s = Some (buf', sp', s1)
     \<and> printf_loop put (buf' + 1) sp' s1 = Some (buf + 1 + of_nat (length cs), s')
     \<and> printed (spec_conversion strings True cs args) s s'"
      using 4(2) [OF _ sharp area(1)] 4(10) by simp
    with sharp show ?thesis using unfold area(3) by (simp add: add.assoc)
  next
    case hex
    then have ne: "args \<noteq> []" using 4(10) by simp
    obtain s1 where "print_hex put alternate (hd args) s = Some s1" "printed (hex_text alternate (hd args)) s s1"
      using print_hex_text [OF ready apart] by blast
    then show ?thesis
      using rest [OF _ _ 4(3) area(2) [OF ne], of s1 "hex_text alternate (hd args)"] hex unfold area(3) area(4) [OF ne]
        4(10) by simp
  next
    case unsigned
    then have ne: "args \<noteq> []" using 4(10) by simp
    obtain s1 where "print_unsigned put (hd args) s = Some s1" "printed (numeral_of 10 (unat (hd args))) s s1"
      using print_unsigned_text [OF ready apart] by blast
    then show ?thesis
      using rest [OF _ _ 4(4) area(2) [OF ne], of s1 "numeral_of 10 (unat (hd args))"] unsigned unfold area(3) area(4) [OF ne]
        4(10) by simp
  next
    case signed
    then have ne: "args \<noteq> []" using 4(10) by simp
    obtain s1 where "print_signed put (hd args) s = Some s1" "printed (decimal_text (hd args)) s s1"
      using print_signed_text [OF ready apart] by blast
    then show ?thesis
      using rest [OF _ _ 4(5) area(2) [OF ne], of s1 "decimal_text (hd args)"] signed unfold area(3) area(4) [OF ne]
        4(10) by simp
  next
    case char
    then have ne: "args \<noteq> []" using 4(10) by simp
    show ?thesis
      using rest [OF _ printed_put [OF ready, of "ucast (hd args)"] 4(6) area(2) [OF ne]] char unfold area(3)
        area(4) [OF ne] 4(10) by simp
  next
    case string
    then have ne: "args \<noteq> []" and good: "good (hd args)" using 4(10) by simp_all
    have "string_kept page s (hd args) (strings (hd args))" using 4(9) good unfolding area_ok_def printable_def by blast
    then obtain s1 where "puts_with put (hd args) s = Some s1" "printed (strings (hd args)) s s1"
      using printed_str [OF ready, of "hd args" "strings (hd args)"] by (auto simp: string_kept_def kept_def)
    then show ?thesis
      using rest [OF _ _ 4(7) area(2) [OF ne], of s1 "strings (hd args)"] string unfold area(3) area(4) [OF ne]
        4(10) by simp
  next
    case other
    then show ?thesis
      using rest [OF _ printed_refl [OF ready] 4(8) area(1)] unfold area(3) 4(10) by simp
  qed
qed

lemma printf_with_prints:
  assumes "area_ok strings good fmt fs sp args s" and "format_ok good fs args"
  shows "\<exists>s'. printf_with put fmt sp s = Some (of_nat (length fs), s') \<and> printed (spec_format strings fs args) s s'"
  using format_run(1) [OF assms] by (auto simp: printf_with_def)

end

text \<open>Both routines print to such a device.\<close>

lemma term_of_mem:
  assumes "\<And>a. in_region a base 4000 \<Longrightarrow> m a = mem s a"
  shows "term_of base t (s\<lparr>mem := m\<rparr>) = term_of base t s"
proof -
  have "screen_chars m base = screen_chars (mem s) base"
    using assms cell_in_region by (intro screen_chars_cong) auto
  then show ?thesis by (simp add: term_of_def)
qed

interpretation dev2: memory_device putc2 "term_of VIDEO (t - 1)" "screen_ready t" VIDEO for t
  by unfold_locales (simp_all add: term_of_mem screen_ready_def cursor_ok_def)

interpretation dev: memory_device putc "term_of base (t - 1)" "page_ready t base" base for t base
  by unfold_locales (simp_all add: term_of_mem page_ready_def cursor_ok_def)

lemma printf2_text:
  assumes "cursor_ok (curr_terminal s - 1) s" and "printable VIDEO strings good fmt fs sp args s"
    and "format_ok good fs args"
  obtains s' where "printf2 fmt sp s = Some (of_nat (length fs), s')"
    and "term_of VIDEO (curr_terminal s - 1) s' = fold spec_putc (spec_format strings fs args) (term_of VIDEO (curr_terminal s - 1) s)"
    and "\<And>a. kept VIDEO s a \<Longrightarrow> mem s' a = mem s a" and "cursor_ok (curr_terminal s - 1) s'"
    and "curr_terminal s' = curr_terminal s" and "frame s' = frame s"
proof -
  have "dev2.area_ok (curr_terminal s) strings good fmt fs sp args s"
    using assms(1,2) by (simp add: dev2.area_ok_def screen_ready_def)
  from dev2.printf_with_prints [OF this assms(3)] obtain s' where
    "printf2 fmt sp s = Some (of_nat (length fs), s')"
    "dev2.printed (curr_terminal s) (spec_format strings fs args) s s'"
    by (auto simp: printf2_def)
  then show thesis using that [of s'] by (auto simp: dev2.printed_def screen_ready_def)
qed

lemma printf_text:
  assumes "cursor_ok (curr_scheduled s - 1) s" and "printable (video_mem s) strings good fmt fs sp args s"
    and "format_ok good fs args"
  obtains s' where "printf fmt sp s = Some (of_nat (length fs), s')"
    and "term_of (video_mem s) (curr_scheduled s - 1) s'
      = fold spec_putc (spec_format strings fs args) (term_of (video_mem s) (curr_scheduled s - 1) s)"
    and "\<And>a. kept (video_mem s) s a \<Longrightarrow> mem s' a = mem s a" and "cursor_ok (curr_scheduled s - 1) s'"
    and "curr_scheduled s' = curr_scheduled s" and "video_mem s' = video_mem s" and "frame s' = frame s"
proof -
  have "dev.area_ok (curr_scheduled s) (video_mem s) strings good fmt fs sp args s"
    using assms(1,2) by (simp add: dev.area_ok_def page_ready_def)
  from dev.printf_with_prints [OF this assms(3)] obtain s' where
    "printf fmt sp s = Some (of_nat (length fs), s')"
    "dev.printed (video_mem s) (curr_scheduled s) (spec_format strings fs args) s s'"
    by (auto simp: printf_def)
  then show thesis using that [of s'] by (auto simp: dev.printed_def page_ready_def)
qed

section \<open>Properties\<close>

text \<open>C23. \<open>printf\<close> returns for every complete format, with the length of the format as its value,
  and what appears on the page of the scheduled terminal is the format with each conversion
  (hexadecimal with and without leading zeros, unsigned, signed, character, string) replaced by
  the text of its argument. Nothing but the page and its local buffer changes.\<close>

theorem printf_prints:
  assumes "cursor_ok (curr_scheduled s - 1) s" and "printable (video_mem s) strings good fmt fs sp args s"
    and "format_ok good fs args"
  shows "\<exists>s'. printf fmt sp s = Some (of_nat (length fs), s')
    \<and> term_of (video_mem s) (curr_scheduled s - 1) s'
      = fold spec_putc (spec_format strings fs args) (term_of (video_mem s) (curr_scheduled s - 1) s)
    \<and> (\<forall>a. in_region a (video_mem s) 4000 \<or> in_region a (frame s) 64 \<or> mem s' a = mem s a)"
proof -
  obtain s' where "printf fmt sp s = Some (of_nat (length fs), s')"
    "term_of (video_mem s) (curr_scheduled s - 1) s'
      = fold spec_putc (spec_format strings fs args) (term_of (video_mem s) (curr_scheduled s - 1) s)"
    "\<And>a. kept (video_mem s) s a \<Longrightarrow> mem s' a = mem s a"
    by (rule printf_text [OF assms]) (rule that)
  then show ?thesis unfolding kept_def by blast
qed

text \<open>The format \<open>-%d%%\<close> with the argument -391.\<close>

definition sample_printf :: console where
  "sample_printf = sample_console\<lparr>mem := store32 ((\<lambda>_. 0)(0x9000 := 45, 0x9001 := 37, 0x9002 := 100,
     0x9003 := 37, 0x9004 := 37)) 0x9100 (- 391), frame := 0xA000\<rparr>"

theorem printf_prints_witness:
  "\<exists>s'. printf 0x9000 0x9100 sample_printf = Some (5, s')
    \<and> term_of VIDEO2 1 s' = fold spec_putc [45, 45, 51, 57, 49, 37] (term_of VIDEO2 1 sample_printf)"
proof -
  have f: "curr_scheduled sample_printf = 2" "video_mem sample_printf = VIDEO2" "frame sample_printf = 0xA000"
    by (simp_all add: sample_printf_def sample_simps)
  have ready: "cursor_ok (curr_scheduled sample_printf - 1) sample_printf"
    by (simp add: sample_printf_def sample_simps)
  have load: "load32 (mem sample_printf) 0x9100 = - 391" by (simp add: sample_printf_def)
  have str: "str_at (mem sample_printf) 0x9000 [45, 37, 100, 37, 37]"
    by (simp add: sample_printf_def str_at_Cons str_at_Nil store32_def)
  have kept: "kept VIDEO2 sample_printf (0x9000 + of_nat i)" if "i \<le> 5" for i
  proof -
    have "i = 0 \<or> i = 1 \<or> i = 2 \<or> i = 3 \<or> i = 4 \<or> i = 5" using that by linarith
    then show ?thesis by (elim disjE) (simp_all add: kept_def f in_region_def)
  qed
  have kept': "kept VIDEO2 sample_printf (0x9100 + of_nat i)" if "i < 4" for i
  proof -
    have "i = 0 \<or> i = 1 \<or> i = 2 \<or> i = 3" using that by linarith
    then show ?thesis by (elim disjE) (simp_all add: kept_def f in_region_def)
  qed
  have place: "printable (video_mem sample_printf) (\<lambda>_. []) (\<lambda>_. False) 0x9000 [45, 37, 100, 37, 37] 0x9100 [- 391]
      sample_printf"
    unfolding printable_def string_kept_def using load str kept kept' by (simp add: f disjoint_regions_def)
  have "format_ok (\<lambda>_. False) [45, 37, 100, 37, 37] [- 391]" by simp
  note p = printf_prints [OF ready place this]
  have "spec_format (\<lambda>_. []) [45, 37, 100, 37, 37] [- 391] = [45, 45, 51, 57, 49, 37]"
    by (simp add: decimal_text_def numeral_of_def rdigits.simps itoa_lookup_def)
  with p show ?thesis by (auto simp: f)
qed

end
