(* ===== verification/Descriptors_Laws.thy ===== *)
theory Descriptors_Laws
  imports Descriptors Paging_Laws Printf_Spec
begin

text \<open>
  What the processor finds in the descriptors: the handler, privilege level and kind of each gate,
  and the base and limit of the two segments that C code describes.
\<close>

section \<open>Decoding\<close>

text \<open>The base and the limit of a segment descriptor, from its two words.\<close>

definition seg_base :: "u32 \<times> u32 \<Rightarrow> u32" where
  "seg_base d = (case d of (lo, hi) \<Rightarrow>
     drop_bit 16 lo OR push_bit 16 (hi AND 0xFF) OR (hi AND 0xFF000000))"

definition seg_limit :: "u32 \<times> u32 \<Rightarrow> u32" where
  "seg_limit d = (case d of (lo, hi) \<Rightarrow> (lo AND 0xFFFF) OR (hi AND 0x000F0000))"

text \<open>A present gate for 32-bit code: the selector, the address of the handler, the lowest
  privilege that may raise it by an instruction, and whether interrupts stay enabled in it.\<close>

definition gate_target :: "u32 \<times> u32 \<Rightarrow> (u32 \<times> u32 \<times> u32 \<times> bool) option" where
  "gate_target d = (case d of (lo, hi) \<Rightarrow>
     if bit hi 15 \<and> drop_bit 9 hi AND 0xF = 7
     then Some (drop_bit 16 lo, (lo AND 0xFFFF) OR (hi AND 0xFFFF0000), drop_bit 13 hi AND 3, bit hi 8)
     else None)"

text \<open>Words of 32 bits agree when all their bits do.\<close>

lemma word32_eqI:
  fixes a b :: u32
  assumes "list_all (\<lambda>n. bit a n = bit b n) [0, 1, 2, 3, 4, 5, 6, 7, 8, 9, 10, 11, 12, 13, 14, 15, 16, 17, 18,
    19, 20, 21, 22, 23, 24, 25, 26, 27, 28, 29, 30, 31]"
  shows "a = b"
proof (rule bit_word_eqI)
  fix n :: nat
  assume "n < LENGTH(32)"
  then have "n \<in> set [0..<32]" by simp
  also have "[0..<32] = [0, 1, 2, 3, 4, 5, 6, 7, 8, 9, 10, 11, 12, 13, 14, 15, 16, 17, 18,
    19, 20, 21, 22, 23, 24, 25, 26, 27, 28, 29, 30, 31]" by (simp add: upt_conv_Cons)
  finally show "bit a n = bit b n" using assms by (simp only: list_all_iff)
qed

lemma no_bit: "LENGTH('a) \<le> n \<Longrightarrow> \<not> bit (w :: 'a :: len word) n"
  by (auto dest: bit_imp_le_length)

lemma set_params_base:
  "seg_base (seg_val (set_ldt_params d addr lim)) = addr"
  "seg_base (seg_val (set_tss_params d addr lim)) = addr"
  by (rule word32_eqI, simp add: seg_base_def seg_val_def set_ldt_params_def set_tss_params_def bit_simps no_bit)+

lemma set_params_limit:
  assumes "lim < 0x100000"
  shows "seg_limit (seg_val (set_ldt_params d addr lim)) = lim"
    "seg_limit (seg_val (set_tss_params d addr lim)) = lim"
proof -
  have lim: "lim = take_bit 20 lim"
    using assms by (simp add: take_bit_eq_mod word_less_nat_alt word_unat_eq_iff unat_mod)
  have "\<not> bit lim n" if "20 \<le> n" for n
    using that by (subst lim) (simp add: bit_take_bit_iff)
  then show "seg_limit (seg_val (set_ldt_params d addr lim)) = lim"
    "seg_limit (seg_val (set_tss_params d addr lim)) = lim"
    by (rule_tac word32_eqI,
        simp add: seg_limit_def seg_val_def set_ldt_params_def set_tss_params_def bit_simps no_bit)+
qed

text \<open>A gate of \<open>add_vector\<close> with one of the two privilege levels and types.\<close>

lemma gate_target_vector:
  assumes "privilege \<in> {0, 3}" and "type \<in> {0, 1}"
  shows "gate_target (gate_val (idt (add_vector n h privilege type s) n))
    = Some (0x10, address_of s h, of_int privilege, type = 1)"
proof -
  let ?g = "idt (add_vector n h privilege type s) n"
  have f: "seg_selector ?g = 0x10" "offset_15_00 ?g = ucast (address_of s h AND 0xFFFF)"
    "offset_31_16 ?g = ucast (drop_bit 16 (address_of s h AND 0xFFFF0000))" "reserved0 ?g = 0" "reserved1 ?g = 1"
    "reserved2 ?g = 1" "reserved3 ?g = of_int type" "reserved4 ?g = 0" "gate_size ?g = 1" "gate_present ?g = 1"
    "gate_dpl ?g = of_int privilege"
    by (simp_all add: add_vector_def set_idt_entry_def)
  let ?lo = "fst (gate_val ?g)" and ?hi = "snd (gate_val ?g)"
  have "drop_bit 16 ?lo = 0x10"
    by (rule word32_eqI, simp add: gate_val_def f bit_simps no_bit)
  moreover have "(?lo AND 0xFFFF) OR (?hi AND 0xFFFF0000) = address_of s h"
    by (rule word32_eqI, simp add: gate_val_def f bit_simps no_bit)
  moreover have "drop_bit 13 ?hi AND 3 = of_int privilege"
  proof -
    have "drop_bit 13 ?hi AND 3 = ucast (gate_dpl ?g)"
      by (rule word32_eqI, simp add: gate_val_def f(1-10) bit_simps no_bit)
    then show ?thesis using assms(1) f(11) by auto
  qed
  moreover have "drop_bit 9 ?hi AND 0xF = 7"
    by (rule word32_eqI, simp add: gate_val_def f bit_simps no_bit)
  moreover have "bit ?hi 15"
    by (simp add: gate_val_def f bit_simps no_bit)
  moreover have "bit ?hi 8 = (type = 1)"
  proof -
    have "bit ?hi 8 = bit (reserved3 ?g) 0" by (simp add: gate_val_def f(1-6,8-11) bit_simps no_bit)
    then show ?thesis using assms(2) f(7) by auto
  qed
  ultimately show ?thesis by (simp add: gate_target_def split_beta)
qed

lemma gate_target_add:
  assumes "privilege \<in> {0, 3}" and "type \<in> {0, 1}"
  shows "gate_target (gate_val (idt (add_vector m h privilege type s) n))
    = (if n = m then Some (0x10, address_of s h, of_int privilege, type = 1)
       else gate_target (gate_val (idt s n)))"
  using gate_target_vector [OF assms, of m h s] by (auto simp: add_vector_def)

lemma address_of_add [simp]: "address_of (add_vector m h privilege type s) = address_of s"
  by (simp add: add_vector_def)

text \<open>The handlers by vector: the exceptions of the processor, the three devices behind the
  interrupt controllers, and the system call.\<close>

definition handler_of :: "int \<Rightarrow> handler option" where
  "handler_of = map_of
     [(0, Divide_err), (1, Debug), (2, Nmi), (3, Breakpoint), (4, Overflow), (5, Bound), (6, Invalid_opcode),
      (7, Device_NA), (8, Double_fault), (9, Coprocessor_seg_overrun), (10, Invalid_tss), (11, Seg_not_present),
      (12, Stack_seg_fault), (13, General_protection), (14, Page_fault), (16, Floating_point_err),
      (17, Alignment_check), (18, Machine_check), (19, Floating_point_exception), (32, Pit_assembly),
      (33, Keyboard_assembly), (40, Rtc_assembly), (0x80, System_calls_assembly)]"

lemma idt_gates:
  assumes "\<And>n. gate_present (idt s n) = 0"
  shows "gate_target (gate_val (idt (idt_init s) n)) =
    (case handler_of n of None \<Rightarrow> None
     | Some h \<Rightarrow> Some (0x10, address_of s h, if n \<in> {3, 4, 5, 0x80} then 3 else 0, n \<notin> {3, 4, 5, 32, 33, 40}))"
proof -
  have blank: "gate_target (gate_val (idt s n)) = None"
    using assms [of n] by (simp add: gate_target_def gate_val_def bit_simps no_bit)
  show ?thesis
  proof (cases "n \<in> {0, 1, 2, 3, 4, 5, 6, 7, 8, 9, 10, 11, 12, 13, 14, 16, 17, 18, 19, 32, 33, 40, 0x80}")
    case True
    then show ?thesis
      by (elim insertE emptyE) (simp_all add: idt_init_def Let_def gate_target_add handler_of_def)
  next
    case False
    then show ?thesis by (simp add: idt_init_def Let_def gate_target_add handler_of_def blank)
  qed
qed

section \<open>Properties\<close>

text \<open>C25. Every gate that \<open>idt_init\<close> installs is well formed: the processor finds in it the kernel's code
  segment and the address of the handler of that vector. A program in user mode can raise exactly
  the vectors 3, 4, 5 and 0x80; interrupts are disabled in exactly the handlers of these three
  exceptions and of the devices. No other gate is present.\<close>

theorem idt_gates_well_formed:
  assumes "\<And>n. gate_present (idt s n) = 0"
  shows "gate_target (gate_val (idt (idt_init s) n)) =
    (case handler_of n of None \<Rightarrow> None
     | Some h \<Rightarrow> Some (0x10, address_of s h, if n \<in> {3, 4, 5, 0x80} then 3 else 0, n \<notin> {3, 4, 5, 32, 33, 40}))"
  by (rule idt_gates) (rule assms)

text \<open>A machine as the boot loader leaves it.\<close>

definition blank_gate :: idt_desc where
  "blank_gate = \<lparr>offset_15_00 = 0, seg_selector = 0, reserved4 = 0, reserved3 = 0, reserved2 = 0, reserved1 = 0,
     gate_size = 0, reserved0 = 0, gate_dpl = 0, gate_present = 0, offset_31_16 = 0\<rparr>"

definition blank_seg :: seg_desc where
  "blank_seg = \<lparr>seg_lim_15_00 = 0, base_15_00 = 0, base_23_16 = 0, seg_type = 0, seg_sys = 0, seg_dpl = 0,
     seg_present = 0, seg_lim_19_16 = 0, avail = 0, reserved = 0, opsize = 0, granularity = 0, base_31_24 = 0\<rparr>"

definition sample_loaded :: descriptors where
  "sample_loaded = paging.extend (sample_unpaged\<lparr>rtc_active := 0\<rparr>) (descriptors.fields (\<lambda>_. blank_gate)
     (\<lambda>h. case h of System_calls_assembly \<Rightarrow> 0x401234 | _ \<Rightarrow> 0x400100) (\<lambda>_. 0x408000) 0x7FF800 blank_seg blank_seg
     0x402000 31 0x403000 103 0 0 0)"

theorem idt_gates_well_formed_witness:
  "gate_target (gate_val (idt (idt_init sample_loaded) 0x80)) = Some (0x10, 0x401234, 3, True)
    \<and> gate_target (gate_val (idt (idt_init sample_loaded) 0x81)) = None"
proof -
  have "gate_present (idt sample_loaded n) = 0" for n
    by (simp add: sample_loaded_def blank_gate_def descriptors.defs paging.defs)
  note gates = idt_gates_well_formed [of sample_loaded, OF this]
  have "address_of sample_loaded System_calls_assembly = 0x401234"
    by (simp add: sample_loaded_def descriptors.defs paging.defs)
  then show ?thesis using gates [of "0x80"] gates [of "0x81"] by (simp add: handler_of_def)
qed

text \<open>The text of a string literal.\<close>

definition text_bytes :: "string \<Rightarrow> u8 list" where
  "text_bytes = map of_char"

lemma spec_format_plain: "37 \<notin> set cs \<Longrightarrow> spec_format strings cs vs = cs \<and> format_ok good cs vs"
  by (induction cs) auto

text \<open>C32. An exception in the kernel or a program prints its message on the displayed terminal and
  stops the machine with the interrupts disabled.\<close>

theorem exception_reports:
  assumes "h \<notin> {System_calls_assembly, Rtc_assembly, Keyboard_assembly, Pit_assembly}"
    and "cursor_ok (curr_terminal s - 1) s"
    and "string_kept VIDEO s (string_at s (message h)) (text_bytes (message h))"
    and "disjoint_regions (frame s) 64 VIDEO 4000"
  shows "\<exists>s'. exception_handler h s = Some s' \<and> \<not> intr s'
    \<and> term_of VIDEO (curr_terminal s - 1) s'
      = fold spec_putc (text_bytes (message h)) (term_of VIDEO (curr_terminal s - 1) s)"
proof -
  have plain: "37 \<notin> set (text_bytes (message h))"
    by (cases h) (simp_all add: text_bytes_def)
  have place: "printable VIDEO (\<lambda>_. []) (\<lambda>_. False) (string_at s (message h)) (text_bytes (message h)) (arguments s) [] s"
    using assms(3,4) by (simp add: printable_def)
  have "format_ok (\<lambda>_. False) (text_bytes (message h)) []" using spec_format_plain [OF plain] by simp
  from printf2_text [OF assms(2) place this] obtain s' where
    "printf2 (string_at s (message h)) (arguments s) s = Some (of_nat (length (text_bytes (message h))), s')"
    "term_of VIDEO (curr_terminal s - 1) s' = fold spec_putc
      (spec_format (\<lambda>_. []) (text_bytes (message h)) []) (term_of VIDEO (curr_terminal s - 1) s)" by metis
  then show ?thesis
    using spec_format_plain [OF plain, of "\<lambda>_. []" "[]"]
    by (simp add: exception_handler_def cli_def term_of_def)
qed

definition sample_fault :: descriptors where
  "sample_fault = sample_loaded\<lparr>mem := store_bytes (\<lambda>_. 0) 0x408000 (text_bytes ''page fault'')\<rparr>"

theorem exception_reports_witness:
  "\<exists>s'. exception_handler Page_fault sample_fault = Some s' \<and> \<not> intr s'
    \<and> term_of VIDEO 0 s' = fold spec_putc [112, 97, 103, 101, 32, 102, 97, 117, 108, 116] (term_of VIDEO 0 sample_fault)"
proof -
  have f: "curr_terminal sample_fault = 1" "frame sample_fault = 0x7FF000" "string_at sample_fault m = 0x408000" for m
    by (simp_all add: sample_fault_def sample_loaded_def sample_unpaged_def sample_boot_def descriptors.defs paging.defs
        scheduler.defs process.defs sample_process_def)
  have msg: "text_bytes (message Page_fault) = [112, 97, 103, 101, 32, 102, 97, 117, 108, 116]"
    by (simp add: text_bytes_def)
  have cursor: "cursor_ok (curr_terminal sample_fault - 1) sample_fault"
    by (simp add: cursor_ok_def sample_fault_def sample_loaded_def sample_unpaged_def sample_boot_def descriptors.defs
        paging.defs scheduler.defs process.defs sample_process_def)
  have str: "str_at (mem sample_fault) 0x408000 (text_bytes (message Page_fault))"
    by (simp add: sample_fault_def msg [simplified] str_at_Cons str_at_Nil)
  have "kept VIDEO sample_fault (0x408000 + of_nat i)" if "i \<le> 10" for i
  proof -
    have "i = 0 \<or> i = 1 \<or> i = 2 \<or> i = 3 \<or> i = 4 \<or> i = 5 \<or> i = 6 \<or> i = 7 \<or> i = 8 \<or> i = 9 \<or> i = 10"
      using that by presburger
    then show ?thesis by (elim disjE) (simp_all add: kept_def f in_region_def)
  qed
  then have kept: "string_kept VIDEO sample_fault (string_at sample_fault (message Page_fault)) (text_bytes (message Page_fault))"
    using str by (simp add: string_kept_def f msg [simplified])
  have apart: "disjoint_regions (frame sample_fault) 64 VIDEO 4000" by (simp add: f disjoint_regions_def)
  have "Page_fault \<notin> {System_calls_assembly, Rtc_assembly, Keyboard_assembly, Pit_assembly}" by simp
  from exception_reports [OF this cursor kept apart] show ?thesis by (simp add: f msg [simplified])
qed

end
