(* ===== verification/Kernel_Frames.thy ===== *)
theory Kernel_Frames
  imports Paging_Laws
begin

text \<open>
  What the drivers leave alone. The handlers of the keyboard and the clock, and the reads and
  writes of the terminal, the clock and the directory, change nothing of the process table, the
  scheduler and the page tables; the lemmas are stated once as a relation between the states.
\<close>

section \<open>The state behind the drivers\<close>

text \<open>Nothing behind the keyboard's state changes, nor which terminals are displayed and
  scheduled; the pending switch stays a terminal or none.\<close>

definition behind :: "'a keyboard_scheme \<Rightarrow> 'a keyboard_scheme \<Rightarrow> bool" where
  "behind s s' \<longleftrightarrow> keyboard.more s' = keyboard.more s \<and> curr_terminal s' = curr_terminal s
     \<and> curr_scheduled s' = curr_scheduled s
     \<and> (switch_flag s \<in> {0, 1, 2, 3} \<longrightarrow> switch_flag s' \<in> {0, 1, 2, 3})"

lemma behind_refl [simp]: "behind s s"
  by (simp add: behind_def)

lemma behind_trans: "behind s s' \<Longrightarrow> behind s' s'' \<Longrightarrow> behind s s''"
  by (auto simp only: behind_def)

text \<open>An operation of the console or of the clock keeps all of the keyboard's state.\<close>

lemma behind_console:
  "console.more s' = console.more s \<Longrightarrow> curr_terminal s' = curr_terminal s \<Longrightarrow>
   curr_scheduled s' = curr_scheduled s \<Longrightarrow> behind s s'"
  unfolding behind_def by (cases s; cases s'; simp)

lemma behind_rtc:
  "rtc.more s' = rtc.more s \<Longrightarrow> curr_terminal s' = curr_terminal s \<Longrightarrow>
   curr_scheduled s' = curr_scheduled s \<Longrightarrow> behind s s'"
  unfolding behind_def by (cases s; cases s'; simp)

named_theorems behind_intros \<open>operations that leave the state behind the drivers alone\<close>

lemma behind_updates [behind_intros]:
  "behind s (s\<lparr>mem := m\<rparr>)" "behind s (s\<lparr>ports := p\<rparr>)" "behind s (s\<lparr>device := d\<rparr>)" "behind s (s\<lparr>intr := i\<rparr>)"
  "behind s (s\<lparr>enter_flag := e\<rparr>)" "behind s (s\<lparr>keyboard_buffer := b\<rparr>)" "behind s (s\<lparr>keyboard_buffer1 := b\<rparr>)"
  "behind s (s\<lparr>keyboard_buffer2 := b\<rparr>)" "behind s (s\<lparr>keyboard_buffer3 := b\<rparr>)"
  "behind s (s\<lparr>keyboard_buffer_index := n\<rparr>)" "behind s (s\<lparr>kb1_pos := n\<rparr>)" "behind s (s\<lparr>kb2_pos := n\<rparr>)"
  "behind s (s\<lparr>kb3_pos := n\<rparr>)" "behind s (s\<lparr>shift_key := n\<rparr>)" "behind s (s\<lparr>alt_key := n\<rparr>)"
  "behind s (s\<lparr>cap_flag := n\<rparr>)" "behind s (s\<lparr>ctrl_key := n\<rparr>)" "behind s (s\<lparr>rtc_rates := r\<rparr>)"
  "behind s (s\<lparr>rtc_counter := r\<rparr>)" "behind s (s\<lparr>screen_x := x\<rparr>)" "behind s (s\<lparr>screen_y := x\<rparr>)"
  by (simp_all add: behind_def)

lemma behind_console_ops [behind_intros]:
  "behind s (cli s)" "behind s (sti s)" "behind s (putc2 c s)" "behind s (putc c s)" "behind s (update_cursor x y s)"
  "behind s (set_cursors x y s)" "behind s (clear s)" "behind s (send_eoi irq s)" "behind s (snd (inb port s))"
  by (simp_all add: behind_def cli_def sti_def putc2_def putc_def put_glyph_def scroll_def update_cursor_def outb_def
      set_cursors_def clear_def send_eoi_def inb_def Let_def)

section \<open>The handlers\<close>

lemma behind_rtc_handler [behind_intros]: "behind s (rtc_handler s)"
  by (simp add: behind_def rtc_handler_def tick_counter_def send_eoi_def outb_def inb_def Let_def)

lemma behind_kb_shift: "behind s (kb_shift c s)" "behind s (kb_modifiers c s)"
  by (simp_all add: kb_shift_def kb_modifiers_def behind_intros)

lemma behind_kb_switch: "behind s (kb_switch c s)"
  by (simp add: kb_switch_def kb_save_def Let_def behind_def)

lemma behind_kb_store: "behind s (kb_store c s)"
  by (simp add: kb_store_def Let_def) (intro behind_trans [OF _ behind_console_ops(3)] behind_trans [OF behind_updates(6) behind_updates(10)])

lemma behind_kb_backspace: "behind s (kb_backspace s)"
  by (auto simp: kb_backspace_def Let_def intro!: behind_trans [OF _ behind_updates(10)]
      behind_trans [OF _ behind_console_ops(5)] behind_trans [OF _ behind_console_ops(6)]
      behind_trans [OF _ behind_console_ops(3)])

lemma behind_kb_action: "behind s (kb_action c s)"
  by (auto simp: kb_action_def Let_def behind_kb_switch behind_kb_store behind_kb_backspace behind_intros
      intro!: behind_trans [OF _ behind_console_ops(5)] behind_trans [OF _ behind_console_ops(6)])

lemma behind_keyboard_handler [behind_intros]: "behind s (keyboard_handler s)"
  unfolding keyboard_handler_def kb_scancode_def Let_def prod.case_eq_if
  by (intro behind_trans [OF _ behind_kb_action] behind_trans [OF _ behind_kb_shift(2)]
      behind_trans [OF _ behind_kb_shift(1)] behind_trans [OF _ behind_console_ops(8)] behind_console_ops)

section \<open>Reads and writes\<close>

lemma behind_putfile_loop: "behind s (snd (putfile_loop str len index s))"
proof (induction str len index s rule: putfile_loop.induct)
  case (1 str len index s)
  let ?s = "if mem s (str + index) \<noteq> 0 then put_user (mem s (str + index)) s else s"
  have put: "behind s ?s" by (simp add: put_user_def behind_intros)
  show ?case
  proof (cases "index < len")
    case True
    then have "behind ?s (snd (putfile_loop str len (index + 1) ?s))" by (rule 1) simp_all
    with put have "behind s (snd (putfile_loop str len (index + 1) ?s))" by (rule behind_trans)
    with True show ?thesis by (subst putfile_loop.simps) (simp add: Let_def)
  qed (subst putfile_loop.simps, simp)
qed

lemma behind_terminal_write: "behind s (snd (terminal_write fd buf nbytes s))"
proof -
  have print: "behind s (snd (print_withoutnull buf nbytes s))"
    unfolding print_withoutnull_def Let_def putfile_def
    by (rule behind_trans [OF behind_trans [OF behind_updates(1) behind_updates(1)] behind_putfile_loop])
  let ?b = "\<lambda>s. if curr_scheduled s = 1 then s\<lparr>keyboard_buffer1 := clear_line\<rparr>
                  else if curr_scheduled s = 2 then s\<lparr>keyboard_buffer2 := clear_line\<rparr>
                  else if curr_scheduled s = 3 then s\<lparr>keyboard_buffer3 := clear_line\<rparr> else s"
  let ?p = "\<lambda>s. if curr_scheduled s = 1 then s\<lparr>kb1_pos := 0\<rparr>
                  else if curr_scheduled s = 2 then s\<lparr>kb2_pos := 0\<rparr>
                  else if curr_scheduled s = 3 then s\<lparr>kb3_pos := 0\<rparr> else s"
  have b: "behind u (?b u)" for u :: "'a keyboard_scheme" by (simp add: behind_updates)
  have p: "behind u (?p u)" for u :: "'a keyboard_scheme" by (simp add: behind_updates)
  obtain x u where u: "print_withoutnull buf nbytes s = (x, u)" by (cases "print_withoutnull buf nbytes s")
  then have "behind s u" using print by simp
  then have "behind s (cli u)" using behind_console_ops(1) by (rule behind_trans)
  then have "behind s (?b (cli u))" using b by (rule behind_trans)
  then have "behind s (?p (?b (cli u)))" using p by (rule behind_trans)
  then have "behind s (sti (?p (?b (cli u))))" using behind_console_ops(2) by (rule behind_trans)
  moreover have "terminal_write fd buf nbytes s = (if buf = 0 \<or> nbytes < 0 then (- 1, s)
      else if nbytes = 0 then (0, s) else (sint x, sti (?p (?b (cli u)))))"
    unfolding terminal_write_def Let_def u by (simp only: prod.case)
  ultimately obtain w where "behind s w" and
    "terminal_write fd buf nbytes s = (if buf = 0 \<or> nbytes < 0 then (- 1, s)
      else if nbytes = 0 then (0, s) else (sint x, w))" by blast
  then show ?thesis by simp
qed

lemma behind_rtc_write: "behind s (snd (rtc_write fd buf nbytes s))"
  by (simp add: rtc_write_def Let_def behind_intros)

lemma behind_rtc_open: "behind s (snd (rtc_open filename s))"
  by (simp add: rtc_open_def inb_def outb_def cli_def sti_def Let_def behind_def)

end
