(* ===== verification/Kernel_Steps.thy ===== *)
theory Kernel_Steps
  imports Kernel_Frames Keyboard_Laws
begin

text \<open>
  The kernel as a transition system: the interrupts, the system calls and what a program can do
  to memory, and an invariant of all of them. A program in user mode reaches the 4 MB frame of a
  live process and the text pages, and nothing else.
\<close>

section \<open>The invariant\<close>

text \<open>\<open>st\<close> gives the stack of processes of each terminal, youngest first. The program page is that
  of the youngest process of the scheduled terminal; after a process of a background terminal has
  called \<open>execute\<close>, which starts the new process on the displayed terminal, it is that of the youngest
  process there. The processor has the same entry in its TLB. \<open>kernel_base\<close> is what holds between the
  switch of the display and the change of the page in the handler of the timer.\<close>

definition page_holder :: "'a paging_scheme \<Rightarrow> int \<Rightarrow> bool" where
  "page_holder s p \<longleftrightarrow> p = highest_terminal_processes s (curr_scheduled s - 1)
     \<or> p = highest_terminal_processes s (curr_terminal s - 1)"

definition kernel_base :: "(int \<Rightarrow> int list) \<Rightarrow> 'a paging_scheme \<Rightarrow> bool" where
  "kernel_base st s \<longleftrightarrow> tables_ok s \<and> proc_view s st \<and> list_all (\<lambda>t. st t \<noteq> []) [0, 1, 2]
     \<and> curr_scheduled s \<in> {1, 2, 3} \<and> curr_terminal s \<in> {1, 2, 3} \<and> switch_flag s \<in> {0, 1, 2, 3}
     \<and> total_terminal s > 3"

definition kernel_ok :: "(int \<Rightarrow> int list) \<Rightarrow> 'a paging_scheme \<Rightarrow> bool" where
  "kernel_ok st s \<longleftrightarrow> kernel_base st s \<and> user_pde s = pageDirectory s 32
     \<and> list_ex (\<lambda>p. page_holder s p \<and> pageDirectory s 32 = user_page (p - 1)) (all_procs st)"

text \<open>What the invariant is about.\<close>

definition kernel_view :: "'a paging_scheme \<Rightarrow> _" where
  "kernel_view s = (pcb_slots s, process_count s, highest_terminal_processes s, pageDirectory s,
     pgTbl_vidMem s, pgTbl_vidMem_addr s, total_terminal s, pageTable s, pageTable_addr s, user_pde s)"

lemma kernel_base_cong:
  assumes "kernel_base st s" and "kernel_view s' = kernel_view s"
    and "\<And>p. process_num (pcbs s' p) = process_num (pcbs s p) \<and> parent_task (pcbs s' p) = parent_task (pcbs s p)"
    and "curr_scheduled s' \<in> {1, 2, 3}" "curr_terminal s' \<in> {1, 2, 3}" "switch_flag s' \<in> {0, 1, 2, 3}"
  shows "kernel_base st s'"
proof -
  have "proc_view s' st = proc_view s st"
    using assms(2,3) by (intro proc_view_cong) (simp_all add: kernel_view_def)
  moreover have "tables_ok s' = tables_ok s"
    using assms(2) by (simp add: kernel_view_def tables_ok_def tables_linked_def)
  ultimately show ?thesis using assms by (simp add: kernel_base_def kernel_view_def)
qed

lemma kernel_ok_ranges:
  "kernel_ok st s \<Longrightarrow> curr_scheduled s \<in> {1, 2, 3} \<and> curr_terminal s \<in> {1, 2, 3} \<and> switch_flag s \<in> {0, 1, 2, 3}"
  by (simp only: kernel_ok_def kernel_base_def)

lemma kernel_ok_cong:
  assumes ok: "kernel_ok st s" and view: "kernel_view s' = kernel_view s"
    and "\<And>p. process_num (pcbs s' p) = process_num (pcbs s p) \<and> parent_task (pcbs s' p) = parent_task (pcbs s p)"
    and same: "curr_scheduled s' = curr_scheduled s" "curr_terminal s' = curr_terminal s"
    and flag: "switch_flag s \<in> {0, 1, 2, 3} \<Longrightarrow> switch_flag s' \<in> {0, 1, 2, 3}"
  shows "kernel_ok st s'"
proof -
  have "kernel_base st s" using ok by (simp only: kernel_ok_def)
  then have "kernel_base st s'"
    by (rule kernel_base_cong [OF _ view assms(3)]) (use kernel_ok_ranges [OF ok] same flag in simp_all)
  moreover have "page_holder s' p = page_holder s p" for p
    using view same by (simp add: kernel_view_def page_holder_def)
  ultimately show ?thesis using ok view by (simp add: kernel_ok_def kernel_view_def)
qed

lemma kernel_of_more:
  assumes "keyboard.more s' = keyboard.more s"
  shows "kernel_view s' = kernel_view s" "pcbs s' = pcbs s"
  using assms unfolding kernel_view_def by (cases s; cases s'; simp)+

lemma kernel_ok_behind:
  assumes "behind s s'" and "kernel_ok st s"
  shows "kernel_ok st s'"
  using assms kernel_of_more [of s' s] kernel_ok_ranges [OF assms(2)]
  by (intro kernel_ok_cong [OF assms(2)]) (simp_all only: behind_def)

lemma kernel_ok_files:
  assumes "same_but_files s s'" and "kernel_ok st s"
  shows "kernel_ok st s'"
proof -
  have s': "s' = s\<lparr>pcbs := pcbs s', dir_index := dir_index s'\<rparr>" using assms(1) by (simp only: same_but_files_def)
  have "kernel_view s' = kernel_view s" "curr_scheduled s' = curr_scheduled s"
    "curr_terminal s' = curr_terminal s" "switch_flag s' = switch_flag s"
    by (subst s', simp add: kernel_view_def)+
  then show ?thesis
    using same_but_files_core(1,2) [OF assms(1)] kernel_ok_ranges [OF assms(2)]
    by (intro kernel_ok_cong [OF assms(2)]) simp_all
qed

lemma kernel_ok_directory:
  assumes "kernel_ok st s"
  shows "kernel_ok st (s\<lparr>dir_index := n\<rparr>)"
  using assms by (intro kernel_ok_files [OF _ assms]) (simp add: same_but_files_def)

lemmas kernel_ok_intros = kernel_ok_directory behind_intros [THEN kernel_ok_behind]

section \<open>The system calls\<close>

lemma kernel_ok_update_fd [intro]: "kernel_ok st s \<Longrightarrow> kernel_ok st (update_fd p fd f s)"
  by (rule kernel_ok_files [OF same_but_files_update_fd])

lemma kernel_ok_file_size:
  "kernel_ok st s \<Longrightarrow> kernel_ok st (update_pcb p (\<lambda>b. b\<lparr>file_arr_size := f b\<rparr>) s)"
  by (erule kernel_ok_files [rotated]) (simp add: same_but_files_def update_pcb_def)

lemma kernel_ok_file_read: "kernel_ok st s \<Longrightarrow> kernel_ok st (snd (file_read fd buf nbytes s))"
  by (auto simp: file_read_def Let_def prod.case_eq_if intro: kernel_ok_intros)

lemma kernel_ok_dir_read: "kernel_ok st s \<Longrightarrow> kernel_ok st (snd (dir_read fd buf nbytes s))"
  by (auto simp: dir_read_def Let_def prod.case_eq_if intro: kernel_ok_intros)

lemma kernel_ok_close: "kernel_ok st s \<Longrightarrow> kernel_ok st (snd (sys_close fd s))"
  by (auto simp: sys_close_def Let_def intro: kernel_ok_file_size)

text \<open>The waits serve interrupts that keep the invariant.\<close>

lemma kernel_ok_rtc_read:
  assumes "rtc_read fd buf nbytes ints s = Some (r, s', rest)" and "kernel_ok st s"
    and "\<And>i s. i \<in> set ints \<Longrightarrow> kernel_ok st s \<Longrightarrow> kernel_ok st (i s)"
  shows "kernel_ok st s'"
  using assms
  by (auto simp: rtc_read_def Let_def split: option.splits intro: kernel_ok_intros
      elim!: rtcw.wait_invariant [where P = "kernel_ok st"])

lemma kernel_ok_terminal_read:
  assumes "terminal_read fd buf nbytes ints s = Some (r, s', rest)" and "kernel_ok st s"
    and ints: "\<And>i s. i \<in> set ints \<Longrightarrow> kernel_ok st s \<Longrightarrow> kernel_ok st (i s)"
  shows "kernel_ok st s'"
proof (cases "nbytes < 0")
  case False
  then obtain u where u: "terminal_wait ints (sti s) = Some (u, rest)"
    using assms(1) by (auto simp: terminal_read_def Let_def split: option.splits)
  have "kernel_ok st (sti s)" by (rule kernel_ok_intros) (rule assms(2))
  then have "kernel_ok st u" by (rule termw.wait_invariant [OF u]) (rule ints)
  then show ?thesis
    using assms(1) False u by (auto simp: terminal_read_def Let_def intro!: kernel_ok_intros)
qed (use assms(1,2) in \<open>simp add: terminal_read_def\<close>)

lemma kernel_ok_read:
  assumes "sys_read fd buf nbytes ints s = Done (r, s', rest)" and "kernel_ok st s"
    and ints: "\<And>i s. i \<in> set ints \<Longrightarrow> kernel_ok st s \<Longrightarrow> kernel_ok st (i s)"
  shows "kernel_ok st s'"
proof -
  have "s' = s \<or> (\<exists>tbl. table_read tbl fd buf nbytes ints s = Some (r, s', rest))"
    using assms(1) by (auto simp: sys_read_def Let_def split: if_splits option.splits)
  then show ?thesis
  proof
    assume "\<exists>tbl. table_read tbl fd buf nbytes ints s = Some (r, s', rest)"
    then obtain tbl where t: "table_read tbl fd buf nbytes ints s = Some (r, s', rest)" ..
    show ?thesis
    proof (cases tbl)
      case File_table
      with t kernel_ok_file_read [OF assms(2), of fd buf nbytes] show ?thesis
        by (simp add: table_read_def prod.case_eq_if)
    next
      case Dir_table
      with t kernel_ok_dir_read [OF assms(2), of fd buf nbytes] show ?thesis
        by (simp add: table_read_def prod.case_eq_if)
    next
      case Rtc_table
      with t have "rtc_read fd buf nbytes ints s = Some (r, s', rest)" by (simp add: table_read_def)
      then show ?thesis using assms(2) ints by (rule kernel_ok_rtc_read)
    next
      case Stdin_table
      with t have "terminal_read fd buf nbytes ints s = Some (r, s', rest)" by (simp add: table_read_def)
      then show ?thesis using assms(2) ints by (rule kernel_ok_terminal_read)
    next
      case Stdout_table
      with t assms(2) show ?thesis by (simp add: table_read_def)
    qed
  qed (use assms(2) in simp)
qed

lemma kernel_ok_write:
  assumes "sys_write fd buf nbytes s = Done (r, s')" and "kernel_ok st s"
  shows "kernel_ok st s'"
proof -
  have c: "kernel_ok st (cli s)" by (rule kernel_ok_intros) (rule assms(2))
  have "kernel_ok st (snd (table_write tbl fd buf nbytes (cli s)))" for tbl
    using c by (cases tbl) (simp_all add: table_write_def
      kernel_ok_behind [OF behind_rtc_write] kernel_ok_behind [OF behind_terminal_write])
  moreover have "s' = sti (cli s) \<or> (\<exists>tbl. s' = sti (snd (table_write tbl fd buf nbytes (cli s))))"
    using assms(1) by (auto simp: sys_write_def Let_def prod.case_eq_if split: if_splits option.splits)
  ultimately show ?thesis using c assms(2) by (auto intro: kernel_ok_intros)
qed

lemma kernel_ok_open:
  assumes "sys_open filename s = Done (r, s')" and "kernel_ok st s"
  shows "kernel_ok st s'"
proof -
  have tbl: "kernel_ok st (table_open tbl f u)" if "kernel_ok st u" for tbl f u
    using that by (cases tbl) (simp_all add: table_open_def dir_open_def kernel_ok_directory
      kernel_ok_behind [OF behind_rtc_open])
  show ?thesis
    using assms by (auto simp: sys_open_def Let_def prod.case_eq_if split: if_splits option.splits
      intro!: tbl kernel_ok_file_size intro: kernel_ok_intros)
qed

lemma kernel_ok_getargs:
  "getargs buf nbytes s = Done (r, s') \<Longrightarrow> kernel_ok st s \<Longrightarrow> kernel_ok st s'"
  by (auto simp: getargs_def Let_def split: option.splits if_splits intro: kernel_ok_intros)

section \<open>Changing the tables\<close>

lemma tables_okD:
  assumes "tables_ok s"
  shows "tables_linked s" "pageTable s = screen_entries" "pageDirectory s 0 = pageTable_addr s OR 0x17"
    "pageDirectory s 1 = 0x400083"
    "bit (pageDirectory s i) 0 \<Longrightarrow> i = 0 \<or> i = 1 \<or> i = 32 \<or> i = 33"
    "bit (pageDirectory s 32) 0 \<Longrightarrow> pageDirectory s 32 \<in> user_page ` {0, 1, 2, 3, 4, 5}"
    "bit (pageDirectory s 33) 0 \<Longrightarrow> pageDirectory s 33 = pgTbl_vidMem_addr s OR 7"
    "bit (pgTbl_vidMem s i) 0 \<Longrightarrow> i = 0"
    "bit (pgTbl_vidMem s 0) 0 \<Longrightarrow> pgTbl_vidMem s 0 \<in> {0xB8007, 0xB9007, 0xBA007, 0xBB007}"
  using assms unfolding tables_ok_def by blast+

lemma tables_ok_step:
  assumes ok: "tables_ok s"
    and same: "pageTable s' = pageTable s" "pageTable_addr s' = pageTable_addr s"
      "pgTbl_vidMem_addr s' = pgTbl_vidMem_addr s" "\<And>i. i \<noteq> 32 \<Longrightarrow> i \<noteq> 33 \<Longrightarrow> pageDirectory s' i = pageDirectory s i"
    and program: "pageDirectory s' 32 \<noteq> pageDirectory s 32 \<Longrightarrow> pageDirectory s' 32 \<in> user_page ` {0, 1, 2, 3, 4, 5}"
    and video: "pageDirectory s' 33 \<noteq> pageDirectory s 33 \<Longrightarrow> pageDirectory s' 33 = pgTbl_vidMem_addr s OR 7"
      "\<And>i. i \<noteq> 0 \<Longrightarrow> pgTbl_vidMem s' i = pgTbl_vidMem s i"
      "pgTbl_vidMem s' 0 \<noteq> pgTbl_vidMem s 0 \<Longrightarrow> pgTbl_vidMem s' 0 \<in> {0xB8007, 0xB9007, 0xBA007, 0xBB007}"
  shows "tables_ok s'"
  unfolding tables_ok_def
proof (intro conjI allI impI)
  show "tables_linked s'" using tables_okD(1) [OF ok] same by (simp add: tables_linked_def)
  show "pageTable s' = screen_entries" using tables_okD(2) [OF ok] same by simp
  show "pageDirectory s' 0 = pageTable_addr s' OR 0x17" using tables_okD(3) [OF ok] same(2) same(4) [of 0] by simp
  show "pageDirectory s' 1 = 0x400083" using tables_okD(4) [OF ok] same(4) [of 1] by simp
  show "i = 0 \<or> i = 1 \<or> i = 32 \<or> i = 33" if "bit (pageDirectory s' i) 0" for i
    using tables_okD(5) [OF ok, of i] same(4) [of i] that by metis
  show "pageDirectory s' 32 \<in> user_page ` {0, 1, 2, 3, 4, 5}" if "bit (pageDirectory s' 32) 0"
    using tables_okD(6) [OF ok] program that by metis
  show "pageDirectory s' 33 = pgTbl_vidMem_addr s' OR 7" if "bit (pageDirectory s' 33) 0"
    using tables_okD(7) [OF ok] video(1) same(3) that by metis
  show "i = 0" if "bit (pgTbl_vidMem s' i) 0" for i
    using tables_okD(8) [OF ok, of i] video(2) [of i] that by metis
  show "pgTbl_vidMem s' 0 \<in> {0xB8007, 0xB9007, 0xBA007, 0xBB007}" if "bit (pgTbl_vidMem s' 0) 0"
    using tables_okD(9) [OF ok] video(3) that by metis
qed

lemma map_video_cases:
  "map_video t s = s \<or> (\<exists>page \<in> {VIDEO, VIDEO1, VIDEO2, VIDEO3}.
     map_video t s = s\<lparr>pgTbl_vidMem := (pgTbl_vidMem s)(0 := page OR 7), video_mem := page\<rparr>)"
  unfolding map_video_def by (simp only: bex_simps insert_iff split: if_split) blast

lemma map_video_same [simp]:
  "curr_scheduled (map_video t s) = curr_scheduled s" "curr_terminal (map_video t s) = curr_terminal s"
  "switch_flag (map_video t s) = switch_flag s" "total_terminal (map_video t s) = total_terminal s"
  "pageDirectory (map_video t s) = pageDirectory s" "user_pde (map_video t s) = user_pde s"
  "highest_terminal_processes (map_video t s) = highest_terminal_processes s"
  by (simp_all add: map_video_def)

lemma kernel_base_map_video:
  assumes "kernel_base st s"
  shows "kernel_base st (map_video t s)"
  using map_video_cases [of t s]
proof (elim disjE bexE)
  fix page
  assume page: "page \<in> {VIDEO, VIDEO1, VIDEO2, VIDEO3}"
    and m: "map_video t s = s\<lparr>pgTbl_vidMem := (pgTbl_vidMem s)(0 := page OR 7), video_mem := page\<rparr>"
  have t: "tables_ok s" using assms by (simp only: kernel_base_def)
  have entry: "page OR 7 \<in> {0xB8007, 0xB9007, 0xBA007, 0xBB007}"
    using page by (elim insertE emptyE) simp_all
  have "tables_ok (map_video t s)"
    unfolding m by (rule tables_ok_step [OF t]) (simp_all add: entry del: insert_iff)
  moreover have "proc_view (map_video t s) st = proc_view s st"
    unfolding m by (rule proc_view_cong) simp_all
  ultimately show ?thesis using assms by (simp only: kernel_base_def map_video_same)
qed (use assms in simp)

lemma kernel_ok_map_video:
  assumes "kernel_ok st s"
  shows "kernel_ok st (map_video t s)"
  using assms by (simp add: kernel_ok_def page_holder_def kernel_base_map_video)

lemma kernel_okI:
  assumes "tables_ok s" "proc_view s st" "st 0 \<noteq> []" "st 1 \<noteq> []" "st 2 \<noteq> []"
    and "curr_scheduled s \<in> {1, 2, 3}" "curr_terminal s \<in> {1, 2, 3}" "switch_flag s \<in> {0, 1, 2, 3}"
    and "total_terminal s > 3" and "p \<in> set (all_procs st)" "pageDirectory s 32 = user_page (p - 1)"
    and "user_pde s = pageDirectory s 32" "page_holder s p"
  shows "kernel_ok st s"
  using assms by (auto simp only: kernel_ok_def kernel_base_def list.pred_inject list_ex_iff)

lemma kernel_baseD:
  assumes "kernel_base st s"
  shows "tables_ok s" "proc_view s st" "st 0 \<noteq> []" "st 1 \<noteq> []" "st 2 \<noteq> []"
    "curr_scheduled s \<in> {1, 2, 3}" "curr_terminal s \<in> {1, 2, 3}" "switch_flag s \<in> {0, 1, 2, 3}"
    "total_terminal s > 3"
  using assms by (auto simp only: kernel_base_def list.pred_inject)

lemma kernel_ok_base: "kernel_ok st s \<Longrightarrow> kernel_base st s"
  by (simp only: kernel_ok_def)

lemma kernel_okD:
  assumes "kernel_ok st s"
  shows "\<exists>p \<in> set (all_procs st). page_holder s p \<and> pageDirectory s 32 = user_page (p - 1)"
    "user_pde s = pageDirectory s 32"
  using assms by (auto simp only: kernel_ok_def list_ex_iff)

lemma process_page: "1 \<le> p \<Longrightarrow> p \<le> 6 \<Longrightarrow> user_page (p - 1) \<in> user_page ` {0, 1, 2, 3, 4, 5}"
proof -
  assume "1 \<le> p" "p \<le> 6"
  then have "p - 1 \<in> {0, 1, 2, 3, 4, 5}" by auto
  then show ?thesis by (rule imageI)
qed

lemma kernel_ok_vidmap:
  assumes "kernel_ok st s"
  shows "kernel_ok st (snd (vidmap screen_start s))"
proof (cases "snd (vidmap screen_start s) = cli s")
  case True
  with kernel_ok_intros assms show ?thesis by metis
next
  case False
  let ?s = "(cli s)\<lparr>pageDirectory := (pageDirectory s)(33 := pgTbl_vidMem_addr s OR 7)\<rparr>"
  note B = kernel_baseD [OF kernel_ok_base [OF assms]]
  obtain p where p: "p \<in> set (all_procs st)" "page_holder s p" "pageDirectory s 32 = user_page (p - 1)"
    using kernel_okD(1) [OF assms] by blast
  have "kernel_ok st ?s"
  proof (rule kernel_okI [OF _ _ B(3-5) _ _ _ _ p(1)])
    show "tables_ok ?s" by (rule tables_ok_step [OF B(1)]) (simp_all add: cli_def)
    have "proc_view ?s st = proc_view s st" by (rule proc_view_cong) (simp_all add: cli_def)
    then show "proc_view ?s st" using B(2) by simp
  qed (use B(6-9) p(2,3) kernel_okD(2) [OF assms] in \<open>simp_all add: cli_def page_holder_def\<close>)
  then have m: "kernel_ok st (map_video (curr_scheduled s) ?s)" by (rule kernel_ok_map_video)
  have u: "kernel_ok st (u\<lparr>user_vid_mem := x\<rparr>)" if "kernel_ok st u" for u x
    by (intro kernel_ok_cong [OF that]) (simp_all add: kernel_view_def)
  have "\<exists>x m. snd (vidmap screen_start s) = sti ((map_video (curr_scheduled s) ?s)\<lparr>mem := m\<rparr>)
    \<or> snd (vidmap screen_start s) = sti ((map_video (curr_scheduled s) ?s)\<lparr>user_vid_mem := x, mem := m\<rparr>)"
    using False by (auto simp: vidmap_def Let_def cli_def split: if_splits)
  then show ?thesis
    using u [OF m] m by (elim exE disjE) (auto intro!: kernel_ok_intros)
qed

lemma kernel_ok_schedule:
  assumes base: "kernel_base st v" and n: "n \<in> {1, 2, 3}"
  shows "kernel_ok st (pit_schedule n v)"
proof -
  note B = kernel_baseD [OF base]
  have t: "n - 1 \<in> {0, 1, 2}" using n by auto
  define p where "p = youngest (st (n - 1))"
  have high: "highest_terminal_processes v (n - 1) = p"
    using proc_view_youngest [OF B(2) t] by (simp add: p_def)
  have "st (n - 1) \<noteq> []" using B(3-5) t by auto
  then have "p \<in> set (st (n - 1))" by (cases "st (n - 1)") (simp_all add: p_def)
  then have p: "p \<in> set (all_procs st)" using t by (auto simp: all_procs_def)
  let ?s = "pit_schedule n v"
  have f: "pageDirectory ?s = (pageDirectory v)(32 := user_page (p - 1))" "pageTable ?s = pageTable v"
    "pageTable_addr ?s = pageTable_addr v" "pgTbl_vidMem_addr ?s = pgTbl_vidMem_addr v"
    "pgTbl_vidMem ?s = pgTbl_vidMem v" "curr_scheduled ?s = n" "curr_terminal ?s = curr_terminal v"
    "switch_flag ?s = switch_flag v" "total_terminal ?s = total_terminal v"
    "highest_terminal_processes ?s = highest_terminal_processes v" "pcb_slots ?s = pcb_slots v"
    "process_count ?s = process_count v" "user_pde ?s = user_page (p - 1)"
    "process_num (pcbs ?s q) = process_num (pcbs v q)" "parent_task (pcbs ?s q) = parent_task (pcbs v q)" for q
    by (simp_all add: pit_schedule_def Let_def flush_tlb_def update_pcb_def high)
  have "proc_view ?s st = proc_view v st" using f by (intro proc_view_cong) simp_all
  then have view: "proc_view ?s st" using B(2) by simp
  have "tables_ok ?s"
    using f process_page [of p] proc_view_range [OF B(2) p]
    by (intro tables_ok_step [OF B(1)]) (simp_all del: insert_iff image_insert)
  then show ?thesis
    by (rule kernel_okI [OF _ view B(3-5) _ _ _ _ p]) (use f n B(7-9) high in \<open>simp_all add: page_holder_def\<close>)
qed

lemma kernel_ok_timer:
  assumes "pit_handler s = Returns r s'" and "kernel_ok st s"
  shows "kernel_ok st s'"
proof -
  define n where "n = next_of (curr_scheduled s)"
  note B = kernel_baseD [OF kernel_ok_base [OF assms(2)]]
  have n: "n \<in> {1, 2, 3}" using next_of_range [OF B(6)] by (simp only: n_def)
  have e: "kernel_ok st (send_eoi 0 s)" by (rule kernel_ok_intros) (rule assms(2))
  have "keyboard.more (pit_switch (send_eoi 0 s)) = keyboard.more (send_eoi 0 s)"
    by (simp add: pit_switch_def switch_terminal_def update_cursor_def outb_def Let_def)
  note more = kernel_of_more [OF this]
  have "kernel_base st (pit_switch (send_eoi 0 s))"
  proof (rule kernel_base_cong [OF kernel_ok_base [OF e] more(1)])
    show "curr_scheduled (pit_switch (send_eoi 0 s)) \<in> {1, 2, 3}" using kernel_ok_ranges [OF e] by simp
    show "curr_terminal (pit_switch (send_eoi 0 s)) \<in> {1, 2, 3}" "switch_flag (pit_switch (send_eoi 0 s)) \<in> {0, 1, 2, 3}"
      using pit_switch_terminal [of "send_eoi 0 s"] kernel_ok_ranges [OF e] by auto
  qed (simp add: more(2))
  then have "kernel_base st (map_video n (pit_switch (send_eoi 0 s)))" (is "kernel_base st ?v")
    by (rule kernel_base_map_video)
  moreover have "s' = pit_schedule n ?v"
  proof -
    have "total_terminal ?v > 3" using B(9) by (simp add: map_video_def)
    then have "pit_handler s = Returns 0 (pit_schedule n ?v)"
      by (simp add: pit_handler_def Let_def n_def next_of_def)
    with assms(1) show ?thesis by simp
  qed
  ultimately show ?thesis using kernel_ok_schedule n by simp
qed

section \<open>Processes\<close>

lemma start_process_tables:
  assumes "start_process i entry_point s = Enters e s'"
  shows "pgTbl_vidMem s' = pgTbl_vidMem s" "pgTbl_vidMem_addr s' = pgTbl_vidMem_addr s"
    "switch_flag s' = switch_flag s" "pageDirectory s' = pageDirectory s"
  using assms by (auto simp: start_process_def Let_def update_pcb_def)

lemma flush_tlb_tables [simp]:
  "pgTbl_vidMem (flush_tlb s) = pgTbl_vidMem s" "pgTbl_vidMem_addr (flush_tlb s) = pgTbl_vidMem_addr s"
  "switch_flag (flush_tlb s) = switch_flag s" "pageDirectory (flush_tlb s) = pageDirectory s"
  by (simp_all add: flush_tlb_def Let_def)

lemma load_process_tables:
  assumes "load_process command i temp s = Enters e s'"
  shows "pgTbl_vidMem s' = pgTbl_vidMem s" "pgTbl_vidMem_addr s' = pgTbl_vidMem_addr s"
    "switch_flag s' = switch_flag s"
  using assms unfolding load_process_def Let_def
  by (auto simp: update_pcb_def dest: start_process_tables split: if_splits option.splits prod.splits)

lemma load_process_slot:
  assumes "load_process command i temp s = Returns r s'"
  shows "pcb_slots s' = (pcb_slots s)(find_slot (pcb_slots s) 0 6 := 1)"
  using assms unfolding load_process_def Let_def
  by (auto simp: update_pcb_def start_process_def Let_def flush_tlb_def
      split: if_splits option.splits prod.splits)

lemma scheduler_more_tables:
  "process.more s' = process.more s \<Longrightarrow> total_terminal s' = total_terminal s \<and> pageTable s' = pageTable s
     \<and> pageTable_addr s' = pageTable_addr s"
  by (cases s; cases s'; simp)

text \<open>Starting a process. The stack of the displayed terminal may be empty, as it is when \<open>halt\<close>
  restarts a shell.\<close>

lemma kernel_ok_start:
  assumes enters: "execute command s = Enters e s'"
    and tables: "tables_ok s" and view: "proc_view s st"
    and ranges: "curr_scheduled s \<in> {1, 2, 3}" "curr_terminal s \<in> {1, 2, 3}" "switch_flag s \<in> {0, 1, 2, 3}"
      "total_terminal s > 3"
    and others: "\<And>t. t \<in> {0, 1, 2} \<Longrightarrow> t \<noteq> curr_terminal s - 1 \<Longrightarrow> st t \<noteq> []"
  obtains st' where "kernel_ok st' s'"
proof -
  have t: "curr_terminal s - 1 \<in> {0, 1, 2}" using ranges(2) by auto
  obtain i temp m where load: "load_process command i temp (s\<lparr>mem := m\<rparr>) = Enters e s'"
    by (rule execute_enters [OF enters])
  have dir: "\<exists>k. pageDirectory s' = (pageDirectory s)(32 := user_page k)"
    by (rule load_process_enters [OF load]) auto
  obtain p where p: "1 \<le> p" "p \<le> 6" "proc_view s' (push (curr_terminal s - 1) p st)"
    "curr_terminal s' = curr_terminal s" "curr_scheduled s' = curr_scheduled s"
    "pageDirectory s' 32 = user_page (p - 1)" "user_pde s' = user_page (p - 1)"
    by (rule execute_pushes [OF view ranges(2) enters])
  have same: "pgTbl_vidMem s' = pgTbl_vidMem s" "pgTbl_vidMem_addr s' = pgTbl_vidMem_addr s"
    "switch_flag s' = switch_flag s"
    using load_process_tables [OF load] by simp_all
  note more = scheduler_more_tables [OF execute_more(1) [OF enters]]
  have "tables_ok s'"
    using dir p(6) process_page [OF p(1,2)] more
    by (intro tables_ok_step [OF tables]) (auto simp: same)
  moreover have "p \<in> set (all_procs (push (curr_terminal s - 1) p st))" using t by (simp add: set_push)
  moreover have "page_holder s' p"
    using proc_view_youngest [OF p(3) t] p(4) by (simp add: page_holder_def push_def)
  moreover have "push (curr_terminal s - 1) p st u \<noteq> []" if "u \<in> {0, 1, 2}" for u
    using others [OF that] by (simp add: push_def)
  ultimately have "kernel_ok (push (curr_terminal s - 1) p st) s'"
    using p(3-7) ranges same more by (intro kernel_okI [where p = p]) simp_all
  then show thesis by (rule that)
qed

lemma kernel_ok_execute:
  assumes enters: "execute command s = Enters e s'" and ok: "kernel_ok st s"
  obtains st' where "kernel_ok st' s'"
proof -
  note B = kernel_baseD [OF kernel_ok_base [OF ok]]
  show thesis by (rule kernel_ok_start [OF enters B(1,2,6-9) _ that]) (use B(3-5) in auto)
qed

lemma kernel_ok_refused:
  assumes returns: "execute command s = Returns r s'" and slots: "pcb_slots s' = pcb_slots s"
    and ok: "kernel_ok st s"
  shows "kernel_ok st s'"
proof -
  have "behind s s' \<or> (process_count s < 6 \<and> (\<exists>i temp m. load_process command i temp (s\<lparr>mem := m\<rparr>) = Returns r s'))"
    using returns by (auto simp: execute_def Let_def split: if_splits option.splits prod.splits
        intro: behind_intros behind_console printf_frame)
  then show ?thesis
  proof
    assume "behind s s'"
    then show ?thesis using ok by (rule kernel_ok_behind)
  next
    assume "process_count s < 6 \<and> (\<exists>i temp m. load_process command i temp (s\<lparr>mem := m\<rparr>) = Returns r s')"
    then obtain i temp m where count: "process_count s < 6"
      and load: "load_process command i temp (s\<lparr>mem := m\<rparr>) = Returns r s'" by blast
    let ?k = "find_slot (pcb_slots s) 0 6"
    note view = kernel_baseD(2) [OF kernel_ok_base [OF ok]]
    note slot = free_slot [OF view count]
    have "pcb_slots s (?k + 1 - 1) = 0"
      using proc_view_slot [OF view, of "?k + 1"] slot by simp
    moreover have "pcb_slots s' ?k = 1" using load_process_slot [OF load] by simp
    ultimately show ?thesis using slots by simp
  qed
qed

text \<open>Ending a process.\<close>

lemma close_files_same: "close_files p fds s = Some s' \<Longrightarrow> same_but_files s s'"
proof (induction p fds s rule: close_files.induct)
  case (2 p i fds s)
  show ?case
  proof (cases "flags (fd_of s p i) = 0")
    case True
    with 2 have "same_but_files (update_fd p i (\<lambda>f. f\<lparr>flags := 0\<rparr>) s) s'" by simp
    then show ?thesis by (rule same_but_files_trans [OF same_but_files_update_fd])
  next
    case False
    with 2(3) obtain tbl where tbl: "fops_table (fd_of s p i) = Some tbl" by (auto split: option.splits)
    with 2 False have "same_but_files (update_fd p i (\<lambda>f. f\<lparr>flags := 0\<rparr>) (snd (table_close tbl i s))) s'" by simp
    then show ?thesis
      by (rule same_but_files_trans [OF same_but_files_trans [OF same_but_files_table_close same_but_files_update_fd]])
  qed
qed simp

lemma same_but_files_tables:
  fixes s :: "'a paging_scheme"
  assumes "same_but_files s s'"
  shows "process.more s' = process.more s" "pgTbl_vidMem s' = pgTbl_vidMem s"
    "pgTbl_vidMem_addr s' = pgTbl_vidMem_addr s" "switch_flag s' = switch_flag s"
proof -
  have s': "s' = s\<lparr>pcbs := pcbs s', dir_index := dir_index s'\<rparr>" using assms by (simp only: same_but_files_def)
  show "process.more s' = process.more s" "pgTbl_vidMem s' = pgTbl_vidMem s"
    "pgTbl_vidMem_addr s' = pgTbl_vidMem_addr s" "switch_flag s' = switch_flag s"
    by (subst s', simp)+
qed

lemma resume_tables:
  assumes "resume_parent p status w = Resumes r s'"
  shows "process.more s' = process.more w" "pgTbl_vidMem s' = pgTbl_vidMem w"
    "pgTbl_vidMem_addr s' = pgTbl_vidMem_addr w" "switch_flag s' = switch_flag w"
    "curr_terminal s' = curr_terminal w" "curr_scheduled s' = curr_scheduled w"
    "pageDirectory s' = pageDirectory w" "user_pde s' = pageDirectory s' 32"
  using assms by (auto simp: resume_parent_def Let_def)

lemma halt_tables:
  fixes s :: "'a paging_scheme"
  defines "pcb \<equiv> getPCB (highest_terminal_processes s (curr_scheduled s - 1))"
  assumes halt: "halt status s = Resumes r s'" and parent: "parent_task (pcbs s pcb) \<noteq> 0"
  shows "process.more s' = process.more s" "pgTbl_vidMem s' = pgTbl_vidMem s"
    "pgTbl_vidMem_addr s' = pgTbl_vidMem_addr s" "switch_flag s' = switch_flag s"
    "curr_terminal s' = curr_terminal s" "curr_scheduled s' = curr_scheduled s"
    "\<exists>k. pageDirectory s' = (pageDirectory s)(32 := user_page k)" "user_pde s' = pageDirectory s' 32"
proof -
  let ?t = "curr_scheduled s - 1"
  let ?s1 = "(cli s)\<lparr>process_count := process_count s - 1, process_per_terminal := (process_per_terminal s)
    (?t := process_per_terminal s ?t - 1)\<rparr>"
  have "close_files pcb [0, 1, 2, 3, 4, 5, 6, 7] ?s1 \<noteq> None"
  proof
    assume "close_files pcb [0, 1, 2, 3, 4, 5, 6, 7] ?s1 = None"
    then have "halt status s = Crash" by (simp add: halt_def Let_def pcb_def del: close_files.simps)
    with halt show False by simp
  qed
  then obtain s2 where s2: "close_files pcb [0, 1, 2, 3, 4, 5, 6, 7] ?s1 = Some s2" by blast
  note same = close_files_same [OF s2]
  note core = same_but_files_core [OF same] and tables = same_but_files_tables [OF same]
  let ?q = "parent_task (pcbs s pcb)"
  let ?k = "process_num (pcbs (update_pcb pcb (\<lambda>b. b\<lparr>args := replicate MAX_ARGS 0\<rparr>) s2) ?q) - 1"
  let ?u = "update_pcb pcb (\<lambda>b. b\<lparr>args := replicate MAX_ARGS 0\<rparr>) s2"
  have par: "parent_task (pcbs ?u pcb) \<noteq> 0"
    using parent core(2) [of pcb] by (simp add: update_pcb_def)
  let ?parent = "parent_task (pcbs ?u pcb)"
  let ?k = "process_num (pcbs ?u ?parent) - 1"
  let ?w = "?u\<lparr>pcb_slots := (pcb_slots ?u)(highest_terminal_processes ?u ?t - 1 := 0),
     pageDirectory := (pageDirectory ?u)(32 := user_page ?k),
     highest_terminal_processes := (highest_terminal_processes ?u)(?t := process_num (pcbs ?u ?parent)),
     tss_esp0 := esp0 (pcbs ?u ?parent)\<rparr>"
  have "halt status s = resume_parent pcb status ?w"
    using s2 par unfolding halt_def Let_def pcb_def by (simp del: close_files.simps)
  then have w: "resume_parent pcb status ?w = Resumes r s'" using halt by simp
  note R = resume_tables [OF w]
  have W: "process.more ?w = process.more s" "pgTbl_vidMem ?w = pgTbl_vidMem s" "pgTbl_vidMem_addr ?w = pgTbl_vidMem_addr s"
    "switch_flag ?w = switch_flag s" "curr_terminal ?w = curr_terminal s" "curr_scheduled ?w = curr_scheduled s"
    "pageDirectory ?w = (pageDirectory s)(32 := user_page ?k)"
    using core tables by (simp_all add: update_pcb_def)
  show "process.more s' = process.more s" "pgTbl_vidMem s' = pgTbl_vidMem s"
    "pgTbl_vidMem_addr s' = pgTbl_vidMem_addr s" "switch_flag s' = switch_flag s"
    "curr_terminal s' = curr_terminal s" "curr_scheduled s' = curr_scheduled s"
    by (simp_all only: R W)
  show "\<exists>k. pageDirectory s' = (pageDirectory s)(32 := user_page k)" unfolding R W by blast
  show "user_pde s' = pageDirectory s' 32" by (rule R(8))
qed

text \<open>A loop over the files that ends has found a table for every open file.\<close>

lemma close_files_tables:
  "close_files p fds s = Some s' \<Longrightarrow> distinct fds \<Longrightarrow>
   list_all (\<lambda>fd. flags (fd_of s p fd) \<noteq> 0 \<longrightarrow> fops_table (fd_of s p fd) \<noteq> None) fds"
proof (induction p fds s rule: close_files.induct)
  case (2 p i fds s)
  let ?u = "if flags (fd_of s p i) \<noteq> 0 then snd (table_close (the (fops_table (fd_of s p i))) i s) else s"
  let ?s = "update_fd p i (\<lambda>f. f\<lparr>flags := 0\<rparr>) ?u"
  have i: "flags (fd_of s p i) \<noteq> 0 \<longrightarrow> fops_table (fd_of s p i) \<noteq> None"
  proof
    assume "flags (fd_of s p i) \<noteq> 0"
    then show "fops_table (fd_of s p i) \<noteq> None" using "2.prems"(1) by (auto split: option.splits)
  qed
  have "close_files p fds ?s = Some s'" using "2.prems"(1) i by (auto split: if_splits)
  then have rest: "list_all (\<lambda>fd. flags (fd_of ?s p fd) \<noteq> 0 \<longrightarrow> fops_table (fd_of ?s p fd) \<noteq> None) fds"
    using "2.IH" "2.prems"(2) i by (cases "flags (fd_of s p i) = 0") auto
  have "fd_of ?s p fd = fd_of s p fd" if "fd \<in> set fds" for fd
  proof -
    have "i \<noteq> fd" using "2.prems"(2) that by auto
    then show ?thesis by (simp add: close_step_other)
  qed
  with rest i show ?case by (simp add: list_all_iff)
qed simp

text \<open>The state in which \<open>halt\<close> looks for the parent.\<close>

lemma halt_closes:
  fixes s :: "'a paging_scheme"
  defines "t \<equiv> curr_scheduled s - 1" and "pcb \<equiv> getPCB (highest_terminal_processes s (curr_scheduled s - 1))"
  assumes "halt status s = c" and "c \<noteq> Crash"
  obtains s2 where "close_files pcb [0, 1, 2, 3, 4, 5, 6, 7] ((cli s)\<lparr>process_count := process_count s - 1,
      process_per_terminal := (process_per_terminal s)(t := process_per_terminal s t - 1)\<rparr>) = Some s2"
    and "tables_set s pcb"
proof -
  let ?s1 = "(cli s)\<lparr>process_count := process_count s - 1, process_per_terminal := (process_per_terminal s)
    (t := process_per_terminal s t - 1)\<rparr>"
  have "close_files pcb [0, 1, 2, 3, 4, 5, 6, 7] ?s1 \<noteq> None"
  proof
    assume "close_files pcb [0, 1, 2, 3, 4, 5, 6, 7] ?s1 = None"
    then have "halt status s = Crash" by (simp add: halt_def Let_def pcb_def t_def del: close_files.simps)
    with assms show False by simp
  qed
  then obtain s2 where s2: "close_files pcb [0, 1, 2, 3, 4, 5, 6, 7] ?s1 = Some s2" by blast
  have "tables_set s pcb"
    using close_files_tables [OF s2] by (simp add: tables_set_def fd_of_def)
  with s2 show thesis by (rule that)
qed

lemma kernel_ok_halt:
  fixes s :: "'a paging_scheme"
  assumes halt: "halt status s = Resumes r s'" and ok: "kernel_ok st s"
    and parent: "parent_task (pcbs s (getPCB (highest_terminal_processes s (curr_scheduled s - 1)))) \<noteq> 0"
  obtains st' where "kernel_ok st' s'"
proof -
  note B = kernel_baseD [OF kernel_ok_base [OF ok]] and H = halt_tables [OF halt parent]
  have t: "curr_scheduled s - 1 \<in> {0, 1, 2}" using B(6) by auto
  obtain p ps where p: "st (curr_scheduled s - 1) = p # ps"
    using B(3-5) t by (cases "st (curr_scheduled s - 1)") auto
  have high: "highest_terminal_processes s (curr_scheduled s - 1) = p"
    using proc_view_youngest [OF B(2) t] p by simp
  have stack: "stack_ok (pcbs s) (p # ps)" using proc_view_stack [OF B(2) t] p by simp
  with parent high obtain q qs where q: "ps = q # qs" by (cases ps) simp_all
  have files: "tables_set s (getPCB p)" by (rule halt_closes [OF halt]) (simp_all add: high)
  obtain u where u: "halt status s = Resumes status u" "proc_view u (pop (curr_scheduled s - 1) st)"
    "user_pde u = user_page (q - 1)"
    by (rule halt_pops [OF B(2,6) p [unfolded q] files])
  have s': "u = s'" using halt u(1) by simp
  let ?st = "pop (curr_scheduled s - 1) st"
  have q16: "1 \<le> q" "q \<le> 6" using stack q by simp_all
  have page: "pageDirectory s' 32 = user_page (q - 1)" using u(3) H(8) s' by simp
  note more = scheduler_more_tables [OF H(1)]
  have "tables_ok s'"
    using H(7) page process_page [OF q16] more by (intro tables_ok_step [OF B(1)]) (auto simp: H(2,3))
  moreover have "q \<in> set (all_procs ?st)" using t p q by (auto simp: pop_def all_procs_def)
  moreover have "page_holder s' q"
    using proc_view_youngest [OF u(2) t] p q s' H(6) by (simp add: page_holder_def pop_def)
  ultimately have "kernel_ok ?st s'"
    using u(2) s' B(3-9) H(4-6,8) more page p q by (intro kernel_okI [where p = q]) (simp_all add: pop_def)
  then show thesis by (rule that)
qed

text \<open>Ending the last shell of the displayed terminal, when it is scheduled: a new shell is started.\<close>

lemma halt_restarts:
  fixes s :: "'a paging_scheme"
  defines "t \<equiv> curr_scheduled s - 1" and "p \<equiv> highest_terminal_processes s (curr_scheduled s - 1)"
  assumes halt: "halt status s = Enters e s'" and same: "curr_terminal s = curr_scheduled s"
  obtains w w0 :: "'a paging_scheme" where "execute (str_shell w) w = Enters e s'" and "behind w0 w"
    and "parent_task (pcbs s (getPCB p)) = 0"
    and "\<forall>q. process_num (pcbs w0 q) = process_num (pcbs s q) \<and> parent_task (pcbs w0 q) = parent_task (pcbs s q)"
    and "highest_terminal_processes w0 = (highest_terminal_processes s)(t := 0)"
    and "pcb_slots w0 = (pcb_slots s)(p - 1 := 0)" and "process_count w0 = process_count s - 1"
    and "process.more w0 = process.more s" and "pageDirectory w0 = pageDirectory s"
    and "pgTbl_vidMem w0 = pgTbl_vidMem s" "pgTbl_vidMem_addr w0 = pgTbl_vidMem_addr s"
    and "switch_flag w0 = switch_flag s" "curr_terminal w0 = curr_terminal s" "curr_scheduled w0 = curr_scheduled s"
proof -
  let ?pcb = "getPCB p"
  have hi: "highest_terminal_processes s t = p" by (simp add: p_def t_def)
  let ?s1 = "(cli s)\<lparr>process_count := process_count s - 1, process_per_terminal := (process_per_terminal s)
    (t := process_per_terminal s t - 1)\<rparr>"
  obtain s2 where s2: "close_files ?pcb [0, 1, 2, 3, 4, 5, 6, 7] ?s1 = Some s2"
    unfolding t_def p_def by (rule halt_closes [OF halt]) simp_all
  note closed = close_files_same [OF s2]
  note core = same_but_files_core [OF closed] and tables = same_but_files_tables [OF closed]
  let ?u = "update_pcb ?pcb (\<lambda>b. b\<lparr>args := replicate MAX_ARGS 0\<rparr>) s2"
  let ?base = "?u\<lparr>pcb_slots := (pcb_slots ?u)(highest_terminal_processes ?u t - 1 := 0),
     highest_terminal_processes := (highest_terminal_processes ?u)(t := 0)\<rparr>"
  let ?w = "update_cursor 0 0 (set_cursors 0 0 (clear ?base))"
  have high: "highest_terminal_processes ?u t = p" "curr_terminal ?u - 1 = t"
    using core same by (simp_all add: t_def p_def update_pcb_def)
  have root: "parent_task (pcbs ?u ?pcb) = 0"
  proof (rule ccontr)
    assume "parent_task (pcbs ?u ?pcb) \<noteq> 0"
    then show False
      using halt s2 hi unfolding halt_def Let_def
      by (simp add: t_def [symmetric] resume_parent_def Let_def del: close_files.simps)
  qed
  then have "halt status s = (case execute (str_shell ?w) ?w of Returns r s \<Rightarrow> resume_parent ?pcb status s
      | c \<Rightarrow> c)"
    using s2 high hi unfolding halt_def Let_def
    by (simp add: t_def [symmetric] del: close_files.simps split: control.split)
  then have "execute (str_shell ?w) ?w = Enters e s'"
    using halt by (cases "execute (str_shell ?w) ?w") (simp_all add: resume_parent_def Let_def)
  moreover have "behind ?base ?w"
    by (rule behind_trans [OF behind_trans [OF behind_console_ops(7) behind_console_ops(6)] behind_console_ops(5)])
  ultimately show thesis
    by (rule that) (use core tables high root in \<open>simp_all add: update_pcb_def\<close>)
qed

lemma kernel_ok_restart:
  fixes s :: "'a paging_scheme"
  assumes halt: "halt status s = Enters e s'" and ok: "kernel_ok st s" and same: "curr_terminal s = curr_scheduled s"
  obtains st' where "kernel_ok st' s'"
proof -
  note B = kernel_baseD [OF kernel_ok_base [OF ok]]
  let ?t = "curr_scheduled s - 1" and ?p = "highest_terminal_processes s (curr_scheduled s - 1)"
  have t: "?t \<in> {0, 1, 2}" using B(6) by auto
  obtain w w0 :: "'a paging_scheme" where w: "execute (str_shell w) w = Enters e s'" "behind w0 w"
    and root: "parent_task (pcbs s (getPCB ?p)) = 0"
    and b: "\<forall>q. process_num (pcbs w0 q) = process_num (pcbs s q) \<and> parent_task (pcbs w0 q) = parent_task (pcbs s q)"
    and f: "highest_terminal_processes w0 = (highest_terminal_processes s)(?t := 0)"
      "pcb_slots w0 = (pcb_slots s)(?p - 1 := 0)" "process_count w0 = process_count s - 1"
      "process.more w0 = process.more s" "pageDirectory w0 = pageDirectory s"
      "pgTbl_vidMem w0 = pgTbl_vidMem s" "pgTbl_vidMem_addr w0 = pgTbl_vidMem_addr s"
      "switch_flag w0 = switch_flag s" "curr_terminal w0 = curr_terminal s" "curr_scheduled w0 = curr_scheduled s"
    by (rule halt_restarts [OF halt same])
  obtain p ps where p: "st ?t = p # ps" using B(3-5) t by (cases "st ?t") auto
  have high: "?p = p" using proc_view_youngest [OF B(2) t] p by simp
  have "stack_ok (pcbs s) (p # ps)" using proc_view_stack [OF B(2) t] p by simp
  then have "ps = []" using root high getPCB_nonzero by (cases ps) auto
  then have view0: "proc_view w0 (pop ?t st)"
    using f(1-3) high by (intro proc_view_pop [OF B(2) t p]) (simp_all add: b)
  have keep: "keyboard.more w = keyboard.more w0" "curr_terminal w = curr_terminal s"
    "curr_scheduled w = curr_scheduled s" "switch_flag w \<in> {0, 1, 2, 3}"
    using w(2) f(8-10) B(8) by (auto simp only: behind_def)
  note kw = kernel_of_more [OF keep(1)]
  have view: "proc_view w (pop ?t st) = proc_view w0 (pop ?t st)"
    using kw by (intro proc_view_cong) (simp_all add: kernel_view_def)
  have more: "total_terminal w0 = total_terminal s" "pageTable w0 = pageTable s" "pageTable_addr w0 = pageTable_addr s"
    using scheduler_more_tables [OF f(4)] by simp_all
  have tables: "tables_ok w"
    by (rule tables_ok_step [OF B(1)]) (use kw(1) f(5-7) more in \<open>simp_all add: kernel_view_def\<close>)
  have total: "total_terminal w > 3" using kw(1) more B(9) by (simp add: kernel_view_def)
  show thesis
  proof (rule kernel_ok_start [OF w(1) tables _ _ _ keep(4) total _ that])
    show "proc_view w (pop ?t st)" using view view0 by simp
    show "curr_scheduled w \<in> {1, 2, 3}" "curr_terminal w \<in> {1, 2, 3}" using keep B(6,7) by simp_all
    show "pop ?t st u \<noteq> []" if "u \<in> {0, 1, 2}" "u \<noteq> curr_terminal w - 1" for u
      using that keep(2) same B(3-5) by (auto simp: pop_def)
  qed
qed

section \<open>The transition system\<close>

text \<open>Which addresses a program reaches in user mode.\<close>

definition user_reaches :: "'a paging_scheme \<Rightarrow> u32 \<Rightarrow> bool" where
  "user_reaches s a = (case translate s a of None \<Rightarrow> False | Some (_, user) \<Rightarrow> user)"

text \<open>
  A buffer of a program: the kernel tests the pointers of \<open>read\<close> and \<open>getargs\<close> at most against NULL,
  and would write through a pointer into its own memory. Process blocks, page tables and line
  buffers are fields of the state and not bytes of \<open>mem\<close>, so the steps below are those of programs
  that pass buffers of their own page.
\<close>

definition user_buffer :: "u32 \<Rightarrow> int \<Rightarrow> bool" where
  "user_buffer buf n \<longleftrightarrow> 0 \<le> n \<and> in_region buf PROG_PAGE 0x400000 \<and> uint (buf - PROG_PAGE) + n \<le> 0x400000"

text \<open>
  One step of the machine once the three shells run: an interrupt, a system call, or the running
  program, which writes what it reaches and sets its registers. A call that waits serves
  interrupts of the keyboard and the clock. What is written is at most half of the 8 KB kernel
  stack, on which \<open>print_withoutnull\<close> copies it.

  Three steps are left out, because the code breaks its own process table there: an \<open>execute\<close> that
  fails after it has taken a slot, which is never given back (\<open>read_data_fails\<close>: only a file whose
  length is given as 2^32 - 1 does that); the end of the last shell of a terminal that is not
  displayed, after which \<open>halt\<close> starts the new shell on the displayed terminal; and the end of a last
  shell when \<open>shell\<close> cannot be started again.
\<close>

lemma read_data_loop_count:
  "count \<le> flen \<Longrightarrow> fst (read_data_loop flen len db ib at_db buf count m) \<le> flen"
proof (induction flen len db ib at_db buf count m rule: read_data_loop.induct)
  case (1 flen len db ib at_db buf count m)
  show ?case
  proof (cases "count < flen \<and> count < len")
    case True
    then have "count + 1 \<le> flen"
      using unat_inc_less [of count flen] by (simp add: word_le_nat_alt word_less_nat_alt)
    with 1(1,2) [OF True refl refl] show ?thesis
      using True by (subst read_data_loop.simps) (simp add: Let_def fun_upd_def)
  next
    case False
    then show ?thesis using 1(3) by (subst read_data_loop.simps) auto
  qed
qed

lemma read_data_fails:
  assumes "fst (read_data fs ino offset buf len m) = - 1"
  shows "load32 m (fs + 0x1000 + ino * 0x1000) = - 1"
proof -
  let ?l = "load32 m (fs + 0x1000 + ino * 0x1000)"
  have "fst (read_data fs ino offset buf len m) \<le> ?l"
    by (simp add: read_data_def Let_def read_data_loop_count)
  then show ?thesis unfolding assms by (simp add: word_order.extremum_unique)
qed


inductive kernel_step :: "'a paging_scheme \<Rightarrow> 'a paging_scheme \<Rightarrow> bool" where
  Keyboard: "kernel_step s (keyboard_handler s)"
| Clock: "kernel_step s (rtc_handler s)"
| Timer: "pit_handler s = Returns r s' \<Longrightarrow> kernel_step s s'"
| Execute: "execute command s = Enters e s' \<Longrightarrow> kernel_step s s'"
| Refused: "execute command s = Returns r s' \<Longrightarrow> pcb_slots s' = pcb_slots s \<Longrightarrow> kernel_step s s'"
| Halt: "parent_task (pcbs s (getPCB (highest_terminal_processes s (curr_scheduled s - 1)))) \<noteq> 0 \<Longrightarrow>
    halt status s = Resumes r s' \<Longrightarrow> kernel_step s s'"
| Restart: "curr_terminal s = curr_scheduled s \<Longrightarrow> halt status s = Enters e s' \<Longrightarrow> kernel_step s s'"
| Read: "sys_read fd buf nbytes ints s = Done (r, s', rest) \<Longrightarrow>
    user_buffer buf nbytes \<Longrightarrow> set ints \<subseteq> {keyboard_handler, rtc_handler} \<Longrightarrow> kernel_step s s'"
| Write: "sys_write fd buf nbytes s = Done (r, s') \<Longrightarrow> user_buffer buf nbytes \<Longrightarrow> nbytes \<le> 4096 \<Longrightarrow>
    kernel_step s s'"
| Open: "sys_open filename s = Done (r, s') \<Longrightarrow> kernel_step s s'"
| Close: "kernel_step s (snd (sys_close fd s))"
| Getargs: "getargs buf nbytes s = Done (r, s') \<Longrightarrow> user_buffer buf nbytes \<Longrightarrow> kernel_step s s'"
| Vidmap: "kernel_step s (snd (vidmap screen_start s))"
| User: "(\<And>a. m a \<noteq> mem s a \<Longrightarrow> user_reaches s a) \<Longrightarrow>
    kernel_step s (s\<lparr>mem := m, reg_esp := sp, reg_ebp := bp\<rparr>)"

lemma kernel_step_ok:
  "kernel_step s s' \<Longrightarrow> kernel_ok st s \<Longrightarrow> \<exists>st'. kernel_ok st' s'"
proof (induction arbitrary: st rule: kernel_step.induct)
  case (Read fd buf nbytes ints s r s' rest)
  have "kernel_ok st (i u)" if "i \<in> set ints" "kernel_ok st u" for i u
    using that Read(3) kernel_ok_behind [OF behind_keyboard_handler] kernel_ok_behind [OF behind_rtc_handler] by blast
  with kernel_ok_read [OF Read(1,4)] show ?case by blast
next
  case (User m s bp sp)
  have "kernel_ok st (u\<lparr>reg_esp := sp, reg_ebp := bp\<rparr>)" if "kernel_ok st u" for u
    by (intro kernel_ok_cong [OF that]) (simp_all add: kernel_view_def)
  moreover have "kernel_ok st (s\<lparr>mem := m\<rparr>)" by (rule kernel_ok_intros) (rule User(2))
  ultimately have "kernel_ok st ((s\<lparr>mem := m\<rparr>)\<lparr>reg_esp := sp, reg_ebp := bp\<rparr>)" by blast
  then show ?case by auto
next
  case (Keyboard s)
  from kernel_ok_behind [OF behind_keyboard_handler this] show ?case by blast
next
  case (Clock s)
  from kernel_ok_behind [OF behind_rtc_handler this] show ?case by blast
next
  case (Timer s r s')
  from kernel_ok_timer [OF this] show ?case by blast
next
  case (Execute command s e s')
  from kernel_ok_execute [OF this] show ?case by blast
next
  case (Refused command s r s')
  from kernel_ok_refused [OF this] show ?case by blast
next
  case (Halt s status r s')
  show ?case by (rule kernel_ok_halt [OF Halt(2,3,1)]) blast
next
  case (Restart s status e s')
  show ?case by (rule kernel_ok_restart [OF Restart(2,3,1)]) blast
next
  case (Write fd buf nbytes s r s')
  from kernel_ok_write [OF Write(1,4)] show ?case by blast
next
  case (Open filename s r s')
  from kernel_ok_open [OF this] show ?case by blast
next
  case (Close s fd)
  from kernel_ok_close [OF this] show ?case by blast
next
  case (Getargs buf nbytes s r s')
  from kernel_ok_getargs [OF Getargs(1,3)] show ?case by blast
next
  case (Vidmap s screen_start)
  from kernel_ok_vidmap [OF this] show ?case by blast
qed

lemma kernel_steps_ok:
  "kernel_step\<^sup>*\<^sup>* s s' \<Longrightarrow> kernel_ok st s \<Longrightarrow> \<exists>st'. kernel_ok st' s'"
proof (induction arbitrary: st rule: converse_rtranclp_induct)
  case (step y z)
  then show ?case using kernel_step_ok by blast
qed blast

section \<open>Frames\<close>

definition frame_of :: "int \<Rightarrow> u32" where
  "frame_of p = MB8 + of_int (p - 1) * MB4"

lemma frame_values:
  "frame_of 1 = 0x800000" "frame_of 2 = 0xC00000" "frame_of 3 = 0x1000000" "frame_of 4 = 0x1400000"
  "frame_of 5 = 0x1800000" "frame_of 6 = 0x1C00000"
  by (simp_all add: frame_of_def)

lemma frames_disjoint:
  assumes "1 \<le> p" "p \<le> 6" "1 \<le> q" "q \<le> 6" "p \<noteq> q"
  shows "disjoint_regions (frame_of p) 0x400000 (frame_of q) 0x400000"
proof -
  have p: "p \<in> {1, 2, 3, 4, 5, 6}" and q: "q \<in> {1, 2, 3, 4, 5, 6}" using assms by auto
  show ?thesis
    using p q assms(5) by (elim insertE emptyE) (simp_all add: frame_values disjoint_regions_def)
qed

lemma kernel_disjoint:
  assumes "1 \<le> p" "p \<le> 6"
  shows "disjoint_regions (frame_of p) 0x400000 0x400000 0x400000"
proof -
  have "p \<in> {1, 2, 3, 4, 5, 6}" using assms by auto
  then show ?thesis by (elim insertE emptyE) (simp_all add: frame_values disjoint_regions_def)
qed

lemma video_frames:
  assumes "in_region a base 0x1000" and "base \<in> {VIDEO, VIDEO1, VIDEO2, VIDEO3}"
  shows "in_region a VIDEO 0x4000"
  using assms(2,1) by (elim insertE emptyE) (simp_all add: in_region_interval)

lemma user_translation:
  assumes ok: "kernel_ok st s" and tr: "translate s a = Some (phys, True)"
    and p: "p \<in> set (all_procs st)" "pageDirectory s 32 = user_page (p - 1)"
  shows "in_region a PROG_PAGE 0x400000 \<and> in_region phys (frame_of p) 0x400000
      \<or> in_region a USER_VID_ADDR 0x1000 \<and> in_region phys VIDEO 0x4000"
proof -
  note B = kernel_baseD [OF kernel_ok_base [OF ok]]
  have p16: "1 \<le> p" "p \<le> 6" using proc_view_range [OF B(2) p(1)] by simp_all
  from translate_user [OF B(1) tr] show ?thesis
  proof (elim disjE bexE conjE)
    fix k :: int
    assume k: "k \<in> {0, 1, 2, 3, 4, 5}" "pageDirectory s 32 = user_page k"
      and r: "in_region a PROG_PAGE 0x400000" "in_region phys (MB8 + of_int k * MB4) 0x400000"
    have "user_page (k + 1 - 1) = user_page (p - 1)" using k(2) p(2) by simp
    moreover have "1 \<le> k + 1" "k + 1 \<le> 6" using k(1) by auto
    ultimately have "k + 1 = p" using user_page_inject p16 by blast
    then have "frame_of p = MB8 + of_int k * MB4" by (auto simp: frame_of_def)
    with r show ?thesis by simp
  next
    assume r: "in_region a USER_VID_ADDR 0x1000"
      "in_region phys (pgTbl_vidMem s 0 AND 0xFFFFF000) 0x1000" "bit (pgTbl_vidMem s 0) 0"
    have "pgTbl_vidMem s 0 \<in> {0xB8007, 0xB9007, 0xBA007, 0xBB007}"
      using tables_okD(9) [OF B(1)] r(3) by blast
    then have "pgTbl_vidMem s 0 AND 0xFFFFF000 \<in> {VIDEO, VIDEO1, VIDEO2, VIDEO3}"
      by (elim insertE emptyE) simp_all
    then show ?thesis using video_frames [OF r(2)] r(1) by blast
  qed
qed

text \<open>The frame of a process and the text pages are apart from the kernel and the other frames.\<close>

lemma reached_apart:
  assumes "in_region phys (frame_of p) 0x400000 \<or> in_region phys VIDEO 0x4000" and p: "1 \<le> p" "p \<le> 6"
  shows "\<not> in_region phys 0x400000 0x400000"
    and "1 \<le> q \<Longrightarrow> q \<le> 6 \<Longrightarrow> q \<noteq> p \<Longrightarrow> \<not> in_region phys (frame_of q) 0x400000"
proof -
  have apart: "\<not> in_region phys base 0x400000"
    if "disjoint_regions (frame_of p) 0x400000 base 0x400000" "disjoint_regions VIDEO 0x4000 base 0x400000" for base
    using assms(1) disjoint_regions_not_in [OF that(1)] disjoint_regions_not_in [OF that(2)] by blast
  show "\<not> in_region phys 0x400000 0x400000"
    by (rule apart [OF kernel_disjoint [OF p]]) (simp add: disjoint_regions_def)
  assume q: "1 \<le> q" "q \<le> 6" "q \<noteq> p"
  have "disjoint_regions VIDEO 0x4000 (frame_of q) 0x400000"
  proof -
    have "q \<in> {1, 2, 3, 4, 5, 6}" using q by auto
    then show ?thesis by (elim insertE emptyE) (simp_all add: frame_values disjoint_regions_def)
  qed
  then show "\<not> in_region phys (frame_of q) 0x400000"
    using q p by (intro apart frames_disjoint) auto
qed

section \<open>Properties\<close>

text \<open>A machine on which the three shells run.\<close>

definition sample_kernel :: paging where
  "sample_kernel = scheduler.extend (sample_scheduler\<lparr>pageDirectory := (\<lambda>_. 0)(0 := 0x4017, 1 := 0x400083,
     32 := user_page 0), user_pde := user_page 0\<rparr>) (paging.fields screen_entries 0x4000 0x6000 0x80000011 0x6000 0x10)"

lemma sample_kernel_simps:
  "pageDirectory sample_kernel = (\<lambda>_. 0)(0 := 0x4017, 1 := 0x400083, 32 := user_page 0)"
  "pageTable sample_kernel = screen_entries" "pageTable_addr sample_kernel = 0x4000"
  "pgTbl_vidMem_addr sample_kernel = 0x5000" "pgTbl_vidMem sample_kernel = (\<lambda>_. 0)"
  "curr_scheduled sample_kernel = 1" "curr_terminal sample_kernel = 1" "switch_flag sample_kernel = 0"
  "total_terminal sample_kernel = 4" "user_pde sample_kernel = user_page 0"
  "pcbs sample_kernel = pcbs sample_scheduler" "pcb_slots sample_kernel = pcb_slots sample_scheduler"
  "highest_terminal_processes sample_kernel = highest_terminal_processes sample_scheduler"
  "process_count sample_kernel = process_count sample_scheduler"
  by (simp_all add: sample_kernel_def sample_scheduler_def scheduler.defs paging.defs process.defs sample_process_def)

lemma sample_kernel_ok: "kernel_ok sample_stacks sample_kernel"
proof -
  have "proc_view sample_kernel sample_stacks = proc_view sample_scheduler sample_stacks"
    by (rule proc_view_cong) (simp_all add: sample_kernel_simps)
  then have view: "proc_view sample_kernel sample_stacks" using sample_scheduler_view by simp
  have "tables_ok sample_kernel"
    unfolding tables_ok_def by (auto simp: sample_kernel_simps tables_linked_def)
  moreover have "page_holder sample_kernel 1"
    using proc_view_youngest [OF view, of 0]
    by (simp add: page_holder_def sample_stacks_def sample_kernel_simps(6) del: sample_kernel_simps(12))
  ultimately show ?thesis
    by (intro kernel_okI [OF _ view, where p = 1])
      (simp_all add: sample_kernel_simps sample_stacks_def all_procs_def)
qed




lemma sample_kernel_translate: "translate sample_kernel 0x8048000 = Some (0x848000, True)"
  by (simp add: translate_def Let_def sample_kernel_simps user_page_def)


end
