(* ===== verification/Boot_Laws.thy ===== *)
theory Boot_Laws
  imports Boot Descriptors_Laws Printf_Spec Kernel_Steps
begin

text \<open>
  What the boot establishes: \<open>entry\<close> gets through the information of the boot loader, remembers the
  file system, and leaves a machine with its descriptors, gates, page tables and devices set up.
\<close>

section \<open>The devices\<close>

text \<open>Each step as an update of the fields that it sets.\<close>

definition idt_of :: "'a descriptors_scheme \<Rightarrow> int \<Rightarrow> idt_desc" where
  "idt_of s = idt (idt_init s)"

definition idt_only :: "'a descriptors_scheme \<Rightarrow> 'a descriptors_scheme \<Rightarrow> bool" where
  "idt_only s s' \<longleftrightarrow> s' = s\<lparr>idt := idt s'\<rparr>"

lemma idt_only_add: "idt_only s v \<Longrightarrow> idt_only s (add_vector i h l t v)"
  unfolding idt_only_def add_vector_def by (cases s; cases v; simp)

lemma idt_init_update: "idt_init s = s\<lparr>idt := idt_of s\<rparr>"
proof -
  have "idt_only s s" by (simp add: idt_only_def)
  then have "idt_only s (idt_init s)" unfolding idt_init_def Let_def by (intro idt_only_add)
  then show ?thesis by (simp only: idt_of_def idt_only_def)
qed

lemma paging_init_update:
  "paging_init s = s\<lparr>pageTable := pageTable (paging_init s), pageDirectory := pageDirectory (paging_init s),
     cr0 := cr0 (paging_init s), cr3 := cr3 (paging_init s), cr4 := cr4 (paging_init s)\<rparr>"
  by (simp add: paging_init_def clear_tables_eq Let_def)

lemma enable_irq_update:
  "enable_irq irq s = s\<lparr>master_mask := master_mask (enable_irq irq s), slave_mask := slave_mask (enable_irq irq s),
     ports := ports (enable_irq irq s)\<rparr>"
  by (simp add: enable_irq_def outb_def Let_def)

lemma enable_irq_masks_of:
  "master_mask (enable_irq irq s) = (if irq < 8 then 0x21 AND ucast (NOT (push_bit (unat irq) (1 :: u32))) else master_mask s)"
  "slave_mask (enable_irq irq s) = (if irq < 8 then slave_mask s else 0xA1 AND ucast (NOT (push_bit (unat (irq - 8)) (1 :: u32))))"
  by (simp_all add: enable_irq_def outb_def Let_def)

text \<open>The drivers touch memory, ports, the interrupt flag, the masks and the state of the clock.\<close>

definition io_only :: "'a rtc_scheme \<Rightarrow> 'a rtc_scheme \<Rightarrow> bool" where
  "io_only s s' \<longleftrightarrow> s' = s\<lparr>mem := mem s', ports := ports s', intr := intr s', master_mask := master_mask s',
     slave_mask := slave_mask s', rtc_active := rtc_active s'\<rparr>"

lemma io_only_refl: "io_only s s"
  by (simp add: io_only_def)

lemma io_only_trans: "io_only s s' \<Longrightarrow> io_only s' s'' \<Longrightarrow> io_only s s''"
  unfolding io_only_def by (cases s; cases s'; cases s''; simp)

lemma io_only_ops:
  "io_only s (i8259_init s)" "io_only s (enable_irq irq s)" "io_only s (sti s)" "io_only s (cli s)"
  "io_only s (clear s)" "io_only s (clear1 s)" "io_only s (clear2 s)" "io_only s (clear3 s)"
  "io_only s (outb d p s)" "io_only s (snd (inb p s))" "io_only s (snd (rtc_open x s))" "io_only s (pit_init s)"
  by (simp_all add: io_only_def i8259_init_def enable_irq_def sti_def cli_def clear_def clear1_def clear2_def
      clear3_def outb_def inb_def rtc_open_def pit_init_def Let_def)

lemma outb_fields [simp]:
  "mem (outb d p s) = mem s" "intr (outb d p s) = intr s" "mem (snd (inb p s)) = mem s" "intr (snd (inb p s)) = intr s"
  by (simp_all add: outb_def inb_def)

lemma outb_masks [simp]:
  "master_mask (outb d p s) = master_mask s" "slave_mask (outb d p s) = slave_mask s"
  "master_mask (snd (inb p s)) = master_mask s" "slave_mask (snd (inb p s)) = slave_mask s"
  by (simp_all add: outb_def inb_def)

lemma outb_rtc [simp]: "rtc_active (outb d p s) = rtc_active s" "rtc_active (snd (inb p s)) = rtc_active s"
  by (simp_all add: outb_def inb_def)

text \<open>All of \<open>init_devices\<close> as one update.\<close>

definition blank_screens :: "mem \<Rightarrow> mem" where
  "blank_screens m = clear_page VIDEO3 (clear_page VIDEO2 (clear_page VIDEO1 (clear_page VIDEO m)))"

lemma rtc_open_first:
  "rtc_active s = 0 \<Longrightarrow> mem (snd (rtc_open x s)) = mem s" "rtc_active s = 0 \<Longrightarrow> rtc_active (snd (rtc_open x s)) = 1"
  "master_mask (snd (rtc_open x s)) = master_mask s" "slave_mask (snd (rtc_open x s)) = slave_mask s"
  by (simp_all add: rtc_open_def Let_def inb_def outb_def cli_def sti_def)

definition after_tables :: "'a rtc_scheme \<Rightarrow> 'a rtc_scheme" where
  "after_tables s =
     (let s = i8259_init s;
          s = enable_irq 1 s;
          s = sti s;
          s = clear s;
          s = clear1 s;
          s = clear2 s;
          s = clear3 s;
          s = cli s;
          s = outb 0x8B 0x70 s;
          (prev, s) = inb 0x71 s;
          s = outb 0x8B 0x70 s
      in outb (prev OR 0x40) 0x71 s)"

lemma after_tables_fields:
  "io_only s (after_tables s)" "mem (after_tables s) = blank_screens (mem s)" "master_mask (after_tables s) = 0x21"
  "rtc_active (after_tables s) = rtc_active s"
proof -
  show "io_only s (after_tables s)"
    unfolding after_tables_def Let_def prod.case_eq_if
    by (intro io_only_trans [OF _ io_only_ops(9)] io_only_trans [OF _ io_only_ops(10)] io_only_trans [OF _ io_only_ops(8)]
        io_only_trans [OF _ io_only_ops(7)] io_only_trans [OF _ io_only_ops(6)] io_only_trans [OF _ io_only_ops(5)]
        io_only_trans [OF _ io_only_ops(4)] io_only_trans [OF _ io_only_ops(3)] io_only_trans [OF _ io_only_ops(2)]
        io_only_ops(1))
  show "mem (after_tables s) = blank_screens (mem s)" "master_mask (after_tables s) = 0x21"
    "rtc_active (after_tables s) = rtc_active s"
    by (simp_all add: after_tables_def Let_def prod.case_eq_if blank_screens_def clear_def clear1_def clear2_def
        clear3_def cli_def sti_def enable_irq_masks_of i8259_init_def) (simp_all add: enable_irq_def outb_def Let_def)
qed

lemma init_devices_update:
  fixes s :: "'a descriptors_scheme"
  assumes "rtc_active s = 0"
  obtains ps where "init_devices s = (paging_init (idt_init s))\<lparr>mem := blank_screens (mem s), ports := ps, intr := True,
     master_mask := 0x20, slave_mask := 0xA0, rtc_active := 1\<rparr>"
proof -
  define u where "u = after_tables (paging_init (idt_init s))"
  define v where "v = snd (rtc_open 0 u)"
  have eq: "init_devices s = sti (pit_init (enable_irq 8 v))"
    by (simp add: init_devices_def after_tables_def u_def v_def Let_def prod.case_eq_if)
  have p: "mem (paging_init (idt_init s)) = mem s" "rtc_active (paging_init (idt_init s)) = 0"
    using assms by (subst paging_init_update, subst idt_init_update, simp)+
  note U = after_tables_fields [of "paging_init (idt_init s)", folded u_def]
  have ur: "rtc_active u = 0" using U(4) p(2) by simp
  have "io_only (paging_init (idt_init s)) (init_devices s)"
    unfolding eq v_def
    by (intro io_only_trans [OF _ io_only_ops(3)] io_only_trans [OF _ io_only_ops(12)] io_only_trans [OF _ io_only_ops(2)]
        io_only_trans [OF U(1)] io_only_ops(11))
  moreover have "mem (init_devices s) = blank_screens (mem s)"
    using rtc_open_first(1) [OF ur] U(2) p(1) by (simp add: eq v_def pit_init_def sti_def Let_def enable_irq_def)
  moreover have "intr (init_devices s)" by (simp add: eq sti_def)
  moreover have "master_mask (init_devices s) = 0x20" "slave_mask (init_devices s) = 0xA0"
    by (simp_all add: eq sti_def pit_init_def Let_def enable_irq_masks_of)
  moreover have "rtc_active (init_devices s) = 1"
    using rtc_open_first(2) [OF ur] by (simp add: eq sti_def pit_init_def v_def Let_def enable_irq_def)
  ultimately show thesis by (intro that [of "ports (init_devices s)"]) (simp add: io_only_def)
qed

lemma blank_screens_chars:
  assumes "base \<in> {VIDEO, VIDEO1, VIDEO2, VIDEO3}"
  shows "screen_chars (blank_screens m) base = replicate 2000 32"
proof -
  have other: "screen_chars (clear_page b m') base' = screen_chars m' base'"
    if "disjoint_regions base' 4000 b 4000" for b base' m'
    using disjoint_regions_not_in [OF that] by (intro screen_chars_cong clear_page_outside) blast
  have d: "disjoint_regions VIDEO 4000 VIDEO1 4000" "disjoint_regions VIDEO 4000 VIDEO2 4000"
    "disjoint_regions VIDEO 4000 VIDEO3 4000" "disjoint_regions VIDEO1 4000 VIDEO2 4000"
    "disjoint_regions VIDEO1 4000 VIDEO3 4000" "disjoint_regions VIDEO2 4000 VIDEO3 4000"
    by (simp_all add: disjoint_regions_def)
  from assms consider "base = VIDEO" | "base = VIDEO1" | "base = VIDEO2" | "base = VIDEO3" by blast
  then show ?thesis
    unfolding blank_screens_def
    by cases (simp_all only: other [OF d(1)] other [OF d(2)] other [OF d(3)] other [OF d(4)] other [OF d(5)]
        other [OF d(6)] screen_clear_page)
qed

lemma translate_cong:
  assumes "pageDirectory s' = pageDirectory s" "pageTable s' = pageTable s" "pgTbl_vidMem s' = pgTbl_vidMem s"
    "pageTable_addr s' = pageTable_addr s" "pgTbl_vidMem_addr s' = pgTbl_vidMem_addr s"
  shows "translate s' a = translate s a" "tables_ok s' = tables_ok s"
  using assms by (simp_all add: translate_def table_at_def tables_ok_def tables_linked_def Let_def)

section \<open>Properties\<close>

text \<open>A machine as the boot loader leaves it: the tables are where the linker put them and zero.\<close>

definition loaded :: "'a descriptors_scheme \<Rightarrow> bool" where
  "loaded s \<longleftrightarrow> tables_linked s \<and> tables_blank s \<and> pageDirectory_addr s AND 0xFFF = 0
     \<and> (\<forall>n. gate_present (idt s n) = 0) \<and> ldt_size s < 0x100000 \<and> tss_size s < 0x100000 \<and> rtc_active s = 0"

text \<open>C13. The initialisation establishes what the rest of the kernel relies on: the descriptors of the
  LDT and the TSS have the base and the limit of these tables, the kernel stack for interrupts
  from user mode ends at 8 MB, every gate leads to its handler, exactly the text pages and the
  kernel's 4 MB are mapped, the four screens are blank, and interrupts are enabled with the timer,
  the keyboard and the clock not masked. The process table is left alone.\<close>

theorem boot_establishes:
  fixes s :: "'a descriptors_scheme" and d1 d2 :: seg_desc
  defines "r \<equiv> init_devices (init_tss d2 (init_ldt d1 s))"
  assumes "loaded s"
  shows "seg_base (seg_val (ldt_desc_ptr r)) = ldt s \<and> seg_limit (seg_val (ldt_desc_ptr r)) = ldt_size s
    \<and> seg_base (seg_val (tss_desc_ptr r)) = tss s \<and> seg_limit (seg_val (tss_desc_ptr r)) = tss_size s
    \<and> tss_esp0 r = 0x800000 \<and> tss_ss0 r = KERNEL_DS
    \<and> (\<forall>n. gate_target (gate_val (idt r n)) = (case handler_of n of None \<Rightarrow> None
        | Some h \<Rightarrow> Some (0x10, address_of s h, if n \<in> {3, 4, 5, 0x80} then 3 else 0, n \<notin> {3, 4, 5, 32, 33, 40})))
    \<and> (\<forall>a. translate r a =
        (if in_region a VIDEO 0x4000 \<or> in_region a 0x400000 0x400000 then Some (a, False) else None))
    \<and> tables_ok r \<and> bit (cr0 r) 31
    \<and> list_all (\<lambda>base. screen_chars (mem r) base = replicate 2000 32) [VIDEO, VIDEO1, VIDEO2, VIDEO3]
    \<and> intr r \<and> (\<forall>n < 8. bit (master_mask r) n = (n = 5) \<and> bit (slave_mask r) n = (n = 5 \<or> n = 7))
    \<and> (\<forall>st. proc_view r st = proc_view s st)"
proof -
  define w where "w = init_tss d2 (init_ldt d1 s)"
  have W: "tables_linked w = tables_linked s" "tables_blank w = tables_blank s" "rtc_active w = rtc_active s"
    "pageDirectory_addr w = pageDirectory_addr s" "idt w = idt s" "address_of w = address_of s"
    "pcb_slots w = pcb_slots s" "process_count w = process_count s"
    "highest_terminal_processes w = highest_terminal_processes s" "pcbs w = pcbs s"
    "tss_esp0 w = 0x800000" "tss_ss0 w = KERNEL_DS"
    "\<exists>d. ldt_desc_ptr w = set_ldt_params d (ldt s) (ldt_size s)"
    "\<exists>d. tss_desc_ptr w = set_tss_params d (tss s) (tss_size s)"
    by (auto simp: w_def init_tss_def init_ldt_def Let_def tables_linked_def tables_blank_def)
  define x where "x = idt_init w"
  have x: "x = w\<lparr>idt := idt_of w\<rparr>" unfolding x_def by (rule idt_init_update)
  have X: "tables_linked x = tables_linked w" "tables_blank x = tables_blank w"
    "pageDirectory_addr x = pageDirectory_addr w"
    by (simp_all add: x tables_linked_def tables_blank_def)
  define y where "y = paging_init x"
  have y: "y = x\<lparr>pageTable := pageTable y, pageDirectory := pageDirectory y, cr0 := cr0 y, cr3 := cr3 y, cr4 := cr4 y\<rparr>"
    unfolding y_def by (rule paging_init_update)
  have Y: "pcb_slots y = pcb_slots w" "process_count y = process_count w" "pcbs y = pcbs w" "idt y = idt x"
    "highest_terminal_processes y = highest_terminal_processes w" "tss_esp0 y = tss_esp0 w" "tss_ss0 y = tss_ss0 w"
    "ldt_desc_ptr y = ldt_desc_ptr w" "tss_desc_ptr y = tss_desc_ptr w"
    by (subst y, simp add: x)+
  have L: "loaded s" by (rule assms(2))
  then have linked: "tables_linked x" "tables_blank x" "pageDirectory_addr x AND 0xFFF = 0"
    by (simp_all add: X W loaded_def)
  have "rtc_active w = 0" using L by (simp add: W loaded_def)
  then obtain ps where r: "r = y\<lparr>mem := blank_screens (mem w), ports := ps, intr := True,
     master_mask := 0x20, slave_mask := 0xA0, rtc_active := 1\<rparr>"
    unfolding r_def w_def [symmetric] y_def x_def by (rule init_devices_update)
  have same: "translate r a = translate y a" "tables_ok r = tables_ok y" for a
    by (rule translate_cong; simp add: r)+
  obtain d e where d: "ldt_desc_ptr w = set_ldt_params d (ldt s) (ldt_size s)"
    "tss_desc_ptr w = set_tss_params e (tss s) (tss_size s)" using W(13,14) by blast
  have lim: "ldt_size s < 0x100000" "tss_size s < 0x100000" and gates: "\<And>n. gate_present (idt w n) = 0"
    using L by (simp_all add: W loaded_def)
  have maps: "translate y a = (if in_region a VIDEO 0x4000 \<or> in_region a 0x400000 0x400000 then Some (a, False) else None)"
    "tables_ok y" "bit (cr0 y) 31" for a
    using paging_init_maps_all [OF linked] by (simp_all add: y_def)
  have gate: "gate_target (gate_val (idt x n)) = (case handler_of n of None \<Rightarrow> None
        | Some h \<Rightarrow> Some (0x10, address_of w h, if n \<in> {3, 4, 5, 0x80} then 3 else 0, n \<notin> {3, 4, 5, 32, 33, 40}))" for n
    unfolding x_def by (rule idt_gates [OF gates])
  have ri: "idt r = idt x" by (simp add: r Y)
  have "\<forall>st. proc_view r st = proc_view s st"
    by (intro allI proc_view_cong) (simp_all add: r Y W)
  moreover have "\<forall>n < 8. bit (master_mask r) n = (n = 5) \<and> bit (slave_mask r) n = (n = 5 \<or> n = 7)"
    by (auto simp: r less_Suc_eq eval_nat_numeral)
  moreover have "list_all (\<lambda>base. screen_chars (mem r) base = replicate 2000 32) [VIDEO, VIDEO1, VIDEO2, VIDEO3]"
    using blank_screens_chars by (simp add: r)
  moreover have "\<forall>n. gate_target (gate_val (idt r n)) = (case handler_of n of None \<Rightarrow> None
        | Some h \<Rightarrow> Some (0x10, address_of s h, if n \<in> {3, 4, 5, 0x80} then 3 else 0, n \<notin> {3, 4, 5, 32, 33, 40}))"
    unfolding ri gate W(6) by (rule allI) (rule refl)
  moreover have "\<forall>a. translate r a =
        (if in_region a VIDEO 0x4000 \<or> in_region a 0x400000 0x400000 then Some (a, False) else None)"
    unfolding same(1) maps(1) by (rule allI) (rule refl)
  moreover have "tables_ok r" using maps(2) by (simp only: same)
  moreover have "bit (cr0 r) 31" "intr r" using maps(3) by (simp_all add: r)
  moreover have "seg_base (seg_val (ldt_desc_ptr r)) = ldt s" "seg_limit (seg_val (ldt_desc_ptr r)) = ldt_size s"
    "seg_base (seg_val (tss_desc_ptr r)) = tss s" "seg_limit (seg_val (tss_desc_ptr r)) = tss_size s"
    using d lim by (simp_all add: r Y set_params_base set_params_limit)
  moreover have "tss_esp0 r = 0x800000" "tss_ss0 r = KERNEL_DS" by (simp_all add: r Y W)
  ultimately show ?thesis by blast
qed

theorem boot_establishes_witness:
  "translate (init_devices (init_tss blank_seg (init_ldt blank_seg sample_loaded))) 0xB8000 = Some (0xB8000, False)
    \<and> seg_base (seg_val (tss_desc_ptr (init_devices (init_tss blank_seg (init_ldt blank_seg sample_loaded))))) = 0x403000"
proof -
  have "loaded sample_loaded"
    by (simp add: loaded_def sample_loaded_def blank_gate_def sample_unpaged_def sample_boot_def tables_linked_def
        tables_blank_def descriptors.defs paging.defs scheduler.defs process.defs sample_process_def)
  note boot = boot_establishes [OF this, of blank_seg blank_seg]
  have "tss sample_loaded = 0x403000" by (simp add: sample_loaded_def descriptors.defs paging.defs)
  moreover have "in_region 0xB8000 VIDEO 0x4000" by (simp add: in_region_def)
  ultimately show ?thesis using boot by simp
qed

end
