(* ===== verification/Boot_Entry.thy ===== *)
theory Boot_Entry
  imports Boot_Laws
begin

text \<open>
  \<open>entry\<close> as a whole: it gets through the information of the boot loader, for every list of modules and
  every memory map that ends, remembers where the last module lies, and reaches its idle loop.
\<close>

section \<open>Calls of printf\<close>

text \<open>What the calls need: a device that is ready, with the arguments and the string literals out of
  the way of the screen, of the local buffer, and of each other.\<close>

definition boot_literals :: "string list" where
  "boot_literals =
     [''Invalid magic number: 0x%#x'' @ [CHR 0x0A], ''flags = 0x%#x'' @ [CHR 0x0A],
      ''mem_lower = %uKB, mem_upper = %uKB'' @ [CHR 0x0A], ''boot_device = 0x%#x'' @ [CHR 0x0A],
      ''cmdline = %s'' @ [CHR 0x0A], ''Module %d loaded at address: 0x%#x'' @ [CHR 0x0A],
      ''Module %d ends at address: 0x%#x'' @ [CHR 0x0A], ''First few bytes of module:'' @ [CHR 0x0A],
      ''0x%x '', [CHR 0x0A], ''Both bits 4 and 5 are set.'' @ [CHR 0x0A],
      ''elf_sec: num = %u, size = 0x%#x, addr = 0x%#x, shndx = 0x%#x'' @ [CHR 0x0A],
      ''mmap_addr = 0x%#x, mmap_length = 0x%x'' @ [CHR 0x0A],
      ''    size = 0x%x, base_addr = 0x%#x%#x'' @ [CHR 0x0A]
         @ ''    type = 0x%x,  length    = 0x%#x%#x'' @ [CHR 0x0A]]"

definition quiet :: "'a descriptors_scheme \<Rightarrow> u32 \<Rightarrow> bool" where
  "quiet s a \<longleftrightarrow> kept VIDEO s a \<and> \<not> in_region a (arguments s) 24"

definition quiet_string :: "'a descriptors_scheme \<Rightarrow> u32 \<Rightarrow> u8 list \<Rightarrow> bool" where
  "quiet_string s a cs \<longleftrightarrow> str_at (mem s) a cs \<and> (\<forall>i \<le> length cs. quiet s (a + of_nat i))"

definition boot_area :: "'a descriptors_scheme \<Rightarrow> bool" where
  "boot_area s \<longleftrightarrow> video_mem s = VIDEO \<and> cursor_ok (curr_scheduled s - 1) s
     \<and> disjoint_regions (frame s) 64 VIDEO 4000 \<and> (\<forall>i < 24. kept VIDEO s (arguments s + of_nat i))"

definition boot_ready :: "'a descriptors_scheme \<Rightarrow> bool" where
  "boot_ready s \<longleftrightarrow> boot_area s \<and> (\<forall>f \<in> set boot_literals. quiet_string s (string_at s f) (text_bytes f))"

text \<open>What the calls leave as it is, from \<open>s\<close> on.\<close>

definition booting :: "'a descriptors_scheme \<Rightarrow> 'a descriptors_scheme \<Rightarrow> bool" where
  "booting s s' \<longleftrightarrow> boot_area s' \<and> frame s' = frame s \<and> curr_terminal s' = curr_terminal s
     \<and> curr_scheduled s' = curr_scheduled s
     \<and> (\<exists>f. console.more s' = console.more (s\<lparr>filesys_addr := f\<rparr>)) \<and> (\<forall>a. quiet s a \<longrightarrow> mem s' a = mem s a)"

lemma booting_fields:
  assumes "booting s s'"
  shows "string_at s' = string_at s" "arguments s' = arguments s" "loaded s' = loaded s"
    "quiet s' a = quiet s a" "\<And>st. proc_view s' st = proc_view s st" "boot_area s'"
    "ldt s' = ldt s" "tss s' = tss s" "address_of s' = address_of s"
proof -
  from assms obtain f where "console.more s' = console.more (s\<lparr>filesys_addr := f\<rparr>)" and "frame s' = frame s"
    by (auto simp: booting_def)
  then show "string_at s' = string_at s" "arguments s' = arguments s" "loaded s' = loaded s"
    "quiet s' a = quiet s a" "\<And>st. proc_view s' st = proc_view s st" "ldt s' = ldt s" "tss s' = tss s"
    "address_of s' = address_of s"
    by (cases s; cases s'; simp add: loaded_def tables_linked_def tables_blank_def quiet_def kept_def proc_view_def)+
  show "boot_area s'" using assms by (simp only: booting_def)
qed

lemma booting_set_filesys: "booting s s' \<Longrightarrow> booting s (s'\<lparr>filesys_addr := f\<rparr>)"
  unfolding booting_def by (cases s; cases s'; auto simp: boot_area_def kept_def cursor_ok_def)

lemma booting_load:
  assumes "booting s s'" and q: "\<And>i. i < 4 \<Longrightarrow> quiet s (a + of_nat i)"
  shows "load32 (mem s') a = load32 (mem s) a"
proof (rule load32_cong)
  have same: "mem s' x = mem s x" if "quiet s x" for x using assms(1) that by (simp add: booting_def)
  show "mem s' a = mem s a" "mem s' (a + 1) = mem s (a + 1)" "mem s' (a + 2) = mem s (a + 2)"
    "mem s' (a + 3) = mem s (a + 3)"
    using same [OF q [of 0]] same [OF q [of 1]] same [OF q [of 2]] same [OF q [of 3]] by simp_all
qed

lemma push_args_outside:
  "\<not> in_region a sp (4 * length vs) \<Longrightarrow> length vs \<le> 6 \<Longrightarrow> push_args m sp vs a = m a"
proof (induction vs arbitrary: m sp)
  case (Cons v vs)
  have "\<not> in_region a (sp + 4) (4 * length vs)"
  proof
    assume "in_region a (sp + 4) (4 * length vs)"
    then obtain i where "i < 4 * length vs" "a = sp + of_nat (4 + i)" by (auto elim!: in_regionE simp: add.assoc)
    then have "in_region a sp (4 * length (v # vs))" using Cons.prems(2) by (simp only:, intro in_region_add) auto
    then show False using Cons.prems(1) by simp
  qed
  moreover have "\<not> in_region a sp 4" using Cons.prems(1) unfolding in_region_def by auto
  ultimately show ?case using Cons by (simp add: store32_outside)
qed simp

lemma args_at_push: "length vs \<le> 6 \<Longrightarrow> args_at (push_args m sp vs) sp vs"
proof (induction vs arbitrary: m sp)
  case (Cons v vs)
  have apart: "\<not> in_region (sp + of_nat i) (sp + 4) (4 * length vs)" if "i < 4" for i
  proof -
    have "i \<in> {0, 1, 2, 3}" using that by auto
    then show ?thesis using Cons.prems by (auto simp: in_region_def)
  qed
  have "load32 (push_args (store32 m sp v) (sp + 4) vs) sp = load32 (store32 m sp v) sp"
    using apart [of 0] apart [of 1] apart [of 2] apart [of 3] Cons.prems
    by (intro load32_cong push_args_outside) simp_all
  then show ?case using Cons by simp
qed simp

lemma call_printf_prints:
  assumes ready: "boot_ready s" and s': "booting s s'" and f: "f \<in> set boot_literals" and len: "length vs \<le> 6"
    and fmt: "format_ok good (text_bytes f) vs" and good: "\<And>a. good a \<Longrightarrow> \<exists>cs. quiet_string s a cs"
  obtains s'' where "call_printf f vs s' = Some s''" and "booting s s''" and "filesys_addr s'' = filesys_addr s'"
proof -
  define w where "w = s'\<lparr>mem := push_args (mem s') (arguments s') vs\<rparr>"
  note fields = booting_fields [OF s']
  have w: "string_at w = string_at s" "arguments w = arguments s" "frame w = frame s" "video_mem w = VIDEO"
    "cursor_ok (curr_scheduled w - 1) w" "curr_scheduled w = curr_scheduled s" "curr_terminal w = curr_terminal s"
    "console.more w = console.more s'"
    using s' fields(1,2,6) by (simp_all add: w_def boot_area_def cursor_ok_def booting_def)
  have kept: "kept VIDEO w a = kept VIDEO s a" for a by (simp add: kept_def w)
  have same: "mem w a = mem s a" if "quiet s a" for a
  proof -
    have "\<not> in_region a (arguments s') (4 * length vs)"
      using that len fields(2) by (auto simp: quiet_def in_region_def)
    then show ?thesis using that len s' by (simp add: w_def push_args_outside booting_def)
  qed
  have quiet_kept: "string_kept VIDEO w a cs" if "quiet_string s a cs" for a cs
    using that same unfolding string_kept_def quiet_string_def
    by (auto intro: str_at_cong simp: kept quiet_def)
  from good obtain strings where strings: "\<And>a. good a \<Longrightarrow> quiet_string s a (strings a)" by metis
  have area: "boot_area s" using ready by (simp only: boot_ready_def)
  have place: "printable VIDEO strings good (string_at s f) (text_bytes f) (arguments s) vs w"
    unfolding printable_def
  proof (intro conjI allI impI)
    show "disjoint_regions (frame w) 64 VIDEO 4000" using area w(3) by (simp add: boot_area_def)
    show "string_kept VIDEO w (string_at s f) (text_bytes f)"
      using ready f by (intro quiet_kept) (simp add: boot_ready_def)
    show "args_at (mem w) (arguments s) vs" using args_at_push [OF len] fields(2) by (simp add: w_def)
    show "kept VIDEO w (arguments s + of_nat i)" if "i < 4 * length vs" for i
      using that len area unfolding kept by (simp add: boot_area_def)
    show "string_kept VIDEO w a (strings a)" if "good a" for a using that by (intro quiet_kept strings)
  qed
  have "cursor_ok (curr_scheduled w - 1) w" by (rule w(5))
  from printf_text [OF this place [folded w(4)] fmt] obtain s'' where
    run: "printf (string_at s f) (arguments s) w = Some (of_nat (length (text_bytes f)), s'')" and
    rest: "\<And>a. kept (video_mem w) w a \<Longrightarrow> mem s'' a = mem w a" "cursor_ok (curr_scheduled w - 1) s''"
      "video_mem s'' = video_mem w" "frame s'' = frame w" by metis
  note more = printf_frame [OF run]
  show thesis
  proof (rule that)
    show "call_printf f vs s' = Some s''" using run fields(1,2) by (simp add: call_printf_def w_def)
    show "filesys_addr s'' = filesys_addr s'" using more(1) w(8) by (cases s''; cases s'; simp)
    have "mem s'' a = mem s a" if "quiet s a" for a
      using rest(1) [of a] that same [OF that] by (simp add: w kept quiet_def)
    moreover have "arguments s'' = arguments s" using more(1) w(8) fields(2) by (cases s''; cases s'; simp)
    then have "boot_area s''"
      using area more(2,3) rest(2-4) by (simp add: boot_area_def kept_def w)
    moreover note calculation
    moreover have "\<exists>f. console.more s'' = console.more (s\<lparr>filesys_addr := f\<rparr>)"
      using more(1) w(8) s' by (simp add: booting_def)
    ultimately show "booting s s''"
      using more(2,3) rest(4) by (simp add: booting_def w)
  qed
qed

section \<open>The modules\<close>

definition quiet_word :: "'a descriptors_scheme \<Rightarrow> u32 \<Rightarrow> bool" where
  "quiet_word s a \<longleftrightarrow> (\<forall>i < 4. quiet s (a + of_nat i))"

lemma booting_word: "booting s s' \<Longrightarrow> quiet_word s a \<Longrightarrow> load32 (mem s') a = load32 (mem s) a"
  by (rule booting_load) (simp_all add: quiet_word_def)

lemma literals:
  "''Invalid magic number: 0x%#x'' @ [CHR 0x0A] \<in> set boot_literals"
  "''flags = 0x%#x'' @ [CHR 0x0A] \<in> set boot_literals"
  "''mem_lower = %uKB, mem_upper = %uKB'' @ [CHR 0x0A] \<in> set boot_literals"
  "''boot_device = 0x%#x'' @ [CHR 0x0A] \<in> set boot_literals"
  "''cmdline = %s'' @ [CHR 0x0A] \<in> set boot_literals"
  "''Module %d loaded at address: 0x%#x'' @ [CHR 0x0A] \<in> set boot_literals"
  "''Module %d ends at address: 0x%#x'' @ [CHR 0x0A] \<in> set boot_literals"
  "''First few bytes of module:'' @ [CHR 0x0A] \<in> set boot_literals"
  "''0x%x '' \<in> set boot_literals"
  "[CHR 0x0A] \<in> set boot_literals"
  "''Both bits 4 and 5 are set.'' @ [CHR 0x0A] \<in> set boot_literals"
  "''elf_sec: num = %u, size = 0x%#x, addr = 0x%#x, shndx = 0x%#x'' @ [CHR 0x0A] \<in> set boot_literals"
  "''mmap_addr = 0x%#x, mmap_length = 0x%x'' @ [CHR 0x0A] \<in> set boot_literals"
  "''    size = 0x%x, base_addr = 0x%#x%#x'' @ [CHR 0x0A]
     @ ''    type = 0x%x,  length    = 0x%#x%#x'' @ [CHR 0x0A] \<in> set boot_literals"
  unfolding boot_literals_def by (simp_all only: list.set insert_iff simp_thms)

lemma literal_formats:
  "format_ok good (text_bytes (''Invalid magic number: 0x%#x'' @ [CHR 0x0A])) [v1]"
  "format_ok good (text_bytes (''flags = 0x%#x'' @ [CHR 0x0A])) [v1]"
  "format_ok good (text_bytes (''mem_lower = %uKB, mem_upper = %uKB'' @ [CHR 0x0A])) [v1, v2]"
  "format_ok good (text_bytes (''boot_device = 0x%#x'' @ [CHR 0x0A])) [v1]"
  "good v1 \<Longrightarrow> format_ok good (text_bytes (''cmdline = %s'' @ [CHR 0x0A])) [v1]"
  "format_ok good (text_bytes (''Module %d loaded at address: 0x%#x'' @ [CHR 0x0A])) [v1, v2]"
  "format_ok good (text_bytes (''Module %d ends at address: 0x%#x'' @ [CHR 0x0A])) [v1, v2]"
  "format_ok good (text_bytes (''First few bytes of module:'' @ [CHR 0x0A])) []"
  "format_ok good (text_bytes ''0x%x '') [v1]"
  "format_ok good (text_bytes [CHR 0x0A]) []"
  "format_ok good (text_bytes (''Both bits 4 and 5 are set.'' @ [CHR 0x0A])) []"
  "format_ok good (text_bytes (''elf_sec: num = %u, size = 0x%#x, addr = 0x%#x, shndx = 0x%#x'' @ [CHR 0x0A]))
     [v1, v2, v3, v4]"
  "format_ok good (text_bytes (''mmap_addr = 0x%#x, mmap_length = 0x%x'' @ [CHR 0x0A])) [v1, v2]"
  "format_ok good (text_bytes (''    size = 0x%x, base_addr = 0x%#x%#x'' @ [CHR 0x0A]
     @ ''    type = 0x%x,  length    = 0x%#x%#x'' @ [CHR 0x0A])) [v1, v2, v3, v4, v5, v6]"
  by (simp_all add: text_bytes_def)

text \<open>A call with a format without strings.\<close>

lemma call_printf_returns:
  assumes "boot_ready s" and "booting s s'" and "f \<in> set boot_literals" and "length vs \<le> 6"
    and "format_ok (\<lambda>_. False) (text_bytes f) vs"
  obtains s'' where "call_printf f vs s' = Some s''" and "booting s s''" and "filesys_addr s'' = filesys_addr s'"
  using call_printf_prints [OF assms] by blast

lemma print_bytes_returns:
  "boot_ready s \<Longrightarrow> booting s s' \<Longrightarrow>
   \<exists>s''. print_bytes module i n s' = Some s'' \<and> booting s s'' \<and> filesys_addr s'' = filesys_addr s'"
proof (induction n arbitrary: i s')
  case (Suc n)
  obtain t where t: "call_printf ''0x%x '' [scast (mem s' (load32 (mem s') module + of_nat i))] s' = Some t"
    "booting s t" "filesys_addr t = filesys_addr s'"
    by (rule call_printf_returns [OF Suc.prems literals(9) _ literal_formats(9)]) simp_all
  then show ?case using Suc.IH [OF Suc.prems(1) t(2), of "Suc i"] by simp
qed simp

lemma print_module_returns:
  assumes ready: "boot_ready s" and s': "booting s s'" and q: "quiet_word s module"
  shows "\<exists>s''. print_module k module s' = Some s'' \<and> booting s s'' \<and> filesys_addr s'' = load32 (mem s) module"
proof -
  obtain t1 where t1: "call_printf (''Module %d loaded at address: 0x%#x'' @ [CHR 0x0A]) [k, load32 (mem s') module] s'
      = Some t1" "booting s t1"
    by (rule call_printf_returns [OF ready s' literals(6) _ literal_formats(6)]) simp_all
  define u1 where "u1 = t1\<lparr>filesys_addr := load32 (mem t1) module\<rparr>"
  have u1: "booting s u1" "filesys_addr u1 = load32 (mem s) module"
    using t1(2) q by (simp_all add: u1_def booting_set_filesys booting_word)
  obtain t2 where t2: "call_printf (''Module %d ends at address: 0x%#x'' @ [CHR 0x0A]) [k, load32 (mem u1) (module + 4)] u1
      = Some t2" "booting s t2" "filesys_addr t2 = filesys_addr u1"
    by (rule call_printf_returns [OF ready u1(1) literals(7) _ literal_formats(7)]) simp_all
  obtain t3 where t3: "call_printf (''First few bytes of module:'' @ [CHR 0x0A]) [] t2 = Some t3" "booting s t3"
      "filesys_addr t3 = filesys_addr t2"
    by (rule call_printf_returns [OF ready t2(2) literals(8) _ literal_formats(8)]) simp_all
  obtain t4 where t4: "print_bytes module 0 16 t3 = Some t4" "booting s t4" "filesys_addr t4 = filesys_addr t3"
    using print_bytes_returns [OF ready t3(2)] by blast
  obtain t5 where t5: "call_printf [CHR 0x0A] [] t4 = Some t5" "booting s t5" "filesys_addr t5 = filesys_addr t4"
    by (rule call_printf_returns [OF ready t4(2) literals(10) _ literal_formats(10)]) simp_all
  have "print_module k module s' = Some t5"
    using t1(1) t2(1) t3(1) t4(1) t5(1)
    by (simp only: print_module_def Let_def option.case u1_def [symmetric])
  then show ?thesis using t2(3) t3(3) t4(3) t5 u1(2) by simp
qed

text \<open>The address that \<open>entry\<close> keeps, with \<open>n\<close> modules from \<open>module\<close> on.\<close>

definition last_module :: "mem \<Rightarrow> u32 \<Rightarrow> nat \<Rightarrow> u32" where
  "last_module m module n = load32 m (module + of_nat (16 * (n - 1)))"

lemma modules_loop_returns:
  assumes ready: "boot_ready s" and count: "quiet_word s (mbi + 20)" "mb_mods_count s mbi = c"
    and mods: "\<And>i. i < unat c \<Longrightarrow> quiet_word s (base + of_nat (16 * i))"
  shows "k \<le> unat c \<Longrightarrow> booting s s' \<Longrightarrow>
    \<exists>s''. modules_loop mbi (of_nat k) (base + of_nat (16 * k)) s' = Some s'' \<and> booting s s''
      \<and> filesys_addr s'' = (if k < unat c then last_module (mem s) base (unat c) else filesys_addr s')"
proof (induction "unat c - k" arbitrary: k s')
  case 0
  then have k: "k = unat c" by simp
  have "mb_mods_count s' mbi = c" using count booting_word [OF 0(3) count(1)] by (simp add: mb_mods_count_def)
  then show ?case using 0(3) k by (subst modules_loop.simps) simp
next
  case (Suc n)
  then have k: "k < unat c" and n: "n = unat c - Suc k" by linarith+
  have "mb_mods_count s' mbi = c" using count booting_word [OF Suc(4) count(1)] by (simp add: mb_mods_count_def)
  moreover have "(of_nat k :: u32) < c"
    using k unat_u32_bound [of c] unat_of_nat_small [of k] by (simp only: word_less_nat_alt)
  moreover obtain t where t: "print_module (of_nat k) (base + of_nat (16 * k)) s' = Some t" "booting s t"
    "filesys_addr t = load32 (mem s) (base + of_nat (16 * k))"
    using print_module_returns [OF ready Suc(4) mods [OF k]] by blast
  moreover obtain s'' where s'': "modules_loop mbi (of_nat (Suc k)) (base + of_nat (16 * Suc k)) t = Some s''" "booting s s''"
    "filesys_addr s'' = (if Suc k < unat c then last_module (mem s) base (unat c) else filesys_addr t)"
    using Suc(1) [OF n _ t(2)] k by auto
  moreover have "of_nat (Suc k) = (of_nat k + 1 :: u32)" "base + of_nat (16 * Suc k) = base + of_nat (16 * k) + 16"
    by (simp_all add: add.assoc add.commute)
  ultimately have "modules_loop mbi (of_nat k) (base + of_nat (16 * k)) s' = Some s''"
    by (subst modules_loop.simps) (simp add: ac_simps)
  moreover have "filesys_addr s'' = last_module (mem s) base (unat c)"
  proof (cases "Suc k < unat c")
    case False
    then have "unat c - 1 = k" using k by linarith
    then show ?thesis using s''(3) t(3) False by (simp only: last_module_def if_False)
  qed (simp add: s''(3))
  ultimately show ?case using s''(2) k by simp
qed

section \<open>The memory map\<close>

text \<open>Where the loop over the memory map is after \<open>n\<close> rounds.\<close>

fun mmap_at :: "mem \<Rightarrow> u32 \<Rightarrow> nat \<Rightarrow> u32" where
  "mmap_at m a 0 = a"
| "mmap_at m a (Suc n) = mmap_at m (a + load32 m a + 4) n"

lemma mmap_loop_returns:
  assumes ready: "boot_ready s"
    and fields: "quiet_word s (mbi + 44)" "quiet_word s (mbi + 48)"
    and e: "mb_mmap_addr s mbi + mb_mmap_length s mbi = e"
  shows "\<not> mmap_at (mem s) a n < e \<Longrightarrow> (\<And>k. k < n \<Longrightarrow> quiet_word s (mmap_at (mem s) a k)) \<Longrightarrow> booting s s' \<Longrightarrow>
    \<exists>s''. mmap_loop mbi a s' = Some s'' \<and> booting s s'' \<and> filesys_addr s'' = filesys_addr s'"
proof (induction n arbitrary: a s')
  case (0 a s')
  have "mb_mmap_addr s' mbi + mb_mmap_length s' mbi = e"
    using e booting_word [OF 0(3)] fields by (simp add: mb_mmap_addr_def mb_mmap_length_def)
  then show ?case using 0 by (subst mmap_loop.simps) simp
next
  case (Suc n a s')
  have end': "mb_mmap_addr s' mbi + mb_mmap_length s' mbi = e"
    using e booting_word [OF Suc.prems(3)] fields by (simp add: mb_mmap_addr_def mb_mmap_length_def)
  show ?case
  proof (cases "a < e")
    case True
    obtain t where t: "print_mmap a s' = Some t" "booting s t" "filesys_addr t = filesys_addr s'"
      unfolding print_mmap_def by (rule call_printf_returns [OF ready Suc.prems(3) literals(14) _ literal_formats(14)]) simp_all
    have "quiet_word s a" using Suc.prems(2) [of 0] by simp
    then have size: "load32 (mem t) a = load32 (mem s) a" by (rule booting_word [OF t(2)])
    have "\<not> mmap_at (mem s) (a + load32 (mem s) a + 4) n < e" using Suc.prems(1) by simp
    moreover have "quiet_word s (mmap_at (mem s) (a + load32 (mem s) a + 4) k)" if "k < n" for k
      using Suc.prems(2) [of "Suc k"] that by simp
    ultimately obtain s'' where "mmap_loop mbi (a + load32 (mem s) a + 4) t = Some s''" "booting s s''"
      "filesys_addr s'' = filesys_addr t"
      using Suc.IH [OF _ _ t(2)] by blast
    then show ?thesis using True t(1,3) size by (subst mmap_loop.simps) (simp add: end')
  next
    case False
    then show ?thesis using Suc.prems(3) by (subst mmap_loop.simps) (simp add: end')
  qed
qed

section \<open>The information of the boot loader\<close>

text \<open>The structures that the loader passed lie in quiet memory, as far as the flags declare them, and
  the memory map ends.\<close>

definition info_ok :: "'a descriptors_scheme \<Rightarrow> u32 \<Rightarrow> bool" where
  "info_ok s mbi \<longleftrightarrow> (\<forall>i < 13. quiet_word s (mbi + of_nat (4 * i)))
     \<and> (check_flag (mb_flags s mbi) 2 \<longrightarrow> (\<exists>cs. quiet_string s (mb_cmdline s mbi) cs))
     \<and> (check_flag (mb_flags s mbi) 3 \<longrightarrow>
         (\<forall>i < unat (mb_mods_count s mbi). quiet_word s (mb_mods_addr s mbi + of_nat (16 * i))))
     \<and> (check_flag (mb_flags s mbi) 6 \<longrightarrow>
         (\<exists>n. \<not> mmap_at (mem s) (mb_mmap_addr s mbi) n < mb_mmap_addr s mbi + mb_mmap_length s mbi
           \<and> (\<forall>k < n. quiet_word s (mmap_at (mem s) (mb_mmap_addr s mbi) k))))"

lemma info_words:
  assumes "info_ok s mbi"
  shows "quiet_word s mbi" "quiet_word s (mbi + 16)" "quiet_word s (mbi + 20)" "quiet_word s (mbi + 24)"
    "quiet_word s (mbi + 44)" "quiet_word s (mbi + 48)"
proof -
  have q: "quiet_word s (mbi + of_nat (4 * i))" if "i < 13" for i
    using assms that unfolding info_ok_def by blast
  show "quiet_word s mbi" "quiet_word s (mbi + 16)" "quiet_word s (mbi + 20)" "quiet_word s (mbi + 24)"
    "quiet_word s (mbi + 44)" "quiet_word s (mbi + 48)"
    using q [of 0] q [of 4] q [of 5] q [of 6] q [of 11] q [of 12] by simp_all
qed

lemma info_fields:
  assumes "info_ok s mbi" and "booting s s'"
  shows "mb_flags s' mbi = mb_flags s mbi" "mb_cmdline s' mbi = mb_cmdline s mbi"
    "mb_mods_addr s' mbi = mb_mods_addr s mbi" "mb_mods_count s' mbi = mb_mods_count s mbi"
    "mb_mmap_addr s' mbi = mb_mmap_addr s mbi"
  using booting_word [OF assms(2)] info_words [OF assms(1)]
  by (simp_all add: mb_flags_def mb_cmdline_def mb_mods_addr_def mb_mods_count_def mb_mmap_addr_def)

lemma when_flag_returns:
  assumes "info_ok s mbi" and "booting s s'"
    and "check_flag (mb_flags s mbi) b \<Longrightarrow> \<exists>t. action s' = Some t \<and> booting s t \<and> filesys_addr t = fa"
    and "\<not> check_flag (mb_flags s mbi) b \<Longrightarrow> fa = filesys_addr s'"
  shows "\<exists>t. when_flag mbi b action s' = Some t \<and> booting s t \<and> filesys_addr t = fa"
  using assms info_fields(1) [OF assms(1,2)] by (auto simp: when_flag_def)

text \<open>The address of the file system that is kept.\<close>

definition found_module :: "'a descriptors_scheme \<Rightarrow> u32 \<Rightarrow> u32" where
  "found_module s mbi =
     (if check_flag (mb_flags s mbi) 3 \<and> mb_mods_count s mbi \<noteq> 0
      then last_module (mem s) (mb_mods_addr s mbi) (unat (mb_mods_count s mbi)) else filesys_addr s)"


lemma when_flag_printf:
  assumes ready: "boot_ready s" and info: "info_ok s mbi" and s': "booting s s'"
    and f: "f \<in> set boot_literals" and fmt: "\<And>v. length (vs v) \<le> 6 \<and> format_ok (\<lambda>_. False) (text_bytes f) (vs v)"
  obtains t where "when_flag mbi b (\<lambda>s. call_printf f (vs s) s) s' = Some t" "booting s t"
    "filesys_addr t = filesys_addr s'"
proof -
  obtain t where "call_printf f (vs s') s' = Some t" "booting s t" "filesys_addr t = filesys_addr s'"
    by (rule call_printf_returns [OF ready s' f conjunct1 [OF fmt] conjunct2 [OF fmt]])
  then show thesis
    using when_flag_returns [OF info s', where fa = "filesys_addr s'"
        and action = "\<lambda>s. call_printf f (vs s) s" and b = b] that by blast
qed

lemma print_cmdline_returns:
  assumes ready: "boot_ready s" and info: "info_ok s mbi" and s': "booting s s'"
  shows "\<exists>t. when_flag mbi 2 (\<lambda>s. call_printf (''cmdline = %s'' @ [CHR 0x0A]) [mb_cmdline s mbi] s) s' = Some t
    \<and> booting s t \<and> filesys_addr t = filesys_addr s'"
proof (rule when_flag_returns [OF info s'])
  assume "check_flag (mb_flags s mbi) 2"
  then obtain cs where "quiet_string s (mb_cmdline s' mbi) cs"
    using info info_fields(2) [OF info s'] by (auto simp: info_ok_def)
  then show "\<exists>t. call_printf (''cmdline = %s'' @ [CHR 0x0A]) [mb_cmdline s' mbi] s' = Some t
      \<and> booting s t \<and> filesys_addr t = filesys_addr s'"
    using call_printf_prints [OF ready s' literals(5) _ literal_formats(5),
        of "mb_cmdline s' mbi" "\<lambda>a. a = mb_cmdline s' mbi"] by fastforce
qed simp

lemma print_modules_returns:
  assumes ready: "boot_ready s" and info: "info_ok s mbi" and s': "booting s s'" and same: "filesys_addr s' = filesys_addr s"
  shows "\<exists>t. when_flag mbi 3 (\<lambda>s. modules_loop mbi 0 (mb_mods_addr s mbi) s) s' = Some t
    \<and> booting s t \<and> filesys_addr t = found_module s mbi"
proof (rule when_flag_returns [OF info s'])
  assume flag: "check_flag (mb_flags s mbi) 3"
  then have mods: "quiet_word s (mb_mods_addr s mbi + of_nat (16 * i))" if "i < unat (mb_mods_count s mbi)" for i
    using info that unfolding info_ok_def by blast
  have "0 < unat (mb_mods_count s mbi) \<longleftrightarrow> mb_mods_count s mbi \<noteq> 0" by (simp add: unat_gt_0)
  then show "\<exists>t. modules_loop mbi 0 (mb_mods_addr s' mbi) s' = Some t \<and> booting s t
      \<and> filesys_addr t = found_module s mbi"
    using modules_loop_returns [OF ready info_words(3) [OF info] refl mods, of 0 s'] s' same flag
    by (auto simp: found_module_def info_fields(3) [OF info s'] split: if_splits)
qed (simp add: found_module_def same)

lemma print_mmaps_returns:
  assumes ready: "boot_ready s" and info: "info_ok s mbi" and s': "booting s s'"
  shows "\<exists>t. when_flag mbi 6 (\<lambda>s. case call_printf (''mmap_addr = 0x%#x, mmap_length = 0x%x'' @ [CHR 0x0A])
             [mb_mmap_addr s mbi, mb_mmap_length s mbi] s of None \<Rightarrow> None | Some s \<Rightarrow>
           mmap_loop mbi (mb_mmap_addr s mbi) s) s' = Some t \<and> booting s t \<and> filesys_addr t = filesys_addr s'"
proof (rule when_flag_returns [OF info s'])
  assume "check_flag (mb_flags s mbi) 6"
  then obtain n where n: "\<not> mmap_at (mem s) (mb_mmap_addr s mbi) n < mb_mmap_addr s mbi + mb_mmap_length s mbi"
    "\<And>k. k < n \<Longrightarrow> quiet_word s (mmap_at (mem s) (mb_mmap_addr s mbi) k)"
    using info unfolding info_ok_def by blast
  obtain t where t: "call_printf (''mmap_addr = 0x%#x, mmap_length = 0x%x'' @ [CHR 0x0A])
      [mb_mmap_addr s' mbi, mb_mmap_length s' mbi] s' = Some t" "booting s t" "filesys_addr t = filesys_addr s'"
    by (rule call_printf_returns [OF ready s' literals(13) _ literal_formats(13)]) simp_all
  from mmap_loop_returns [OF ready info_words(5,6) [OF info] refl n t(2)] t(1,3)
  show "\<exists>t. (case call_printf (''mmap_addr = 0x%#x, mmap_length = 0x%x'' @ [CHR 0x0A])
             [mb_mmap_addr s' mbi, mb_mmap_length s' mbi] s' of None \<Rightarrow> None | Some s \<Rightarrow>
           mmap_loop mbi (mb_mmap_addr s mbi) s) = Some t \<and> booting s t \<and> filesys_addr t = filesys_addr s'"
    by (simp only: option.case info_fields(5) [OF info t(2)])
qed simp

lemma print_info_returns:
  assumes ready: "boot_ready s" and s0: "booting s s0" and same: "filesys_addr s0 = filesys_addr s"
    and info: "info_ok s mbi"
  shows "\<exists>s'. print_info mbi s0
      = Some (\<not> (check_flag (mb_flags s mbi) 4 \<and> check_flag (mb_flags s mbi) 5), s')
    \<and> booting s s' \<and> filesys_addr s' = found_module s mbi"
proof -
  note flag_printf = when_flag_printf [OF ready info]
  obtain s1 where s1: "call_printf (''flags = 0x%#x'' @ [CHR 0x0A]) [mb_flags s0 mbi] s0 = Some s1" "booting s s1"
    "filesys_addr s1 = filesys_addr s0"
    by (rule call_printf_returns [OF ready s0 literals(2) _ literal_formats(2)]) simp_all
  obtain s2 where s2: "when_flag mbi 0 (\<lambda>s. call_printf (''mem_lower = %uKB, mem_upper = %uKB'' @ [CHR 0x0A])
             [mb_mem_lower s mbi, mb_mem_upper s mbi] s) s1 = Some s2" "booting s s2" "filesys_addr s2 = filesys_addr s1"
    by (rule flag_printf [OF s1(2) literals(3), where b = 0 and vs = "\<lambda>s. [mb_mem_lower s mbi, mb_mem_upper s mbi]"])
      (simp_all only: literal_formats length_Cons list.size, simp_all)
  obtain s3 where s3: "when_flag mbi 1 (\<lambda>s. call_printf (''boot_device = 0x%#x'' @ [CHR 0x0A])
             [mb_boot_device s mbi] s) s2 = Some s3" "booting s s3" "filesys_addr s3 = filesys_addr s2"
    by (rule flag_printf [OF s2(2) literals(4), where b = 1 and vs = "\<lambda>s. [mb_boot_device s mbi]"])
      (simp_all only: literal_formats length_Cons list.size, simp_all)
  from print_cmdline_returns [OF ready info s3(2)] obtain s4 where
    s4: "when_flag mbi 2 (\<lambda>s. call_printf (''cmdline = %s'' @ [CHR 0x0A]) [mb_cmdline s mbi] s) s3
      = Some s4" "booting s s4" "filesys_addr s4 = filesys_addr s3" by blast
  then have "filesys_addr s4 = filesys_addr s" using s3(3) s2(3) s1(3) same by simp
  from print_modules_returns [OF ready info s4(2) this] obtain s5 where
    s5: "when_flag mbi 3 (\<lambda>s. modules_loop mbi 0 (mb_mods_addr s mbi) s) s4 = Some s5" "booting s s5"
    "filesys_addr s5 = found_module s mbi" by blast
  obtain s6 where s6: "call_printf (''Both bits 4 and 5 are set.'' @ [CHR 0x0A]) [] s5 = Some s6" "booting s s6"
    "filesys_addr s6 = filesys_addr s5"
    by (rule call_printf_returns [OF ready s5(2) literals(11) _ literal_formats(11)]) simp_all
  obtain s7 where s7: "when_flag mbi 5 (\<lambda>s. call_printf
             (''elf_sec: num = %u, size = 0x%#x, addr = 0x%#x, shndx = 0x%#x'' @ [CHR 0x0A])
             (mb_elf_sec s mbi) s) s5 = Some s7" "booting s s7" "filesys_addr s7 = filesys_addr s5"
    by (rule flag_printf [OF s5(2) literals(12), where b = 5 and vs = "\<lambda>s. mb_elf_sec s mbi"])
      (simp_all only: literal_formats length_Cons list.size mb_elf_sec_def list.map, simp_all)
  from print_mmaps_returns [OF ready info s7(2)] obtain s8 where
    s8: "when_flag mbi 6 (\<lambda>s. case call_printf (''mmap_addr = 0x%#x, mmap_length = 0x%x'' @ [CHR 0x0A])
             [mb_mmap_addr s mbi, mb_mmap_length s mbi] s of None \<Rightarrow> None | Some s \<Rightarrow>
           mmap_loop mbi (mb_mmap_addr s mbi) s) s7 = Some s8" "booting s s8" "filesys_addr s8 = filesys_addr s7" by blast
  have "print_info mbi s0 = (if check_flag (mb_flags s mbi) 4 \<and> check_flag (mb_flags s mbi) 5
      then Some (False, s6) else Some (True, s8))"
    by (simp only: print_info_def s1(1) s2(1) s3(1) s4(1) s5(1) s6(1) s7(1) s8(1) option.case option.map
        info_fields(1) [OF info s5(2)])
  then show ?thesis using s5(3) s6(2,3) s7(3) s8(2,3)
    by (cases "check_flag (mb_flags s mbi) 4 \<and> check_flag (mb_flags s mbi) 5") simp_all
qed

section \<open>The whole of entry\<close>

lemma boot_state:
  assumes L: "loaded s" and r: "r = init_devices (init_tss d2 (init_ldt d1 s))"
  shows "filesys_addr r = filesys_addr s" "tables_ok r" "intr r"
    "translate r a = (if in_region a VIDEO 0x4000 \<or> in_region a 0x400000 0x400000 then Some (a, False) else None)"
    "list_all (\<lambda>base. screen_chars (mem r) base = replicate 2000 32) [VIDEO, VIDEO1, VIDEO2, VIDEO3]"
proof -
  define w where "w = init_tss d2 (init_ldt d1 s)"
  define x where "x = idt_init w"
  define y where "y = paging_init x"
  have w: "tables_linked w = tables_linked s" "tables_blank w = tables_blank s" "rtc_active w = rtc_active s"
    "filesys_addr w = filesys_addr s" "pageDirectory_addr w = pageDirectory_addr s"
    by (simp_all add: w_def init_tss_def init_ldt_def Let_def tables_linked_def tables_blank_def)
  have x: "tables_linked x" "tables_blank x" "pageDirectory_addr x AND 0xFFF = 0" "filesys_addr x = filesys_addr s"
    using L w idt_init_update [of w] by (simp_all add: x_def loaded_def tables_linked_def tables_blank_def)
  have "rtc_active w = 0" using L by (simp add: w loaded_def)
  then obtain ps where r: "r = y\<lparr>mem := blank_screens (mem w), ports := ps, intr := True,
     master_mask := 0x20, slave_mask := 0xA0, rtc_active := 1\<rparr>"
    unfolding y_def x_def r w_def [symmetric] by (metis init_devices_update)
  have same: "translate r a = translate y a" "tables_ok r = tables_ok y" for a
    by (rule translate_cong; simp add: r)+
  have "filesys_addr y = filesys_addr x"
    unfolding y_def by (subst paging_init_update) simp
  then show "filesys_addr r = filesys_addr s" "intr r" by (simp_all add: r x(4))
  show "tables_ok r" "translate r a =
      (if in_region a VIDEO 0x4000 \<or> in_region a 0x400000 0x400000 then Some (a, False) else None)"
    using paging_init_maps_all [OF x(1-3)] by (simp_all only: same y_def)
  show "list_all (\<lambda>base. screen_chars (mem r) base = replicate 2000 32) [VIDEO, VIDEO1, VIDEO2, VIDEO3]"
    using blank_screens_chars by (simp add: r)
qed

lemma booting_clear: "boot_ready s \<Longrightarrow> booting s (clear s)"
  by (auto simp: booting_def clear_def boot_ready_def boot_area_def cursor_ok_def kept_def quiet_def clear_page_outside
      intro!: exI [of _ "filesys_addr s"])

section \<open>Properties\<close>

text \<open>C11. \<open>entry\<close> returns or reaches the idle loop whatever the boot loader passed, for every list of
  modules and every memory map that ends: it reaches the idle loop exactly when the magic number is
  right and bits 4 and 5 are not both set; then the file system is the last module, exactly the text
  pages and the kernel's 4 MB are mapped, the screens are blank and interrupts are enabled.\<close>

theorem entry_boots:
  assumes "loaded s" and "boot_ready s" and "info_ok s addr"
  shows "\<exists>b r. entry magic addr d1 d2 s = Some (b, r)
    \<and> (b \<longleftrightarrow> magic = MULTIBOOT_BOOTLOADER_MAGIC \<and> \<not> (check_flag (mb_flags s addr) 4 \<and> check_flag (mb_flags s addr) 5))
    \<and> (b \<longrightarrow> filesys_addr r = found_module s addr \<and> tables_ok r \<and> intr r
        \<and> (\<forall>a. translate r a =
            (if in_region a VIDEO 0x4000 \<or> in_region a 0x400000 0x400000 then Some (a, False) else None))
        \<and> list_all (\<lambda>base. screen_chars (mem r) base = replicate 2000 32) [VIDEO, VIDEO1, VIDEO2, VIDEO3])"
proof (cases "magic = MULTIBOOT_BOOTLOADER_MAGIC")
  case False
  obtain t where "call_printf (''Invalid magic number: 0x%#x'' @ [CHR 0x0A]) [magic] (clear s) = Some t"
    by (rule call_printf_returns [OF assms(2) booting_clear [OF assms(2)] literals(1) _ literal_formats(1)]) simp_all
  then show ?thesis using False by (intro exI [of _ False]) (simp add: entry_def Let_def)
next
  case True
  have "filesys_addr (clear s) = filesys_addr s" by (simp add: clear_def)
  from print_info_returns [OF assms(2) booting_clear [OF assms(2)] this assms(3)] obtain t where
    t: "print_info addr (clear s) = Some (\<not> (check_flag (mb_flags s addr) 4 \<and> check_flag (mb_flags s addr) 5), t)"
    "booting s t" "filesys_addr t = found_module s addr" by blast
  have "loaded t" using booting_fields(3) [OF t(2)] assms(1) by simp
  note boot = boot_state [OF this refl, of d2 d1]
  show ?thesis
    using True t(1,3) boot by (auto simp: entry_def Let_def)
qed

section \<open>A boot loader with one module\<close>

definition literal_index :: "string \<Rightarrow> nat" where
  "literal_index f = length (takeWhile (\<lambda>g. g \<noteq> f) boot_literals)"

definition literal_byte :: "nat \<Rightarrow> u8" where
  "literal_byte n = (let f = boot_literals ! (n div 256) in if n mod 256 < length f then of_char (f ! (n mod 256)) else 0)"

definition sample_info :: mem where
  "sample_info = store32 (store32 (store32 (store32 (\<lambda>a. literal_byte (unat (a - 0x500000)))
     0x600000 8) 0x600014 1) 0x600018 0x600100) 0x600100 0x700000"

definition sample_loader :: descriptors where
  "sample_loader = sample_loaded\<lparr>string_at := \<lambda>f. 0x500000 + of_nat (256 * literal_index f), mem := sample_info\<rparr>"

lemma sample_loader_simps:
  "arguments sample_loader = 0x7FF800" "frame sample_loader = 0x7FF000" "video_mem sample_loader = VIDEO"
  "cursor_ok (curr_scheduled sample_loader - 1) sample_loader" "loaded sample_loader"
  "mem sample_loader = sample_info" "string_at sample_loader f = 0x500000 + of_nat (256 * literal_index f)"
  by (simp_all add: sample_loader_def sample_loaded_def sample_unpaged_def sample_boot_def sample_process_def loaded_def
      blank_gate_def tables_linked_def tables_blank_def descriptors.defs paging.defs scheduler.defs process.defs
      cursor_ok_def)

lemma quiet_sample: "n < 0x200000 \<Longrightarrow> quiet sample_loader (0x500000 + of_nat n)"
proof -
  assume n: "n < 0x200000"
  have eq: "(0x500000 + of_nat n - VIDEO :: u32) = of_nat (0x448000 + n)" "(0x500000 + of_nat n - 0x7FF000 :: u32) = of_nat (0xFFD01000 + n)"
    "(0x500000 + of_nat n - 0x7FF800 :: u32) = of_nat (0xFFD00800 + n)" by simp_all
  have "unat (of_nat (0x448000 + n) :: u32) = 0x448000 + n" "unat (of_nat (0xFFD01000 + n) :: u32) = 0xFFD01000 + n"
    "unat (of_nat (0xFFD00800 + n) :: u32) = 0xFFD00800 + n"
    using n by (intro unat_of_nat_small, simp)+
  then show ?thesis by (simp only: quiet_def kept_def in_region_def sample_loader_simps eq) simp
qed


lemma literal_index:
  assumes "f \<in> set boot_literals"
  shows "literal_index f < 14" "boot_literals ! literal_index f = f"
proof -
  have "literal_index f < length boot_literals"
    using assms takeWhile_eq_all_conv [of "\<lambda>g. g \<noteq> f" boot_literals] length_takeWhile_le [of "\<lambda>g. g \<noteq> f" boot_literals]
      takeWhile_eq_take [of "\<lambda>g. g \<noteq> f" boot_literals]
    unfolding literal_index_def by (metis le_neq_implies_less order_refl take_all)
  then show "literal_index f < 14" "boot_literals ! literal_index f = f"
    using nth_length_takeWhile [of "\<lambda>g. g \<noteq> f" boot_literals]
    unfolding literal_index_def by (simp_all add: boot_literals_def)
qed

lemma literal_chars: "f \<in> set boot_literals \<Longrightarrow> length f < 255 \<and> 0 \<notin> set (text_bytes f)"
  unfolding boot_literals_def set_simps insert_iff
  by (elim disjE emptyE) (simp_all add: text_bytes_def)

lemma sample_info_literal:
  assumes "n < 0x1000"
  shows "sample_info (0x500000 + of_nat n) = literal_byte n"
proof -
  have "(0x500000 + of_nat n - 0x600000 :: u32) = of_nat (0xFFF00000 + n)"
    "(0x500000 + of_nat n - 0x600014 :: u32) = of_nat (0xFFEFFFEC + n)"
    "(0x500000 + of_nat n - 0x600018 :: u32) = of_nat (0xFFEFFFE8 + n)"
    "(0x500000 + of_nat n - 0x600100 :: u32) = of_nat (0xFFEFFF00 + n)" by simp_all
  moreover have "unat (of_nat (0xFFF00000 + n) :: u32) = 0xFFF00000 + n"
    "unat (of_nat (0xFFEFFFEC + n) :: u32) = 0xFFEFFFEC + n" "unat (of_nat (0xFFEFFFE8 + n) :: u32) = 0xFFEFFFE8 + n"
    "unat (of_nat (0xFFEFFF00 + n) :: u32) = 0xFFEFFF00 + n" "unat (of_nat n :: u32) = n"
    using assms by (intro unat_of_nat_small, simp)+
  ultimately show ?thesis
    by (simp add: sample_info_def store32_outside in_region_def del: unat_of_nat of_nat_add)
qed

lemma sample_literal:
  assumes f: "f \<in> set boot_literals"
  shows "quiet_string sample_loader (string_at sample_loader f) (text_bytes f)"
proof -
  note k = literal_index [OF f] and chars = literal_chars [OF f]
  have "sample_info (0x500000 + of_nat (256 * literal_index f) + of_nat i)
      = (if i < length f then of_char (f ! i) else 0)" if "i \<le> length f" for i
  proof -
    have "i < 256" using that chars by linarith
    then have "literal_byte (256 * literal_index f + i) = (if i < length f then of_char (f ! i) else 0)"
      using k(2) by (simp add: literal_byte_def)
    moreover have "256 * literal_index f + i < 0x1000" using k(1) \<open>i < 256\<close> by simp
    ultimately show ?thesis using sample_info_literal [of "256 * literal_index f + i"] by (simp add: add.assoc)
  qed
  then have "str_at sample_info (0x500000 + of_nat (256 * literal_index f)) (text_bytes f)"
    using chars by (auto simp: str_at_def text_bytes_def intro!: nth_equalityI simp: nth_bytes)
  moreover have "quiet sample_loader (0x500000 + of_nat (256 * literal_index f) + of_nat i)" if "i \<le> length f" for i
    using quiet_sample [of "256 * literal_index f + i"] that chars k(1) by (simp add: add.assoc)
  ultimately show ?thesis by (simp add: quiet_string_def sample_loader_simps text_bytes_def)
qed

lemma sample_loader_ready: "boot_ready sample_loader"
proof -
  have "kept VIDEO sample_loader (0x7FF800 + of_nat i)" if "i < 24" for i
  proof -
    have "(0x7FF800 + of_nat i - VIDEO :: u32) = of_nat (0x747800 + i)" "(0x7FF800 + of_nat i - 0x7FF000 :: u32) = of_nat (0x800 + i)"
      by simp_all
    moreover have "unat (of_nat (0x747800 + i) :: u32) = 0x747800 + i" "unat (of_nat (0x800 + i) :: u32) = 0x800 + i"
      using that by (intro unat_of_nat_small, simp)+
    ultimately show ?thesis by (simp only: kept_def in_region_def sample_loader_simps) simp
  qed
  then have "boot_area sample_loader"
    using sample_loader_simps(4) by (simp add: boot_area_def sample_loader_simps disjoint_regions_def)
  then show ?thesis using sample_literal by (simp add: boot_ready_def)
qed

lemma sample_loader_info:
  "info_ok sample_loader 0x600000" "mb_flags sample_loader 0x600000 = 8" "found_module sample_loader 0x600000 = 0x700000"
proof -
  have far: "load32 (store32 m a v) b = load32 m b" if "4 \<le> unat (b - a)" "unat (b - a) \<le> 0xFFFFFFFC" for m a v b
  proof -
    have "\<not> in_region (b + of_nat i) a 4" if "i < 4" for i
    proof -
      have "unat (b - a + of_nat i) = unat (b - a) + i"
        using \<open>unat (b - a) \<le> 0xFFFFFFFC\<close> that by (subst unat_add_lem [THEN iffD1]) (simp_all add: unat_of_nat_small)
      moreover have "b + of_nat i - a = b - a + of_nat i" by simp
      ultimately show ?thesis using \<open>4 \<le> unat (b - a)\<close> by (simp only: in_region_def)
    qed
    from this [of 0] this [of 1] this [of 2] this [of 3] show ?thesis
      by (intro load32_cong) (simp_all add: store32_outside)
  qed
  have words: "load32 sample_info 0x600000 = 8" "load32 sample_info 0x600014 = 1"
    "load32 sample_info 0x600018 = 0x600100" "load32 sample_info 0x600100 = 0x700000"
    by (simp_all add: sample_info_def far)
  have fields: "mb_flags sample_loader 0x600000 = 8" "mb_mods_count sample_loader 0x600000 = 1"
    "mb_mods_addr sample_loader 0x600000 = 0x600100"
    using words by (simp_all add: mb_flags_def mb_mods_count_def mb_mods_addr_def sample_loader_simps)
  have flags: "check_flag 8 3" "\<not> check_flag 8 2" "\<not> check_flag 8 6" by (simp_all add: check_flag_def)
  have word: "quiet_word sample_loader (0x500000 + of_nat n)" if "n < 0x1FFFF0" for n
    using quiet_sample [of "n + i" for i] that by (simp add: quiet_word_def add.assoc)
  have "quiet_word sample_loader (0x600000 + of_nat (4 * i))" if "i < 13" for i
    using word [of "0x100000 + 4 * i"] that by simp
  moreover have "quiet_word sample_loader 0x600100" using word [of "0x100100"] by simp
  ultimately show "info_ok sample_loader 0x600000"
    using fields flags by (simp add: info_ok_def)
  show "found_module sample_loader 0x600000 = 0x700000"
    using fields flags words by (simp add: found_module_def last_module_def sample_loader_simps)
  show "mb_flags sample_loader 0x600000 = 8" by (rule fields(1))
qed

theorem entry_boots_witness:
  "\<exists>r. entry MULTIBOOT_BOOTLOADER_MAGIC 0x600000 blank_seg blank_seg sample_loader = Some (True, r)
    \<and> filesys_addr r = 0x700000 \<and> translate r 0xB8000 = Some (0xB8000, False)"
proof -
  have "\<not> check_flag 8 4" by (simp add: check_flag_def)
  moreover have "in_region 0xB8000 VIDEO 0x4000" by (simp add: in_region_def)
  moreover note entry_boots [OF sample_loader_simps(5) sample_loader_ready sample_loader_info(1),
      of MULTIBOOT_BOOTLOADER_MAGIC blank_seg blank_seg]
  ultimately show ?thesis unfolding sample_loader_info(2,3) by fastforce
qed

end
