(* ===== verification/Syscall.thy ===== *)
theory Syscall
  imports Exec
begin

text \<open>
  The gate of the system calls: the jump table of \<open>student-distrib/assembly_linkage.S\<close>, the wrappers
  of \<open>syscalls/ece391syscall.S\<close> by which a program calls the kernel, and programs as sequences of
  such calls.
\<close>

section \<open>The dispatcher\<close>

text \<open>The interrupts are those that are served while the call waits. \<open>Back\<close> is the return to the
  program with a value in EAX, \<open>Away\<close> the end of the process or the entry of another program, \<open>Lost\<close> a
  call that never returns.\<close>

datatype 's sys_result = Back u32 's "('s \<Rightarrow> 's) list" | Away "'s control" | Lost

text \<open>\<open>iret\<close> restores the flags of the program that called.\<close>

definition iret :: "'a machine_scheme \<Rightarrow> 'a machine_scheme \<Rightarrow> 'a machine_scheme" where
  "iret caller s = s\<lparr>intr := intr caller\<rparr>"

definition back_outcome ::
    "'a machine_scheme \<Rightarrow> ('a machine_scheme \<Rightarrow> 'a machine_scheme) list \<Rightarrow> (int \<times> 'a machine_scheme) outcome \<Rightarrow>
     'a machine_scheme sys_result" where
  "back_outcome caller interrupts out =
     (case out of Done (r, s) \<Rightarrow> Back (of_int r) (iret caller s) interrupts | Blocked \<Rightarrow> Lost | Fault \<Rightarrow> Lost)"

text \<open>EAX selects the call, EBX, ECX and EDX are its arguments.\<close>

definition system_calls_assembly ::
    "u32 \<Rightarrow> u32 \<Rightarrow> u32 \<Rightarrow> u32 \<Rightarrow> ('a process_scheme \<Rightarrow> 'a process_scheme) list \<Rightarrow> 'a process_scheme \<Rightarrow>
     'a process_scheme sys_result" where
  "system_calls_assembly eax ebx ecx edx interrupts s =
     (if sint eax < 1 \<or> sint eax > 10 then Back (-1) s interrupts
      else if eax = 1 then Away (halt (ucast ebx) s)
      else if eax = 2 then
        (case execute ebx s of Returns r s' \<Rightarrow> Back (of_int r) (iret s s') interrupts | c \<Rightarrow> Away c)
      else if eax = 3 then
        (case sys_read (sint ebx) ecx (sint edx) interrupts s of
           Done (r, s', rest) \<Rightarrow> Back (of_int r) (iret s s') rest | Blocked \<Rightarrow> Lost | Fault \<Rightarrow> Lost)
      else if eax = 4 then back_outcome s interrupts (sys_write (sint ebx) ecx (sint edx) s)
      else if eax = 5 then back_outcome s interrupts (sys_open ebx s)
      else if eax = 6 then back_outcome s interrupts (Done (sys_close (sint ebx) s))
      else if eax = 7 then back_outcome s interrupts (getargs ebx (sint ecx) s)
      else if eax = 8 then back_outcome s interrupts (Done (vidmap ebx s))
      else if eax = 9 then Back (of_int (set_handler (sint ebx) ecx)) s interrupts
      else Back (of_int sigreturn) s interrupts)"

section \<open>Programs\<close>

text \<open>A program runs on the state of the machine and the interrupts that will come; \<open>None\<close> says that
  it does not get to its end.\<close>

type_synonym 's world = "'s \<times> ('s \<Rightarrow> 's) list"
type_synonym ('s, 'r) program = "'s world \<Rightarrow> ('r \<times> 's world) option"

definition gives :: "'r \<Rightarrow> ('s, 'r) program" where
  "gives r w = Some (r, w)"

definition seq :: "('s, 'r) program \<Rightarrow> ('r \<Rightarrow> ('s, 't) program) \<Rightarrow> ('s, 't) program" where
  "seq p k w = Option.bind (p w) (\<lambda>(r, w). k r w)"

definition whenever :: "bool \<Rightarrow> ('s, unit) program \<Rightarrow> ('s, unit) program" where
  "whenever b p = (if b then p else gives ())"

text \<open>An expression that reads the memory of the program, which may be a loop that does not end, and
  an assignment.\<close>

definition reads :: "(mem \<Rightarrow> 'r) \<Rightarrow> ('a machine_scheme, 'r) program" where
  "reads f w = Some (f (mem (fst w)), w)"

definition computes :: "(mem \<Rightarrow> 'r option) \<Rightarrow> ('a machine_scheme, 'r) program" where
  "computes f w = map_option (\<lambda>r. (r, w)) (f (mem (fst w)))"

definition assigns :: "(mem \<Rightarrow> mem) \<Rightarrow> ('a machine_scheme, unit) program" where
  "assigns f w = Some ((), ((fst w)\<lparr>mem := f (mem (fst w))\<rparr>, snd w))"

lemma seq_mono [partial_function_mono]:
  assumes "\<And>w. mono_option (\<lambda>f. p f w)" and "\<And>r w. mono_option (\<lambda>f. k f r w)"
  shows "mono_option (\<lambda>f. seq (p f) (k f) w)"
  unfolding seq_def by (intro bind_mono assms(1)) (simp add: case_prod_beta assms(2))

lemma if_program_mono [partial_function_mono]:
  "mono_option (\<lambda>f. p f w) \<Longrightarrow> mono_option (\<lambda>f. q f w) \<Longrightarrow> mono_option (\<lambda>f. (if b then p f else q f) w)"
  by (cases b) simp_all

section \<open>The wrappers\<close>

text \<open>\<open>DO_CALL\<close>: the number goes into EAX, up to three arguments into the other registers.\<close>

definition do_call :: "u32 \<Rightarrow> u32 \<Rightarrow> u32 \<Rightarrow> u32 \<Rightarrow> ('a process_scheme, int) program" where
  "do_call number ebx ecx edx w =
     (case system_calls_assembly number ebx ecx edx (snd w) (fst w) of
        Back r s rest \<Rightarrow> Some (sint r, (s, rest)) | Away c \<Rightarrow> None | Lost \<Rightarrow> None)"

definition ece391_read :: "int \<Rightarrow> u32 \<Rightarrow> int \<Rightarrow> ('a process_scheme, int) program" where
  "ece391_read fd buf nbytes = do_call 3 (of_int fd) buf (of_int nbytes)"

definition ece391_write :: "int \<Rightarrow> u32 \<Rightarrow> int \<Rightarrow> ('a process_scheme, int) program" where
  "ece391_write fd buf nbytes = do_call 4 (of_int fd) buf (of_int nbytes)"

definition ece391_open :: "u32 \<Rightarrow> ('a process_scheme, int) program" where
  "ece391_open filename = do_call 5 filename 0 0"

definition ece391_close :: "int \<Rightarrow> ('a process_scheme, int) program" where
  "ece391_close fd = do_call 6 (of_int fd) 0 0"

definition ece391_getargs :: "u32 \<Rightarrow> int \<Rightarrow> ('a process_scheme, int) program" where
  "ece391_getargs buf nbytes = do_call 7 buf (of_int nbytes) 0"

definition ece391_vidmap :: "u32 \<Rightarrow> ('a process_scheme, int) program" where
  "ece391_vidmap screen_start = do_call 8 screen_start 0 0"

text \<open>\<open>child\<close> says what becomes of the program that the kernel enters: the value with which it halts,
  and the state in which its parent goes on.\<close>

type_synonym 's child = "'s control \<Rightarrow> ('s \<Rightarrow> 's) list \<Rightarrow> (u8 \<times> 's world) option"

definition ece391_execute :: "'a process_scheme child \<Rightarrow> u32 \<Rightarrow> ('a process_scheme, int) program" where
  "ece391_execute child command w =
     (case system_calls_assembly 2 command 0 0 (snd w) (fst w) of
        Back r s rest \<Rightarrow> Some (sint r, (s, rest))
      | Away c \<Rightarrow> map_option (\<lambda>(status, w). (uint status, w)) (child c (snd w))
      | Lost \<Rightarrow> None)"

text \<open>\<open>_start\<close>: the value of \<open>main\<close> is the status with which the process halts.\<close>

definition start :: "('a process_scheme, int) program \<Rightarrow> 'a process_scheme world \<Rightarrow> 'a process_scheme sys_result" where
  "start main w =
     (case main w of None \<Rightarrow> Lost | Some (r, w) \<Rightarrow> system_calls_assembly 1 (of_int r) 0 0 (snd w) (fst w))"

section \<open>Laws\<close>

lemma seq_gives [simp]: "seq (gives r) k = k r"
  by (rule ext) (simp add: seq_def gives_def)

lemma seq_Some: "p w = Some (r, w') \<Longrightarrow> seq p k w = k r w'"
  by (simp add: seq_def)

lemma seq_reads [simp]: "seq (reads f) k w = k (f (mem (fst w))) w"
  by (simp add: seq_def reads_def)

lemma seq_computes: "f (mem (fst w)) = Some r \<Longrightarrow> seq (computes f) k w = k r w"
  by (simp add: seq_def computes_def)

lemma seq_assigns [simp]: "seq (assigns f) k w = k () ((fst w)\<lparr>mem := f (mem (fst w))\<rparr>, snd w)"
  by (simp add: seq_def assigns_def)

lemma seq_assoc: "seq (seq p k) l = seq p (\<lambda>r. seq (k r) l)"
  by (rule ext) (simp add: seq_def case_prod_unfold)

end
