(* ===== verification/User_Lib.thy ===== *)
theory User_Lib
  imports Syscall Lib_String
begin

text \<open>
  The library of the user programs, \<open>syscalls/ece391support.c\<close>. Its string routines are written
  differently from those of the kernel, with pointers that move; they compute the same but for the
  sign of the bytes in \<open>strncmp\<close>.
\<close>

section \<open>Strings\<close>

partial_function (option) ece391_strlen_loop :: "mem \<Rightarrow> u32 \<Rightarrow> u32 \<Rightarrow> u32 option" where
  "ece391_strlen_loop m s len = (if m s \<noteq> 0 then ece391_strlen_loop m (s + 1) (len + 1) else Some len)"

definition ece391_strlen :: "mem \<Rightarrow> u32 \<Rightarrow> u32 option" where
  "ece391_strlen m s = ece391_strlen_loop m s 0"

text \<open>The condition of the loop does the assignment and tests the byte assigned.\<close>

partial_function (option) ece391_strcpy :: "mem \<Rightarrow> u32 \<Rightarrow> u32 \<Rightarrow> mem option" where
  "ece391_strcpy m dst src =
     (if m src \<noteq> 0 then ece391_strcpy (m(dst := m src)) (dst + 1) (src + 1) else Some (m(dst := m src)))"

text \<open>The bytes are \<open>uint8_t\<close>.\<close>

partial_function (option) ece391_strcmp :: "mem \<Rightarrow> u32 \<Rightarrow> u32 \<Rightarrow> int option" where
  "ece391_strcmp m s1 s2 =
     (if m s1 = m s2 then (if m s1 = 0 then Some 0 else ece391_strcmp m (s1 + 1) (s2 + 1))
      else Some (uint (m s1) - uint (m s2)))"

function ece391_strncmp_loop :: "mem \<Rightarrow> u32 \<Rightarrow> u32 \<Rightarrow> u32 \<Rightarrow> int" where
  "ece391_strncmp_loop m s1 s2 n =
     (if m s1 = m s2 then (if m s1 = 0 \<or> n - 1 = 0 then 0 else ece391_strncmp_loop m (s1 + 1) (s2 + 1) (n - 1))
      else uint (m s1) - uint (m s2))"
  by pat_completeness auto
termination
  by (relation "measure (\<lambda>(m, s1, s2, n). unat (n - 1))") (auto simp: unat_dec_less [of "n - 1" for n, simplified])

declare ece391_strncmp_loop.simps [simp del]

definition ece391_strncmp :: "mem \<Rightarrow> u32 \<Rightarrow> u32 \<Rightarrow> u32 \<Rightarrow> int" where
  "ece391_strncmp m s1 s2 n = (if n = 0 then 0 else ece391_strncmp_loop m s1 s2 n)"

function ece391_strrev_loop :: "mem \<Rightarrow> u32 \<Rightarrow> int \<Rightarrow> int \<Rightarrow> mem" where
  "ece391_strrev_loop m s beg en =
     (if beg < en then
        (let tmp = m (s + of_int en);
             m1 = m(s + of_int en := m (s + of_int beg));
             m2 = m1(s + of_int beg := tmp)
         in ece391_strrev_loop m2 s (beg + 1) (en - 1))
      else m)"
  by pat_completeness auto
termination by (relation "measure (\<lambda>(m, s, beg, en). nat (en - beg))") auto

declare ece391_strrev_loop.simps [simp del]

definition ece391_strrev :: "mem \<Rightarrow> u32 \<Rightarrow> mem option" where
  "ece391_strrev m s =
     (case ece391_strlen m s of None \<Rightarrow> None
      | Some len \<Rightarrow> (let en = sint (len - 1) in if en \<le> 0 then Some m else Some (ece391_strrev_loop m s 0 en)))"

section \<open>Numbers\<close>

text \<open>The digits of the table \<open>lookup\<close> and its NUL.\<close>

definition ece391_lookup :: "u8 list" where
  "ece391_lookup = map of_char ''0123456789ABCDEFGHIJKLMNOPQRSTUVWXYZ'' @ [0]"

partial_function (option) ece391_itoa_loop :: "mem \<Rightarrow> u32 \<Rightarrow> u32 \<Rightarrow> u32 \<Rightarrow> (mem \<times> u32) option" where
  "ece391_itoa_loop m newval newbuf radix =
     (if newval > 0 then
        (if radix = 0 \<or> unat (newval mod radix) \<ge> length ece391_lookup then None
         else ece391_itoa_loop (m(newbuf := ece391_lookup ! unat (newval mod radix)))
                (newval div radix) (newbuf + 1) radix)
      else Some (m, newbuf))"

definition ece391_itoa :: "mem \<Rightarrow> u32 \<Rightarrow> u32 \<Rightarrow> u32 \<Rightarrow> mem option" where
  "ece391_itoa m val buf radix =
     (if val = 0 then Some (m(buf := 48, buf + 1 := 0))
      else case ece391_itoa_loop m val buf radix of
             None \<Rightarrow> None
           | Some (m', newbuf) \<Rightarrow> ece391_strrev (m'(newbuf := 0)) buf)"

section \<open>Output\<close>

definition ece391_fdputs :: "int \<Rightarrow> u32 \<Rightarrow> ('a process_scheme, unit) program" where
  "ece391_fdputs fd s =
     seq (computes (\<lambda>m. ece391_strlen m s)) (\<lambda>n. seq (ece391_write fd s (sint n)) (\<lambda>_. gives ()))"

section \<open>Agreement with the library of the kernel\<close>

text \<open>Two partial functions agree when each has a result wherever the other has it.\<close>

lemma option_eqI: "(\<And>y. f = Some y \<Longrightarrow> g = Some y) \<Longrightarrow> (\<And>y. g = Some y \<Longrightarrow> f = Some y) \<Longrightarrow> f = g"
  by (cases f; cases g) auto

lemma ece391_strlen_eq: "ece391_strlen m s = strlen m s"
proof -
  have "ece391_strlen_loop m (s + len) len = Some y" if "strlen_loop m s len = Some y" for y m s len
  proof (rule strlen_loop.raw_induct [where P = "\<lambda>m s len y. ece391_strlen_loop m (s + len) len = Some y", OF _ that])
    show "ece391_strlen_loop m (s + len) len = Some y"
      if "\<And>m s len y. f m s len = Some y \<Longrightarrow> ece391_strlen_loop m (s + len) len = Some y"
        "(if m (s + len) \<noteq> 0 then f m s (len + 1) else Some len) = Some y" for f m s len y
      using that(2) that(1) [of m s "len + 1" y]
      by (subst ece391_strlen_loop.simps) (auto simp: add.assoc split: if_splits)
  qed
  moreover have "strlen_loop m (a - len) len = Some y" if "ece391_strlen_loop m a len = Some y" for y m a len
  proof (rule ece391_strlen_loop.raw_induct [where P = "\<lambda>m a len y. strlen_loop m (a - len) len = Some y", OF _ that])
    show "strlen_loop m (a - len) len = Some y"
      if "\<And>m a len y. f m a len = Some y \<Longrightarrow> strlen_loop m (a - len) len = Some y"
        "(if m a \<noteq> 0 then f m (a + 1) (len + 1) else Some len) = Some y" for f m a len y
      using that(2) that(1) [of m "a + 1" "len + 1" y]
      by (subst strlen_loop.simps) (auto split: if_splits)
  qed
  ultimately show ?thesis
    unfolding ece391_strlen_def strlen_def by (metis option_eqI add_0_right diff_zero)
qed

lemma ece391_strcpy_eq: "ece391_strcpy m dst src = strcpy m dst src"
proof -
  have "ece391_strcpy m (dst + i) (src + i) = Some y" if "strcpy_loop m dst src i = Some y" for y m dst src i
  proof (rule strcpy_loop.raw_induct
      [where P = "\<lambda>m dst src i y. ece391_strcpy m (dst + i) (src + i) = Some y", OF _ that])
    show "ece391_strcpy m (dst + i) (src + i) = Some y"
      if "\<And>m dst src i y. f m dst src i = Some y \<Longrightarrow> ece391_strcpy m (dst + i) (src + i) = Some y"
        "(if m (src + i) \<noteq> 0 then f (m(dst + i := m (src + i))) dst src (i + 1) else Some (m(dst + i := 0))) = Some y"
      for f m dst src i y
      using that(2) that(1) [of "m(dst + i := m (src + i))" dst src "i + 1" y]
      by (subst ece391_strcpy.simps) (auto simp: add.assoc split: if_splits)
  qed
  moreover have "\<forall>i. strcpy_loop m (a - i) (b - i) i = Some y" if "ece391_strcpy m a b = Some y" for y m a b
  proof (rule ece391_strcpy.raw_induct
      [where P = "\<lambda>m a b y. \<forall>i. strcpy_loop m (a - i) (b - i) i = Some y", OF _ that])
    show "\<forall>i. strcpy_loop m (a - i) (b - i) i = Some y"
      if "\<And>m a b y. f m a b = Some y \<Longrightarrow> \<forall>i. strcpy_loop m (a - i) (b - i) i = Some y"
        "(if m b \<noteq> 0 then f (m(a := m b)) (a + 1) (b + 1) else Some (m(a := m b))) = Some y" for f m a b y
    proof
      show "strcpy_loop m (a - i) (b - i) i = Some y" for i
        using that(2) that(1) [of "m(a := m b)" "a + 1" "b + 1" y]
        by (subst strcpy_loop.simps) (auto split: if_splits dest: spec [of _ "i + 1"])
    qed
  qed
  ultimately show ?thesis
    unfolding strcpy_def by (metis option_eqI add_0_right diff_zero)
qed

lemma ece391_strrev_loop_eq: "ece391_strrev_loop m s b e = strrev_loop m s b e"
proof (induction m s b e rule: strrev_loop.induct)
  case (1 m s b e)
  show ?case
  proof (cases "b < e")
    case True
    from 1 [OF True refl refl refl] show ?thesis
      by (subst ece391_strrev_loop.simps, subst strrev_loop.simps) (simp only: Let_def True if_True)
  qed (subst ece391_strrev_loop.simps, subst strrev_loop.simps, simp)
qed

lemma ece391_strrev_eq: "ece391_strrev m s = strrev m s"
  by (auto simp: ece391_strrev_def strrev_def ece391_strlen_eq ece391_strrev_loop_eq Let_def strrev_loop.simps
      split: option.splits)

lemma ece391_itoa_loop_eq: "ece391_itoa_loop m v b r = itoa_loop m v b r"
proof (rule option_eqI)
  have lookup: "ece391_lookup = itoa_lookup" by (simp add: ece391_lookup_def itoa_lookup_def)
  show "itoa_loop m v b r = Some y" if "ece391_itoa_loop m v b r = Some y" for y
  proof (rule ece391_itoa_loop.raw_induct [where P = "\<lambda>m v b r y. itoa_loop m v b r = Some y", OF _ that])
    show "itoa_loop m v b r = Some y"
      if "\<And>m v b r y. f m v b r = Some y \<Longrightarrow> itoa_loop m v b r = Some y"
        "(if 0 < v then if r = 0 \<or> length ece391_lookup \<le> unat (v mod r) then None
          else f (m(b := ece391_lookup ! unat (v mod r))) (v div r) (b + 1) r else Some (m, b)) = Some y" for f m v b r y
      using that(2) that(1) by (subst itoa_loop.simps) (simp add: lookup split: if_splits)
  qed
  show "ece391_itoa_loop m v b r = Some y" if "itoa_loop m v b r = Some y" for y
  proof (rule itoa_loop.raw_induct [where P = "\<lambda>m v b r y. ece391_itoa_loop m v b r = Some y", OF _ that])
    show "ece391_itoa_loop m v b r = Some y"
      if "\<And>m v b r y. f m v b r = Some y \<Longrightarrow> ece391_itoa_loop m v b r = Some y"
        "(if 0 < v then if r = 0 \<or> length itoa_lookup \<le> unat (v mod r) then None
          else f (m(b := itoa_lookup ! unat (v mod r))) (v div r) (b + 1) r else Some (m, b)) = Some y" for f m v b r y
      using that(2) that(1) by (subst ece391_itoa_loop.simps) (simp add: lookup split: if_splits)
  qed
qed

lemma ece391_itoa_eq: "ece391_itoa m v buf r = itoa m v buf r"
  by (auto simp: ece391_itoa_def itoa_def ece391_itoa_loop_eq ece391_strrev_eq split: option.splits)

text \<open>The comparison up to \<open>n\<close> bytes or the end of the string, which \<open>strncmp_eq_0\<close> states for the
  kernel's routine.\<close>

lemma str_prefix_0: "str_prefix m a 0 = []"
  by (simp add: str_prefix_def)

lemma ece391_strncmp_loop_eq:
  "0 < n \<Longrightarrow> (ece391_strncmp_loop m a b n = 0) = (str_prefix m a (unat n) = str_prefix m b (unat n))"
proof (induction m a b n rule: ece391_strncmp_loop.induct)
  case (1 m a b n)
  then have "n \<noteq> 0" by auto
  then have n: "unat n = Suc (unat (n - 1))" using unat_dec [of n] by simp
  show ?case
  proof (cases "m a = m b \<and> m a \<noteq> 0 \<and> n - 1 \<noteq> 0")
    case True
    then have "0 < n - 1" by (simp only: word_neq_0_conv)
    then show ?thesis using 1(1) True
      by (subst ece391_strncmp_loop.simps) (simp add: n str_prefix_Suc)
  next
    case False
    have "(uint (m a) - uint (m b) = 0) = (m a = m b)" by (simp add: word_uint_eq_iff)
    moreover have "unat (n - 1) = 0" if "n - 1 = 0" using that by (simp only:) simp
    ultimately show ?thesis using False
      by (subst ece391_strncmp_loop.simps) (auto simp: n str_prefix_Suc str_prefix_0)
  qed
qed

lemma ece391_strncmp_zero: "(ece391_strncmp m a b n = 0) = (strncmp m a b n = 0)"
  by (auto simp: ece391_strncmp_def strncmp_eq_0 ece391_strncmp_loop_eq word_neq_0_conv str_prefix_0)

text \<open>Comparing strings that end.\<close>

lemma ece391_strcmp_eq:
  "str_at m a xs \<Longrightarrow> str_at m b ys \<Longrightarrow> \<exists>d. ece391_strcmp m a b = Some d \<and> (d = 0 \<longleftrightarrow> xs = ys)"
proof (induction xs arbitrary: a b ys)
  case Nil
  then show ?case by (subst ece391_strcmp.simps) (cases ys, auto simp: str_at_Nil str_at_Cons word_uint_eq_iff)
next
  case (Cons x xs)
  show ?case
  proof (cases ys)
    case Nil
    then show ?thesis using Cons.prems by (subst ece391_strcmp.simps) (auto simp: str_at_Nil str_at_Cons word_uint_eq_iff)
  next
    case ys: (Cons y zs)
    show ?thesis
    proof (cases "x = y")
      case True
      then show ?thesis using Cons ys by (subst ece391_strcmp.simps) (simp add: str_at_Cons)
    next
      case False
      then show ?thesis using Cons.prems ys
        by (subst ece391_strcmp.simps) (simp add: str_at_Cons word_uint_eq_iff)
    qed
  qed
qed

text \<open>The position at which a comparison of at most \<open>n\<close> bytes stops: the first one where the strings
  differ or end. Both routines return the difference of the bytes there, as numbers of their type.\<close>

definition stop_position :: "mem \<Rightarrow> u32 \<Rightarrow> u32 \<Rightarrow> nat \<Rightarrow> nat option" where
  "stop_position m s t n = List.find (\<lambda>i. m (s + of_nat i) \<noteq> m (t + of_nat i) \<or> m (s + of_nat i) = 0) [0..<n]"

definition byte_difference :: "(u8 \<Rightarrow> int) \<Rightarrow> mem \<Rightarrow> u32 \<Rightarrow> u32 \<Rightarrow> nat option \<Rightarrow> int" where
  "byte_difference val m s t p =
     (case p of None \<Rightarrow> 0 | Some i \<Rightarrow> val (m (s + of_nat i)) - val (m (t + of_nat i)))"

lemma find_map: "List.find P (map f xs) = map_option f (List.find (P \<circ> f) xs)"
  by (induction xs) simp_all

lemma stop_position_Suc:
  "stop_position m s t (Suc n) =
     (if m s \<noteq> m t \<or> m s = 0 then Some 0 else map_option Suc (stop_position m (s + 1) (t + 1) n))"
proof -
  have "[0..<Suc n] = 0 # map Suc [0..<n]" by (simp add: upt_conv_Cons map_Suc_upt del: upt_Suc)
  then show ?thesis
    by (simp add: stop_position_def find_map comp_def add.assoc del: upt_Suc)
qed

lemma stop_position_0: "stop_position m s t 0 = None"
  by (simp add: stop_position_def)

lemma byte_difference_simps:
  "byte_difference val m s t None = 0"
  "byte_difference val m s t (Some 0) = val (m s) - val (m t)"
  "byte_difference val m s t (map_option Suc p) = byte_difference val m (s + 1) (t + 1) p"
  by (simp_all add: byte_difference_def add.assoc split: option.split)

lemma strncmp_loop_difference:
  "i \<le> n \<Longrightarrow> strncmp_loop m s t n i
     = byte_difference sint m (s + i) (t + i) (stop_position m (s + i) (t + i) (unat n - unat i))"
proof (induction m s t n i rule: strncmp_loop.induct)
  case (1 m s t n i)
  show ?case
  proof (cases "i < n")
    case True
    then have inc: "unat (i + 1) = Suc (unat i)" by (rule unat_inc_less)
    have lt: "unat i < unat n" using True by (simp add: word_less_nat_alt)
    then have le: "i + 1 \<le> n" by (simp add: word_le_nat_alt inc)
    have d: "unat n - unat i = Suc (unat n - unat (i + 1))" using lt inc by simp
    show ?thesis
      using 1(1) [OF True _ le] True
      by (subst strncmp_loop.simps) (simp add: d stop_position_Suc byte_difference_simps add.assoc)
  next
    case False
    with 1(2) show ?thesis by (simp add: strncmp_loop.simps stop_position_0 byte_difference_simps)
  qed
qed

lemma ece391_strncmp_loop_difference:
  "0 < n \<Longrightarrow> ece391_strncmp_loop m a b n = byte_difference uint m a b (stop_position m a b (unat n))"
proof (induction m a b n rule: ece391_strncmp_loop.induct)
  case (1 m a b n)
  then have "n \<noteq> 0" by auto
  then have n: "unat n = Suc (unat (n - 1))" using unat_dec [of n] by simp
  show ?case
  proof (cases "m a = m b \<and> m a \<noteq> 0 \<and> n - 1 \<noteq> 0")
    case True
    then have "0 < n - 1" by (simp only: word_neq_0_conv)
    then show ?thesis using 1(1) True
      by (subst ece391_strncmp_loop.simps) (simp add: n stop_position_Suc byte_difference_simps)
  next
    case False
    have "unat (n - 1) = 0" if "n - 1 = 0" using that by (simp only:) simp
    then show ?thesis using False
      by (subst ece391_strncmp_loop.simps)
        (auto simp: n stop_position_Suc byte_difference_simps stop_position_0)
  qed
qed

text \<open>C24. The string library of the programs against that of the kernel. The length and the copy
  are equal for every memory and every argument, also where the call does not return. The bounded
  comparisons stop at the same position, the first one where the strings differ or end, and return 0
  for the same strings; but the library takes the bytes there as unsigned and the kernel as signed,
  so the values differ, and the signs too, where one of the bytes is above 127.\<close>

theorem libraries_agree:
  "ece391_strlen m s = strlen m s \<and> ece391_strcpy m dst s = strcpy m dst s
    \<and> ece391_strncmp m s t n = byte_difference uint m s t (stop_position m s t (unat n))
    \<and> strncmp m s t n = byte_difference sint m s t (stop_position m s t (unat n))
    \<and> (ece391_strncmp m s t n = 0 \<longleftrightarrow> strncmp m s t n = 0)"
proof -
  have "strncmp m s t n = byte_difference sint m s t (stop_position m s t (unat n))"
    using strncmp_loop_difference [of 0 n m s t] by (simp add: strncmp_def)
  moreover have "ece391_strncmp m s t n = byte_difference uint m s t (stop_position m s t (unat n))"
    using ece391_strncmp_loop_difference [of n m s t]
    by (simp add: ece391_strncmp_def word_neq_0_conv stop_position_0 byte_difference_simps)
  ultimately show ?thesis
    by (intro conjI) (rule ece391_strlen_eq ece391_strcpy_eq ece391_strncmp_zero | assumption)+
qed

end
