(* ===== verification/User_Programs.thy ===== *)
theory User_Programs
  imports User_Lib
begin

text \<open>
  The user programs of \<open>syscalls\<close>: \<open>ece391testprint.c\<close>, \<open>ece391hello.c\<close>, \<open>ece391ls.c\<close>, \<open>ece391cat.c\<close>,
  \<open>ece391counter.c\<close>, \<open>ece391shell.c\<close>, \<open>ece391grep.c\<close> and \<open>ece391syserr.c\<close>, as sequences of system
  calls. The addresses of the local arrays are parameters, and \<open>str\<close> gives where the compiler has
  put each string literal.
\<close>

section \<open>testprint and hello\<close>

definition testprint_main :: "(string \<Rightarrow> u32) \<Rightarrow> ('a process_scheme, int) program" where
  "testprint_main str =
     seq (ece391_fdputs 1 (str (''Hello, if this ran, the program was correct. Yay!'' @ [CHR 0x0A]))) (\<lambda>_. gives 0)"

definition hello_main :: "(string \<Rightarrow> u32) \<Rightarrow> u32 \<Rightarrow> ('a process_scheme, int) program" where
  "hello_main str buf =
     seq (ece391_fdputs 1 (str ''Hi, what's your name? '')) (\<lambda>_.
     seq (ece391_read 0 buf (1024 - 1)) (\<lambda>cnt.
     if cnt = -1 then seq (ece391_fdputs 1 (str (''Can't read name from keyboard.'' @ [CHR 0x0A]))) (\<lambda>_. gives 3)
     else
       seq (assigns (\<lambda>m. m(buf + of_int cnt := 0))) (\<lambda>_.
       seq (ece391_fdputs 1 (str ''Hello, '')) (\<lambda>_.
       seq (ece391_fdputs 1 buf) (\<lambda>_. gives 0)))))"

section \<open>ls\<close>

partial_function (option) ls_loop ::
    "(string \<Rightarrow> u32) \<Rightarrow> u32 \<Rightarrow> int \<Rightarrow> 'a process_scheme world \<Rightarrow> (int \<times> 'a process_scheme world) option" where
  "ls_loop str buf fd w =
     seq (ece391_read fd buf (33 - 1)) (\<lambda>cnt.
     if cnt = 0 then gives 0
     else if cnt = -1 then
       seq (ece391_fdputs 1 (str (''directory entry read failed'' @ [CHR 0x0A]))) (\<lambda>_. gives 3)
     else
       seq (assigns (\<lambda>m. m(buf + of_int cnt := 10))) (\<lambda>_.
       seq (ece391_write 1 buf (cnt + 1)) (\<lambda>r.
       if r = -1 then gives 3 else ls_loop str buf fd))) w"

definition ls_main :: "(string \<Rightarrow> u32) \<Rightarrow> u32 \<Rightarrow> ('a process_scheme, int) program" where
  "ls_main str buf =
     seq (ece391_open (str ''.'')) (\<lambda>fd.
     if fd = -1 then seq (ece391_fdputs 1 (str (''directory open failed'' @ [CHR 0x0A]))) (\<lambda>_. gives 2)
     else ls_loop str buf fd)"

section \<open>cat\<close>

partial_function (option) cat_loop ::
    "(string \<Rightarrow> u32) \<Rightarrow> u32 \<Rightarrow> int \<Rightarrow> 'a process_scheme world \<Rightarrow> (int \<times> 'a process_scheme world) option" where
  "cat_loop str buf fd w =
     seq (ece391_read fd buf 1024) (\<lambda>cnt.
     if cnt = 0 then gives 0
     else if cnt = -1 then seq (ece391_fdputs 1 (str (''file read failed'' @ [CHR 0x0A]))) (\<lambda>_. gives 3)
     else seq (ece391_write 1 buf cnt) (\<lambda>r. if r = -1 then gives 3 else cat_loop str buf fd)) w"

definition cat_main :: "(string \<Rightarrow> u32) \<Rightarrow> u32 \<Rightarrow> ('a process_scheme, int) program" where
  "cat_main str buf =
     seq (ece391_getargs buf 1024) (\<lambda>r.
     if r \<noteq> 0 then seq (ece391_fdputs 1 (str (''could not read arguments'' @ [CHR 0x0A]))) (\<lambda>_. gives 3)
     else
       seq (ece391_open buf) (\<lambda>fd.
       if fd = -1 then seq (ece391_fdputs 1 (str (''file not found'' @ [CHR 0x0A]))) (\<lambda>_. gives 2)
       else cat_loop str buf fd))"

section \<open>counter\<close>

definition updates :: "(mem \<Rightarrow> mem option) \<Rightarrow> ('a machine_scheme, unit) program" where
  "updates f w = map_option (\<lambda>m. ((), ((fst w)\<lparr>mem := m\<rparr>, snd w))) (f (mem (fst w)))"

text \<open>The loop from \<open>i\<close> on, with \<open>n\<close> rounds to go.\<close>

fun counter_loop :: "(string \<Rightarrow> u32) \<Rightarrow> u32 \<Rightarrow> u32 \<Rightarrow> nat \<Rightarrow> ('a process_scheme, unit) program" where
  "counter_loop str buf i 0 = gives ()"
| "counter_loop str buf i (Suc n) =
     seq (updates (\<lambda>m. ece391_itoa m (i + 1) buf 10)) (\<lambda>_.
     seq (ece391_fdputs 1 buf) (\<lambda>_.
     seq (ece391_fdputs 1 (str [CHR 0x0A])) (\<lambda>_. counter_loop str buf (i + 1) n)))"

definition counter_max :: "u8 \<Rightarrow> nat" where
  "counter_max c = (if c = 48 then 100 else if c = 49 then 10000 else if c = 50 then 100000 else 0)"

definition counter_main :: "(string \<Rightarrow> u32) \<Rightarrow> u32 \<Rightarrow> ('a process_scheme, int) program" where
  "counter_main str buf =
     seq (ece391_fdputs 1 (str (''Enter the Test Number: (0): 100, (1): 10000, (2): 100000'' @ [CHR 0x0A]))) (\<lambda>_.
     seq (ece391_read 0 buf (1024 - 1)) (\<lambda>cnt.
     if cnt = -1 then seq (ece391_fdputs 1 (str (''Can't read the number from keyboard.'' @ [CHR 0x0A]))) (\<lambda>_. gives 3)
     else
       seq (assigns (\<lambda>m. m(buf + of_int cnt := 0))) (\<lambda>_.
       seq (computes (\<lambda>m. ece391_strlen m buf)) (\<lambda>len.
       seq (reads (\<lambda>m. m buf)) (\<lambda>c.
       if len > 2 \<or> (len = 2 \<and> (c < 48 \<or> c > 50)) then
         seq (ece391_fdputs 1 (str (''Wrong Choice!'' @ [CHR 0x0A]))) (\<lambda>_. gives 0)
       else seq (counter_loop str buf 0 (counter_max c)) (\<lambda>_. gives 0))))))"

section \<open>shell\<close>

definition shell_report :: "(string \<Rightarrow> u32) \<Rightarrow> int \<Rightarrow> ('a process_scheme, unit) program" where
  "shell_report str rval =
     (if rval = -1 then ece391_fdputs 1 (str (''no such command'' @ [CHR 0x0A]))
      else if rval = 256 then ece391_fdputs 1 (str (''program terminated by exception'' @ [CHR 0x0A]))
      else if rval \<noteq> 0 then ece391_fdputs 1 (str (''program terminated abnormally'' @ [CHR 0x0A]))
      else gives ())"

partial_function (option) shell_loop ::
    "'a process_scheme child \<Rightarrow> (string \<Rightarrow> u32) \<Rightarrow> u32 \<Rightarrow> 'a process_scheme world \<Rightarrow>
     (int \<times> 'a process_scheme world) option" where
  "shell_loop child str buf w =
     seq (ece391_fdputs 1 (str ''391OS> '')) (\<lambda>_.
     seq (ece391_read 0 buf (1024 - 1)) (\<lambda>cnt.
     if cnt = -1 then seq (ece391_fdputs 1 (str (''read from keyboard failed'' @ [CHR 0x0A]))) (\<lambda>_. gives 3)
     else
       seq (reads (\<lambda>m. if cnt > 0 \<and> m (buf + of_int (cnt - 1)) = 10 then cnt - 1 else cnt)) (\<lambda>cnt.
       seq (assigns (\<lambda>m. m(buf + of_int cnt := 0))) (\<lambda>_.
       seq (computes (\<lambda>m. ece391_strcmp m buf (str ''exit''))) (\<lambda>differ.
       if differ = 0 then gives 0
       else
         seq (reads (\<lambda>m. m buf)) (\<lambda>c.
         if c = 0 then shell_loop child str buf
         else
           seq (ece391_execute child buf) (\<lambda>rval.
           seq (shell_report str rval) (\<lambda>_. shell_loop child str buf)))))))) w"

definition shell_main :: "'a process_scheme child \<Rightarrow> (string \<Rightarrow> u32) \<Rightarrow> u32 \<Rightarrow> ('a process_scheme, int) program" where
  "shell_main child str buf =
     seq (ece391_fdputs 1 (str (''Starting 391 Shell'' @ [CHR 0x0A]))) (\<lambda>_. shell_loop child str buf)"

section \<open>grep\<close>

text \<open>The search for the end of a line; \<open>filled\<close> is the variable \<open>last\<close> of the source.\<close>

function line_end_loop :: "mem \<Rightarrow> u32 \<Rightarrow> int \<Rightarrow> int \<Rightarrow> int" where
  "line_end_loop m data filled line_end =
     (if line_end < filled \<and> m (data + of_int line_end) \<noteq> 10 then line_end_loop m data filled (line_end + 1)
      else line_end)"
  by pat_completeness auto
termination by (relation "measure (\<lambda>(m, data, filled, line_end). nat (filled - line_end))") auto

declare line_end_loop.simps [simp del]

text \<open>The search for the pattern, from \<open>check\<close> on with \<open>n\<close> positions to go. \<open>s\<close> is a \<open>char *\<close>, so its
  first byte is compared as a signed number.\<close>

fun grep_check :: "(string \<Rightarrow> u32) \<Rightarrow> u32 \<Rightarrow> u32 \<Rightarrow> u32 \<Rightarrow> int \<Rightarrow> int \<Rightarrow> int \<Rightarrow> nat \<Rightarrow> ('a process_scheme, unit) program" where
  "grep_check str s fname data s_len line_start check 0 = gives ()"
| "grep_check str s fname data s_len line_start check (Suc n) =
     seq (reads (\<lambda>m. sint (m s) = uint (m (data + of_int check))
           \<and> ece391_strncmp m (data + of_int check) s (of_int s_len) = 0)) (\<lambda>found.
     if found then
       seq (ece391_fdputs 1 fname) (\<lambda>_.
       seq (ece391_fdputs 1 (str '':'')) (\<lambda>_.
       seq (ece391_fdputs 1 (data + of_int line_start)) (\<lambda>_. ece391_fdputs 1 (str [CHR 0x0A]))))
     else grep_check str s fname data s_len line_start (check + 1) n)"

text \<open>The loop over the lines of the buffer; its value is the new \<open>filled\<close>.\<close>

partial_function (option) grep_lines ::
    "(string \<Rightarrow> u32) \<Rightarrow> u32 \<Rightarrow> u32 \<Rightarrow> u32 \<Rightarrow> int \<Rightarrow> int \<Rightarrow> int \<Rightarrow> int \<Rightarrow> 'a process_scheme world \<Rightarrow>
     (int \<times> 'a process_scheme world) option" where
  "grep_lines str s fname data s_len cnt filled line_start w =
     seq (reads (\<lambda>m. line_end_loop m data filled line_start)) (\<lambda>line_end.
     seq (reads (\<lambda>m. m (data + of_int line_end))) (\<lambda>c.
     if c \<noteq> 10 \<and> cnt \<noteq> 0 \<and> line_start \<noteq> 0 then
       seq (assigns (\<lambda>m. m(data + of_int line_end := 0))) (\<lambda>_.
       seq (updates (\<lambda>m. ece391_strcpy m data (data + of_int line_start))) (\<lambda>_. gives (filled - line_start)))
     else
       seq (assigns (\<lambda>m. m(data + of_int line_end := 0))) (\<lambda>_.
       seq (grep_check str s fname data s_len line_start line_start (nat (line_end - line_start))) (\<lambda>_.
       if line_end + 1 \<ge> filled then gives 0
       else grep_lines str s fname data s_len cnt filled (line_end + 1))))) w"

partial_function (option) grep_reads ::
    "(string \<Rightarrow> u32) \<Rightarrow> u32 \<Rightarrow> u32 \<Rightarrow> u32 \<Rightarrow> int \<Rightarrow> int \<Rightarrow> int \<Rightarrow> 'a process_scheme world \<Rightarrow>
     (int \<times> 'a process_scheme world) option" where
  "grep_reads str s fname data s_len fd filled w =
     seq (ece391_read fd (data + of_int filled) (1024 - filled)) (\<lambda>cnt.
     if cnt = -1 then seq (ece391_fdputs 1 (str (''file read failed'' @ [CHR 0x0A]))) (\<lambda>_. gives (-1))
     else
       seq (grep_lines str s fname data s_len cnt (filled + cnt) 0) (\<lambda>filled.
       if cnt = 0 then
         seq (ece391_close fd) (\<lambda>r.
         if r = -1 then seq (ece391_fdputs 1 (str (''file close failed'' @ [CHR 0x0A]))) (\<lambda>_. gives (-1))
         else gives 0)
       else grep_reads str s fname data s_len fd filled)) w"

definition do_one_file :: "(string \<Rightarrow> u32) \<Rightarrow> u32 \<Rightarrow> u32 \<Rightarrow> u32 \<Rightarrow> ('a process_scheme, int) program" where
  "do_one_file str data s fname =
     seq (computes (\<lambda>m. ece391_strlen m s)) (\<lambda>s_len.
     seq (ece391_open fname) (\<lambda>fd.
     if fd = -1 then seq (ece391_fdputs 1 (str (''file open failed'' @ [CHR 0x0A]))) (\<lambda>_. gives (-1))
     else grep_reads str s fname data (sint s_len) fd 0))"

partial_function (option) grep_loop ::
    "(string \<Rightarrow> u32) \<Rightarrow> u32 \<Rightarrow> u32 \<Rightarrow> u32 \<Rightarrow> int \<Rightarrow> 'a process_scheme world \<Rightarrow>
     (int \<times> 'a process_scheme world) option" where
  "grep_loop str buf search data fd w =
     seq (ece391_read fd buf (33 - 1)) (\<lambda>cnt.
     if cnt = 0 then gives 0
     else if cnt = -1 then
       seq (ece391_fdputs 1 (str (''directory entry read failed'' @ [CHR 0x0A]))) (\<lambda>_. gives 3)
     else
       seq (reads (\<lambda>m. m buf)) (\<lambda>c.
       if c = 46 then grep_loop str buf search data fd
       else
         seq (assigns (\<lambda>m. m(buf + of_int cnt := 0))) (\<lambda>_.
         seq (do_one_file str data search buf) (\<lambda>r.
         if r \<noteq> 0 then gives 3 else grep_loop str buf search data fd)))) w"

definition grep_main :: "(string \<Rightarrow> u32) \<Rightarrow> u32 \<Rightarrow> u32 \<Rightarrow> u32 \<Rightarrow> ('a process_scheme, int) program" where
  "grep_main str buf search data =
     seq (ece391_getargs search 1024) (\<lambda>r.
     if r \<noteq> 0 then seq (ece391_fdputs 1 (str (''could not read argument'' @ [CHR 0x0A]))) (\<lambda>_. gives 3)
     else
       seq (ece391_open (str ''.'')) (\<lambda>fd.
       if fd = -1 then seq (ece391_fdputs 1 (str (''directory open failed'' @ [CHR 0x0A]))) (\<lambda>_. gives 2)
       else grep_loop str buf search data fd))"

end
