(* ===== verification/User_Laws.thy ===== *)
theory User_Laws
  imports User_Programs Kernel_Frames
begin

text \<open>
  What a program on the displayed terminal can rely on when it calls the kernel: one law for each
  call that the programs make, over the terminal as the program's user sees it, the memory of the
  program, and the state of the process table.
\<close>

section \<open>The environment of a program\<close>

definition stdout_open :: "'a process_scheme \<Rightarrow> bool" where
  "stdout_open s \<longleftrightarrow> fops_table (fd_of s (current_pcb s) 1) = Some Stdout_table
     \<and> flags (fd_of s (current_pcb s) 1) \<noteq> 0 \<and> flags (fd_of s (current_pcb s) 1) AND FD_FLAG_FILE = 0"

text \<open>The program runs on the displayed terminal; the local variables of the kernel's functions lie in
  2 KB apart from the program page and the screen.\<close>

definition user_env :: "'a process_scheme \<Rightarrow> bool" where
  "user_env s \<longleftrightarrow> curr_scheduled s = curr_terminal s \<and> cursor_ok (curr_terminal s - 1) s \<and> stdout_open s
     \<and> disjoint_regions (frame s) 0x800 PROG_PAGE 0x400000 \<and> disjoint_regions (frame s) 0x800 VIDEO 4000"

definition user_area :: "u32 \<Rightarrow> nat \<Rightarrow> bool" where
  "user_area a n \<longleftrightarrow> (\<forall>i < n. in_region (a + of_nat i) PROG_PAGE 0x400000)"

text \<open>The terminal of the program, and output to it that changes nothing else of what the program and
  the file system rely on.\<close>

definition user_term :: "'a process_scheme \<Rightarrow> tview" where
  "user_term s = term_of VIDEO (curr_terminal s - 1) s"

definition kernel_area :: "'a machine_scheme \<Rightarrow> u32 \<Rightarrow> bool" where
  "kernel_area s a \<longleftrightarrow> in_region a VIDEO 4000 \<or> in_region a (frame s) 0x800"

definition shows_text :: "u8 list \<Rightarrow> 'a process_scheme \<Rightarrow> 'a process_scheme \<Rightarrow> bool" where
  "shows_text cs s s' \<longleftrightarrow> user_term s' = fold spec_putc cs (user_term s) \<and> user_env s' \<and> behind s s'
     \<and> frame s' = frame s \<and> (\<forall>a. kernel_area s a \<or> mem s' a = mem s a)"

lemma user_term_cong:
  "(\<And>a. in_region a VIDEO 4000 \<Longrightarrow> mem s' a = mem s a) \<Longrightarrow> screen_x s' = screen_x s \<Longrightarrow> screen_y s' = screen_y s \<Longrightarrow>
   curr_terminal s' = curr_terminal s \<Longrightarrow> user_term s' = user_term s"
  unfolding user_term_def term_of_def by (simp cong: screen_chars_cong)

lemma shows_text_trans:
  "shows_text xs s s' \<Longrightarrow> shows_text ys s' s'' \<Longrightarrow> shows_text (xs @ ys) s s''"
  unfolding shows_text_def kernel_area_def by (simp, metis behind_trans)

text \<open>What is behind the drivers: the file system and the process table.\<close>

lemma behind_fields:
  assumes "behind s s'"
  shows "filesys_addr s' = filesys_addr s" "dir_index s' = dir_index s" "pcbs s' = pcbs s"
    "current_pcb s' = current_pcb s" "highest_terminal_processes s' = highest_terminal_processes s"
proof -
  have "keyboard.more s' = keyboard.more s" "curr_terminal s' = curr_terminal s"
    using assms by (simp_all only: behind_def)
  then show "filesys_addr s' = filesys_addr s" "dir_index s' = dir_index s" "pcbs s' = pcbs s"
    "current_pcb s' = current_pcb s" "highest_terminal_processes s' = highest_terminal_processes s"
    by (cases s; cases s'; simp add: current_pcb_def)+
qed

lemma user_area_part: "user_area a n \<Longrightarrow> k + l \<le> n \<Longrightarrow> user_area (a + of_nat k) l"
  unfolding user_area_def by (auto simp: add.assoc simp flip: of_nat_add)

lemma user_not_kernel:
  assumes "user_env s" and "in_region a PROG_PAGE 0x400000"
  shows "\<not> kernel_area s a"
proof -
  have "disjoint_regions PROG_PAGE 0x400000 VIDEO 4000" by (simp add: disjoint_regions_def)
  then show ?thesis
    using disjoint_regions_not_in [OF _ assms(2)] assms(1)
    by (auto simp: kernel_area_def user_env_def disjoint_regions_sym)
qed

lemma shows_text_user:
  "user_env s \<Longrightarrow> shows_text cs s s' \<Longrightarrow> in_region a PROG_PAGE 0x400000 \<Longrightarrow> mem s' a = mem s a"
  using user_not_kernel [of s a] by (auto simp: shows_text_def)

lemma shows_text_bytes:
  "user_env s \<Longrightarrow> shows_text cs s s' \<Longrightarrow> user_area a n \<Longrightarrow> bytes (mem s') a n = bytes (mem s) a n"
  by (rule nth_equalityI) (auto simp: nth_bytes user_area_def shows_text_user)

section \<open>write\<close>

lemma sint_of_int_u32: "- 2147483648 \<le> n \<Longrightarrow> n < 2147483648 \<Longrightarrow> sint (of_int n :: u32) = n"
  by (simp add: signed_of_int signed_take_bit_int_eq_self)

text \<open>A terminal write changes the terminal as the text says.\<close>

lemma terminal_write_shows:
  assumes env: "user_env s" and n: "0 < n" "n < 2047" and buf: "buf \<noteq> 0" "user_area buf (nat n)"
  obtains s' where "terminal_write fd buf n s = (n + 1, s')"
    and "shows_text (filter (\<lambda>c. c \<noteq> 0) (bytes (mem s) buf (nat n))) s s'"
proof -
  let ?t = "curr_terminal s" and ?cs = "filter (\<lambda>c. c \<noteq> 0) (bytes (mem s) buf (nat n))"
  have ready: "user_ready ?t ?t VIDEO s" using env by (simp add: user_ready_def user_env_def)
  have sep: "unat (frame s - buf) \<ge> nat n"
  proof (rule ccontr)
    assume "\<not> unat (frame s - buf) \<ge> nat n"
    then have "in_region (buf + of_nat (unat (frame s - buf))) PROG_PAGE 0x400000"
      using buf(2) by (simp only: user_area_def)
    then have "in_region (frame s) PROG_PAGE 0x400000" by (simp only: offset_eq)
    moreover have "kernel_area s (frame s)" by (simp add: kernel_area_def in_region_def)
    ultimately show False using user_not_kernel [OF env] by blast
  qed
  have out: "\<not> in_region (frame s + of_nat i) VIDEO 4000" if "i \<le> nat n" for i
  proof -
    have "in_region (frame s + of_nat i) (frame s) 0x800" using that n by (intro in_region_add) simp_all
    then show ?thesis using disjoint_regions_not_in [of "frame s" "0x800" VIDEO 4000] env by (simp add: user_env_def)
  qed
  have small: "0 \<le> n" "n < 2147483648" using n by simp_all
  obtain m' where run: "print_withoutnull buf n s = (of_int (n + 1), fold put_user ?cs (s\<lparr>mem := m'\<rparr>))"
    and ready': "user_ready ?t ?t VIDEO (s\<lparr>mem := m'\<rparr>)"
    and m': "\<And>a. \<not> in_region a (frame s) (Suc (nat n)) \<Longrightarrow> m' a = mem s a"
    by (rule print_withoutnull_run [OF ready small disjI1 [OF sep] out]) (assumption, rule that)
  have kept: "m' a = mem s a" if "\<not> in_region a (frame s) 0x800" for a
    using that n by (intro m') (auto simp: in_region_def)
  define u where "u = fold put_user ?cs (s\<lparr>mem := m'\<rparr>)"
  note u = user.fold_put [OF ready', where cs = ?cs, folded u_def]
  define w where "w = snd (terminal_write fd buf n s)"
  have "sint (of_int (n + 1) :: u32) = n + 1" using n by (intro sint_of_int_u32) simp_all
  then have run': "terminal_write fd buf n s = (n + 1, w)"
    using n buf(1) by (simp add: w_def terminal_write_def Let_def run del: of_int_add)
  have w: "mem w = mem u" "frame w = frame u" "screen_x w = screen_x u" "screen_y w = screen_y u"
    using n buf(1) by (simp_all add: w_def terminal_write_def Let_def run u_def [symmetric] cli_def sti_def)
  have b: "behind s w" unfolding w_def by (rule behind_terminal_write)
  have cur: "curr_terminal w = ?t" "curr_scheduled w = curr_scheduled s" using b by (simp_all only: behind_def)
  have "term_of VIDEO (?t - 1) (s\<lparr>mem := m'\<rparr>) = term_of VIDEO (?t - 1) s"
    using kept disjoint_regions_not_in [of VIDEO 4000 "frame s" "0x800"] env
    by (simp add: term_of_def user_env_def disjoint_regions_sym cong: screen_chars_cong)
  then have view: "user_term w = fold spec_putc ?cs (user_term s)"
    using u(2) w by (simp add: user_term_def term_of_def cur)
  have "stdout_open w"
    using env behind_fields(3,4) [OF b] by (simp add: user_env_def stdout_open_def fd_of_def Let_def)
  then have env': "user_env w"
    using env u(1,4) w cur by (simp add: user_env_def user_ready_def cursor_ok_def)
  have "kernel_area s a \<or> mem w a = mem s a" for a
    using u(3) [of a] kept [of a] w(1) unfolding kernel_area_def by (cases "in_region a (frame s) 0x800") auto
  then have "shows_text ?cs s w" using view env' b w(2) u(4) by (simp add: shows_text_def)
  with run' show thesis by (rule that)
qed

text \<open>The interrupt flag plays no role.\<close>

lemma user_env_intr [simp]: "user_env (s\<lparr>intr := i\<rparr>) = user_env s"
  by (simp add: user_env_def stdout_open_def cursor_ok_def fd_of_def current_pcb_def)

lemma shows_text_intr [simp]:
  "shows_text cs (s\<lparr>intr := i\<rparr>) s' = shows_text cs s s'" "shows_text cs s (s'\<lparr>intr := i\<rparr>) = shows_text cs s s'"
  by (simp_all add: shows_text_def user_term_def term_of_def behind_def kernel_area_def)

text \<open>The call, through the gate.\<close>

lemma ece391_write_shows:
  assumes env: "user_env s" and n: "0 < n" "n < 2047" and buf: "buf \<noteq> 0" "user_area buf (nat n)"
  obtains s' where "ece391_write 1 buf n (s, interrupts) = Some (n + 1, (s', interrupts))"
    and "shows_text (filter (\<lambda>c. c \<noteq> 0) (bytes (mem s) buf (nat n))) s s'"
proof -
  obtain w where w: "terminal_write 1 buf n (s\<lparr>intr := False\<rparr>) = (n + 1, w)"
    "shows_text (filter (\<lambda>c. c \<noteq> 0) (bytes (mem s) buf (nat n))) s w"
    by (rule terminal_write_shows [of "s\<lparr>intr := False\<rparr>" n buf 1]) (use env n buf in simp_all)
  have "sint (of_int n :: u32) = n" "sint (of_int (n + 1) :: u32) = n + 1" using n by (intro sint_of_int_u32; simp)+
  moreover have "sys_write 1 buf n s = Done (n + 1, w\<lparr>intr := True\<rparr>)"
    using env buf(1) w(1)
    by (simp add: sys_write_def Let_def user_env_def stdout_open_def fd_of_def current_pcb_def table_write_def cli_def sti_def)
  ultimately have "ece391_write 1 buf n (s, interrupts) = Some (n + 1, (w\<lparr>intr := intr s\<rparr>, interrupts))"
    by (simp add: ece391_write_def do_call_def system_calls_assembly_def back_outcome_def iret_def del: of_int_add)
  with w(2) show thesis by (intro that [of "w\<lparr>intr := intr s\<rparr>"]) simp_all
qed

text \<open>Printing a string.\<close>

lemma ece391_fdputs_shows:
  assumes env: "user_env s" and str: "str_at (mem s) a cs" "length cs < 2047" "a \<noteq> 0" "user_area a (length cs)"
  obtains s' where "ece391_fdputs 1 a (s, interrupts) = Some ((), (s', interrupts))" and "shows_text cs s s'"
proof -
  have len: "ece391_strlen (mem s) a = Some (of_nat (length cs))"
    by (simp add: ece391_strlen_eq strlen_str_at [OF str(1)])
  have sint: "sint (of_nat (length cs) :: u32) = int (length cs)"
    using str(2) by (simp add: signed_of_nat signed_take_bit_int_eq_self)
  show thesis
  proof (cases "cs = []")
    case True
    have "sys_write 1 a 0 s = Done (0, s\<lparr>intr := True\<rparr>)"
      using env str(3)
      by (simp add: sys_write_def Let_def user_env_def stdout_open_def fd_of_def current_pcb_def table_write_def
          terminal_write_def cli_def sti_def)
    then have "ece391_write 1 a 0 (s, interrupts) = Some (0, (s, interrupts))"
      by (simp add: ece391_write_def do_call_def system_calls_assembly_def back_outcome_def iret_def)
    then have "ece391_fdputs 1 a (s, interrupts) = Some ((), (s, interrupts))"
      using len True by (simp add: ece391_fdputs_def seq_computes seq_Some) (simp add: gives_def)
    moreover have "shows_text [] s s" using env by (simp add: shows_text_def)
    ultimately show ?thesis using that True by simp
  next
    case False
    then have n: "0 < int (length cs)" "int (length cs) < 2047" using str(2) by simp_all
    have bytes: "filter (\<lambda>c. c \<noteq> 0) (bytes (mem s) a (length cs)) = cs"
      using str(1) by (auto simp: str_at_def intro!: filter_True)
    have area: "user_area a (nat (int (length cs)))" using str(4) by simp
    obtain s' where "ece391_write 1 a (int (length cs)) (s, interrupts) = Some (int (length cs) + 1, (s', interrupts))"
      "shows_text cs s s'"
      by (rule ece391_write_shows [OF env n str(3) area, of interrupts]) (use bytes in simp)
    then show ?thesis
      using len sint by (intro that [of s']) (simp_all add: ece391_fdputs_def seq_computes seq_Some gives_def)
  qed
qed

section \<open>open\<close>

text \<open>Opening a regular file or the directory.\<close>

definition opened :: "dentry \<Rightarrow> int \<Rightarrow> 'a process_scheme \<Rightarrow> 'a process_scheme \<Rightarrow> bool" where
  "opened entry fd s s' \<longleftrightarrow> (\<exists>m d. s' = s\<lparr>mem := m, dir_index := d,
       pcbs := (pcbs s)(current_pcb s := add_file entry fd (pcbs s (current_pcb s)))\<rparr>
     \<and> (file_type entry = 1 \<longrightarrow> d = 0) \<and> (\<forall>a. in_region a (frame s) 64 \<or> m a = mem s a))"

lemma opened_env:
  assumes "opened entry fd s s'" and "user_env s" and "2 \<le> fd"
  shows "user_env s'" "user_term s' = user_term s" "frame s' = frame s" "filesys_addr s' = filesys_addr s"
    "current_pcb s' = current_pcb s" "in_region a (frame s) 64 \<or> mem s' a = mem s a"
    "curr_terminal s' = curr_terminal s"
    "pcbs s' (current_pcb s) = add_file entry fd (pcbs s (current_pcb s))"
proof -
  obtain m d where s': "s' = s\<lparr>mem := m, dir_index := d,
      pcbs := (pcbs s)(current_pcb s := add_file entry fd (pcbs s (current_pcb s)))\<rparr>"
    and m: "\<And>a. in_region a (frame s) 64 \<or> m a = mem s a"
    using assms(1) by (auto simp: opened_def)
  show "frame s' = frame s" "filesys_addr s' = filesys_addr s" "current_pcb s' = current_pcb s"
    "curr_terminal s' = curr_terminal s" "in_region a (frame s) 64 \<or> mem s' a = mem s a"
    "pcbs s' (current_pcb s) = add_file entry fd (pcbs s (current_pcb s))"
    using m [of a] by (simp_all add: s' current_pcb_def)
  show "user_env s'"
    using assms(2,3) by (simp add: s' user_env_def stdout_open_def fd_of_def add_file_def cursor_ok_def current_pcb_def)
  have "m a = mem s a" if "in_region a VIDEO 4000" for a
  proof -
    have "\<not> in_region a (frame s) 0x800"
      using assms(2) disjoint_regions_not_in [OF _ that] by (simp add: user_env_def disjoint_regions_sym)
    then show ?thesis using m [of a] by (auto simp: in_region_def)
  qed
  then show "user_term s' = user_term s" by (intro user_term_cong) (simp_all add: s')
qed

lemma ece391_open_opens:
  assumes env: "user_env s" and layout: "exec_layout s sz" "directory_ok s sz" and name: "filename \<noteq> 0"
    and entry: "find_file (mem s) (filesys_addr s) (str_prefix (mem s) filename 32) = Some entry"
    and kind: "file_type entry \<in> {1, 2}"
    and ok: "files_ok (pcbs s (current_pcb s))" and room: "file_arr_size (pcbs s (current_pcb s)) < 8"
  defines "fd \<equiv> find_fd (file_array (pcbs s (current_pcb s))) 2 6"
  obtains s' where "ece391_open filename (s, interrupts) = Some (fd, (s', interrupts))" and "opened entry fd s s'"
    and "2 \<le> fd" and "fd < 8"
proof -
  have kind': "file_type entry \<in> {0, 1, 2}" using kind by auto
  obtain m t where run: "sys_open filename s = Done (fd, table_open t filename
      (s\<lparr>mem := m, pcbs := (pcbs s)(current_pcb s := add_file entry fd (pcbs s (current_pcb s)))\<rparr>))"
    and t: "fst (entry_file entry) = Some t" and m: "\<And>a. \<not> in_region a (frame s) 64 \<Longrightarrow> m a = mem s a"
    unfolding fd_def using sys_open_run [OF layout name entry kind' ok room] by blast
  have fd: "2 \<le> fd" "fd < 8" using find_fd_free(1,2) [OF ok room] by (simp_all add: fd_def)
  define s' where "s' = (table_open t filename
      (s\<lparr>mem := m, pcbs := (pcbs s)(current_pcb s := add_file entry fd (pcbs s (current_pcb s)))\<rparr>))\<lparr>intr := intr s\<rparr>"
  have "sint (of_int fd :: u32) = fd" using fd by (intro sint_of_int_u32) simp_all
  then have "ece391_open filename (s, interrupts) = Some (fd, (s', interrupts))"
    using run by (simp add: ece391_open_def do_call_def system_calls_assembly_def back_outcome_def iret_def s'_def)
  moreover have "opened entry fd s s'"
    unfolding opened_def
  proof (intro exI conjI impI allI)
    show "s' = s\<lparr>mem := m, dir_index := (if file_type entry = 1 then 0 else dir_index s),
        pcbs := (pcbs s)(current_pcb s := add_file entry fd (pcbs s (current_pcb s)))\<rparr>"
      using t kind by (auto simp: s'_def entry_file_def table_open_def dir_open_def)
  qed (use m in auto)
  ultimately show thesis using that fd by blast
qed

text \<open>The descriptor that was opened.\<close>

lemma opened_fd:
  assumes "opened entry fd s s'"
  shows "fd_of s' (current_pcb s') fd = (fd_setup entry ((file_array (pcbs s (current_pcb s)) fd)\<lparr>flags := 1\<rparr>))\<lparr>f_pos := 0\<rparr>"
  using assms by (auto simp: opened_def fd_of_def add_file_def current_pcb_def)

section \<open>Reading the directory\<close>

text \<open>A directory that is open as \<open>fd\<close>, a buffer for its names, and the image apart from all that a
  program and the kernel write.\<close>

definition listing :: "'a process_scheme \<Rightarrow> int \<Rightarrow> u32 \<Rightarrow> nat \<Rightarrow> nat \<Rightarrow> bool" where
  "listing s fd buf sz n \<longleftrightarrow> user_env s \<and> 2 \<le> fd \<and> fd < 8
     \<and> fops_table (fd_of s (current_pcb s) fd) = Some Dir_table \<and> flags (fd_of s (current_pcb s) fd) \<noteq> 0
     \<and> load_int (mem s) (filesys_addr s) = int n \<and> entries_in_image (filesys_addr s) sz n \<and> sz \<le> 4294967296
     \<and> disjoint_regions (frame s) 0x800 (filesys_addr s) sz \<and> disjoint_regions VIDEO 4000 (filesys_addr s) sz
     \<and> disjoint_regions PROG_PAGE 0x400000 (filesys_addr s) sz \<and> user_area buf 33 \<and> buf \<noteq> 0"

lemma listing_step:
  assumes "listing s fd buf sz n" and "user_env s'" and "frame s' = frame s" and "filesys_addr s' = filesys_addr s"
    and "fd_of s' (current_pcb s') fd = fd_of s (current_pcb s) fd"
    and "same_image (filesys_addr s) sz (mem s) (mem s')"
  shows "listing s' fd buf sz n"
    and "i < n \<Longrightarrow> entry_name (mem s') (filesys_addr s) i = entry_name (mem s) (filesys_addr s) i"
proof -
  have img: "entries_in_image (filesys_addr s) sz n" "sz \<le> 4294967296" using assms(1) by (simp_all add: listing_def)
  then have "in_image (filesys_addr s) sz (filesys_addr s)" by (simp add: entries_in_image_def)
  then have "load_int (mem s') (filesys_addr s) = load_int (mem s) (filesys_addr s)"
    using same_image_load [OF assms(6)] img(2) by (simp add: load_int_def)
  then show "listing s' fd buf sz n" using assms by (simp add: listing_def)
  show "entry_name (mem s') (filesys_addr s) i = entry_name (mem s) (filesys_addr s) i" if "i < n"
    unfolding entry_name_def by (rule same_image_entry_name [OF assms(6) img(1) that img(2)]) simp
qed

text \<open>An area of the program page is apart from what the page is apart from.\<close>

lemma user_area_apart:
  assumes "user_area a n" "0 < n" "disjoint_regions PROG_PAGE 0x400000 b k"
  shows "disjoint_regions a n b k"
proof -
  define j where "j = unat (a - PROG_PAGE)"
  have a: "a = PROG_PAGE + of_nat j" by (simp add: j_def)
  have in_page: "unat (a + of_nat i - PROG_PAGE) < 0x400000" if "i < n" for i
    using assms(1) that by (simp add: user_area_def in_region_def)
  have "j < 0x400000" using in_page [of 0] assms(2) by (simp add: j_def)
  have step: "i < n \<Longrightarrow> j + i < 0x400000" for i
  proof (induction i)
    case (Suc i)
    then have "j + i < 0x400000" by simp
    then have "unat (of_nat (j + Suc i) :: u32) = j + Suc i" by (intro unat_of_nat_small) simp
    moreover have "a + of_nat (Suc i) - PROG_PAGE = (of_nat (j + Suc i) :: u32)" by (simp add: a)
    ultimately show ?case using in_page [OF Suc.prems] by (simp only:)
  qed (use \<open>j < 0x400000\<close> in simp)
  have "j + n \<le> 0x400000" using step [of "n - 1"] assms(2) by simp
  then show ?thesis
    unfolding a using disjoint_regions_part [OF assms(3), of j n] assms(2) by simp
qed

lemma listing_buffers:
  assumes "listing s fd buf sz n"
  shows "dir_buffers (filesys_addr s) sz (frame s) buf"
proof -
  have l: "sz \<le> 4294967296" "disjoint_regions (frame s) 0x800 (filesys_addr s) sz" "user_area buf 33"
    "disjoint_regions PROG_PAGE 0x400000 (filesys_addr s) sz" "disjoint_regions PROG_PAGE 0x400000 (frame s) 0x800"
    using assms by (simp_all add: listing_def user_env_def disjoint_regions_sym)
  have "disjoint_regions (frame s) 64 (filesys_addr s) sz" using disjoint_regions_part [OF l(2), of 0 64] by simp
  moreover have "disjoint_regions buf 33 (filesys_addr s) sz" by (rule user_area_apart [OF l(3) _ l(4)]) simp
  moreover have "disjoint_regions buf 33 (frame s) 0x800" by (rule user_area_apart [OF l(3) _ l(5)]) simp
  ultimately show ?thesis using l(1) by (simp add: dir_buffers_def disjoint_regions_def)
qed

lemma ece391_read_dir:
  assumes L: "listing s fd buf sz n" and pos: "dir_index s = int k" "k < n"
  defines "name \<equiv> entry_name (mem s) (filesys_addr s) k"
  obtains m where "ece391_read fd buf 32 (s, interrupts)
      = Some (int (length name), (s\<lparr>mem := m, dir_index := int (Suc k)\<rparr>, interrupts))"
    and "bytes m buf (length name) = name" and "\<And>a. in_region a (frame s) 64 \<or> in_region a buf 33 \<or> m a = mem s a"
proof -
  have l: "load_int (mem s) (filesys_addr s) = int n" "entries_in_image (filesys_addr s) sz n" "2 \<le> fd" "fd < 8"
    "fops_table (fd_of s (current_pcb s) fd) = Some Dir_table" "flags (fd_of s (current_pcb s) fd) \<noteq> 0" "buf \<noteq> 0"
    using L by (simp_all add: listing_def)
  have limit: "name_limit 32 = 32" by (simp add: name_limit_def)
  have name: "name = str_prefix (mem s) (entry_addr (filesys_addr s) k) 32" by (simp add: name_def entry_name_def)
  have pos': "0 \<le> dir_index s" "dir_index s < int n" using pos by simp_all
  obtain m where m: "dir_read fd buf 32 s = (int (length name), s\<lparr>mem := m, dir_index := int k + 1\<rparr>)"
    "bytes m buf (length name) = name" "\<And>a. \<not> in_region a (frame s) 64 \<Longrightarrow> \<not> in_region a buf 33 \<Longrightarrow> m a = mem s a"
    by (rule dir_read_entry [OF l(1) pos' l(2) listing_buffers [OF L], of 32 fd, unfolded pos(1) nat_int limit, folded name])
      simp_all
  have len: "length name \<le> 32" unfolding name by (rule length_str_prefix)
  then have "sint (of_int (int (length name)) :: u32) = int (length name)" by (intro sint_of_int_u32) simp_all
  moreover have "sint (of_int fd :: u32) = fd" using l(3,4) by (intro sint_of_int_u32) simp_all
  moreover have "sys_read fd buf 32 interrupts s
      = Done (int (length name), s\<lparr>mem := m, dir_index := int k + 1\<rparr>, interrupts)"
    using l m(1) by (simp add: sys_read_def Let_def table_read_def)
  ultimately have "ece391_read fd buf 32 (s, interrupts)
      = Some (int (length name), (s\<lparr>mem := m, dir_index := int (Suc k)\<rparr>, interrupts))"
    by (simp add: ece391_read_def do_call_def system_calls_assembly_def iret_def add.commute)
  then show thesis using m(2,3) by (intro that [of m]) blast+
qed

lemma ece391_read_dir_end:
  assumes L: "listing s fd buf sz n" and pos: "dir_index s = int n"
  shows "ece391_read fd buf 32 (s, interrupts) = Some (0, (s, interrupts))"
proof -
  have l: "load_int (mem s) (filesys_addr s) = int n" "2 \<le> fd" "fd < 8"
    "fops_table (fd_of s (current_pcb s) fd) = Some Dir_table" "flags (fd_of s (current_pcb s) fd) \<noteq> 0" "buf \<noteq> 0"
    using L by (simp_all add: listing_def)
  have "sint (of_int fd :: u32) = fd" using l(2,3) by (intro sint_of_int_u32) simp_all
  moreover have "sys_read fd buf 32 interrupts s = Done (0, s, interrupts)"
    using l pos by (simp add: sys_read_def Let_def table_read_def dir_read_def)
  ultimately show ?thesis by (simp add: ece391_read_def do_call_def system_calls_assembly_def iret_def)
qed

end
