(* ===== verification/User_Programs_Laws.thy ===== *)
theory User_Programs_Laws
  imports User_Laws
begin

text \<open>
  What the user programs do on this kernel, from the call of \<open>main\<close> to its value: the text that
  \<open>testprint\<close>, \<open>ls\<close> and \<open>cat\<close> put on the terminal, through the system calls, the file system and the
  terminal driver.
\<close>

section \<open>ls\<close>

text \<open>The listing stops at the first entry without a name.\<close>

definition listed :: "mem \<Rightarrow> u32 \<Rightarrow> nat \<Rightarrow> nat \<Rightarrow> u8 list" where
  "listed m fs k n = concat (map (\<lambda>name. name @ [10]) (takeWhile (\<lambda>name. name \<noteq> []) (map (entry_name m fs) [k..<n])))"

lemma listed_Suc:
  "k < n \<Longrightarrow> listed m fs k n = (if entry_name m fs k = [] then [] else entry_name m fs k @ 10 # listed m fs (Suc k) n)"
  by (simp add: listed_def upt_conv_Cons)

lemma listed_cong:
  "(\<And>i. i < n \<Longrightarrow> entry_name m' fs i = entry_name m fs i) \<Longrightarrow> listed m' fs k n = listed m fs k n"
proof -
  assume same: "\<And>i. i < n \<Longrightarrow> entry_name m' fs i = entry_name m fs i"
  have "map (entry_name m' fs) [k..<n] = map (entry_name m fs) [k..<n]" by (simp add: same)
  then show ?thesis unfolding listed_def by (simp only:)
qed

lemma entry_name_bytes: "0 \<notin> set (entry_name m fs i)" "length (entry_name m fs i) \<le> 32"
  unfolding entry_name_def by (auto simp: str_prefix_def dest: set_takeWhileD intro: length_str_prefix [unfolded str_prefix_def])

text \<open>The program's and the kernel's own memory is apart from the image.\<close>

definition scratch_area :: "'a machine_scheme \<Rightarrow> u32 \<Rightarrow> bool" where
  "scratch_area s a \<longleftrightarrow> kernel_area s a \<or> in_region a PROG_PAGE 0x400000"

lemma scratch_image:
  assumes "disjoint_regions (frame s) 0x800 fs sz" "disjoint_regions VIDEO 4000 fs sz"
    "disjoint_regions PROG_PAGE 0x400000 fs sz" and "\<And>a. scratch_area s a \<or> m' a = mem s a"
  shows "same_image fs sz (mem s) m'"
proof -
  have "\<not> scratch_area s a" if a: "in_region a fs sz" for a
    using assms(1-3) disjoint_regions_not_in [OF _ a]
    by (simp add: scratch_area_def kernel_area_def disjoint_regions_sym)
  then show ?thesis using assms(4) by (auto simp: same_image_def)
qed

lemma listing_image:
  "listing s fd buf sz n \<Longrightarrow> (\<And>a. scratch_area s a \<or> m' a = mem s a) \<Longrightarrow> same_image (filesys_addr s) sz (mem s) m'"
  by (rule scratch_image) (simp_all add: listing_def)

lemma user_area_in:
  assumes "user_area buf n" "in_region a buf n"
  shows "in_region a PROG_PAGE 0x400000"
  using assms by (auto simp: user_area_def elim: in_regionE)

text \<open>A line in the buffer.\<close>

lemma bytes_line:
  assumes "bytes m buf l = nm" "l < 4294967296"
  shows "bytes (m(buf + of_nat l := c)) buf (Suc l) = nm @ [c]"
proof (rule nth_equalityI)
  have l: "length nm = l" using assms(1) by auto
  then show "length (bytes (m(buf + of_nat l := c)) buf (Suc l)) = length (nm @ [c])" by simp
  fix i
  assume "i < length (bytes (m(buf + of_nat l := c)) buf (Suc l))"
  then have i: "i \<le> l" by simp
  have "buf + of_nat i = buf + of_nat l \<longleftrightarrow> i = l"
    using i assms(2) by (simp add: of_nat_u32_inject)
  moreover have "i < l \<Longrightarrow> m (buf + of_nat i) = nm ! i" using assms(1) nth_bytes [of i l m buf] by simp
  ultimately show "bytes (m(buf + of_nat l := c)) buf (Suc l) ! i = (nm @ [c]) ! i"
    using i l by (simp add: nth_bytes nth_append del: bytes.simps)
qed

text \<open>The system calls' buffers and the program's memory are not on the screen.\<close>

lemma user_same:
  assumes env: "user_env s" and m: "\<And>a. in_region a (frame s) 64 \<or> in_region a PROG_PAGE 0x400000 \<or> m a = mem s a"
  shows "user_term (s\<lparr>mem := m, dir_index := d\<rparr>) = user_term s" "user_env (s\<lparr>mem := m, dir_index := d\<rparr>)"
proof -
  show "user_term (s\<lparr>mem := m, dir_index := d\<rparr>) = user_term s"
  proof (rule user_term_cong)
    fix a
    assume a: "in_region a VIDEO 4000"
    have "\<not> in_region a (frame s) 0x800" "\<not> in_region a PROG_PAGE 0x400000"
      using env disjoint_regions_not_in [OF _ a] by (simp_all add: user_env_def disjoint_regions_sym disjoint_regions_def)
    then show "mem (s\<lparr>mem := m, dir_index := d\<rparr>) a = mem s a" using m [of a] by (auto simp: in_region_def)
  qed simp_all
  show "user_env (s\<lparr>mem := m, dir_index := d\<rparr>)"
    using env by (simp add: user_env_def stdout_open_def fd_of_def current_pcb_def cursor_ok_def)
qed

text \<open>One round of the loop: read a name, add the line feed, print.\<close>

lemma ls_round:
  assumes L: "listing s fd buf sz n" and pos: "dir_index s = int k" "k < n"
    and name: "entry_name (mem s) (filesys_addr s) k \<noteq> []"
  obtains s' where "ls_loop str buf fd (s, interrupts) = ls_loop str buf fd (s', interrupts)"
    and "listing s' fd buf sz n" and "dir_index s' = int (Suc k)" and "filesys_addr s' = filesys_addr s"
    and "\<And>i. i < n \<Longrightarrow> entry_name (mem s') (filesys_addr s) i = entry_name (mem s) (filesys_addr s) i"
    and "user_term s' = fold spec_putc (entry_name (mem s) (filesys_addr s) k @ [10]) (user_term s)"
proof -
  define nm where "nm = entry_name (mem s) (filesys_addr s) k"
  obtain m where read: "ece391_read fd buf 32 (s, interrupts)
      = Some (int (length nm), (s\<lparr>mem := m, dir_index := int (Suc k)\<rparr>, interrupts))"
    and bytes: "bytes m buf (length nm) = nm" and m: "\<And>a. in_region a (frame s) 64 \<or> in_region a buf 33 \<or> m a = mem s a"
    unfolding nm_def by (rule ece391_read_dir [OF L pos]) blast
  have len: "0 < length nm" "length nm \<le> 32" using name entry_name_bytes(2) by (auto simp: nm_def)
  define t where "t = s\<lparr>mem := m(buf + of_nat (length nm) := 10), dir_index := int (Suc k)\<rparr>"
  have t_eq: "t = s\<lparr>dir_index := int (Suc k), mem := m(buf + of_nat (length nm) := 10)\<rparr>"
    by (cases s) (simp add: t_def)
  have env: "user_env s" "user_area buf 33" "buf \<noteq> 0" using L by (simp_all add: listing_def)
  have line: "bytes (mem t) buf (Suc (length nm)) = nm @ [10]"
    unfolding t_def using bytes_line [OF bytes] len by simp
  have t: "frame t = frame s" "filesys_addr t = filesys_addr s" "fd_of t (current_pcb t) fd = fd_of s (current_pcb s) fd"
    "dir_index t = int (Suc k)" "user_env t"
    using env(1) by (simp_all add: t_def user_env_def stdout_open_def fd_of_def current_pcb_def cursor_ok_def)
  have buf_in: "in_region a buf 33 \<Longrightarrow> in_region a PROG_PAGE 0x400000" for a using user_area_in [OF env(2)] .
  have "in_region (buf + of_nat (length nm)) buf 33" using len(2) by (intro in_region_add) simp_all
  then have mt: "in_region a (frame s) 64 \<or> in_region a PROG_PAGE 0x400000 \<or> mem t a = mem s a" for a
    using m [of a] buf_in [of a] by (auto simp: t_def)
  have scratch: "scratch_area s a \<or> mem t a = mem s a" for a
    using mt [of a] by (auto simp: scratch_area_def kernel_area_def in_region_def)
  note Lt = listing_step [OF L t(5,1,2,3) listing_image [OF L scratch]]
  have view: "user_term t = user_term s"
    using user_same(1) [OF env(1), of "mem t"] mt by (simp add: t_def)
  have n: "0 < int (Suc (length nm))" "int (Suc (length nm)) < 2047" using len by simp_all
  have area: "user_area buf (nat (int (Suc (length nm))))"
    unfolding nat_int using user_area_part [OF env(2), of 0 "Suc (length nm)"] len by simp
  have visible: "filter (\<lambda>c. c \<noteq> 0) (nm @ [10]) = nm @ [10]"
    using entry_name_bytes(1) [of "mem s" "filesys_addr s" k] by (auto simp: nm_def [symmetric] intro: filter_True)
  obtain s' where s': "ece391_write 1 buf (int (Suc (length nm))) (t, interrupts)
      = Some (int (Suc (length nm)) + 1, (s', interrupts))" "shows_text (nm @ [10]) t s'"
    by (rule ece391_write_shows [OF t(5) n env(3) area, unfolded nat_int line visible])
  have b: "behind t s'" "user_env s'" "frame s' = frame t" "\<And>a. scratch_area t a \<or> mem s' a = mem t a"
    using s'(2) by (auto simp: shows_text_def scratch_area_def)
  note fields = behind_fields [OF b(1)]
  have fd_s': "fd_of s' (current_pcb s') fd = fd_of t (current_pcb t) fd" by (simp add: fd_of_def fields)
  note Ls' = listing_step [OF Lt(1) b(2,3) fields(1) fd_s' listing_image [OF Lt(1) b(4)]]
  show thesis
  proof (rule that)
    show "ls_loop str buf fd (s, interrupts) = ls_loop str buf fd (s', interrupts)"
      using len read s'(1) by (subst ls_loop.simps) (simp add: seq_Some t_eq add.commute)
    show "listing s' fd buf sz n" by (rule Ls'(1))
    show "dir_index s' = int (Suc k)" "filesys_addr s' = filesys_addr s" by (simp_all add: fields t)
    show "entry_name (mem s') (filesys_addr s) i = entry_name (mem s) (filesys_addr s) i" if "i < n" for i
      using Lt(2) [OF that] Ls'(2) [OF that] by (simp add: t(2))
    show "user_term s' = fold spec_putc (entry_name (mem s) (filesys_addr s) k @ [10]) (user_term s)"
      using s'(2) view by (simp add: shows_text_def nm_def)
  qed
qed

lemma ls_loop_lists:
  "listing s fd buf sz n \<Longrightarrow> dir_index s = int k \<Longrightarrow> k \<le> n \<Longrightarrow>
   \<exists>s'. ls_loop str buf fd (s, interrupts) = Some (0, (s', interrupts))
     \<and> user_term s' = fold spec_putc (listed (mem s) (filesys_addr s) k n) (user_term s) \<and> user_env s'"
proof (induction "n - k" arbitrary: k s)
  case 0
  then have "k = n" by simp
  then have "ece391_read fd buf 32 (s, interrupts) = Some (0, (s, interrupts))"
    using ece391_read_dir_end [OF 0(2)] 0(3) by simp
  then have "ls_loop str buf fd (s, interrupts) = Some (0, (s, interrupts))"
    by (subst ls_loop.simps) (simp add: seq_Some gives_def)
  then show ?case using \<open>k = n\<close> 0(2) by (simp add: listed_def listing_def)
next
  case (Suc j)
  then have k: "k < n" "j = n - Suc k" by simp_all
  show ?case
  proof (cases "entry_name (mem s) (filesys_addr s) k = []")
    case True
    obtain m where read: "ece391_read fd buf 32 (s, interrupts)
        = Some (0, (s\<lparr>mem := m, dir_index := int (Suc k)\<rparr>, interrupts))"
      and m: "\<And>a. in_region a (frame s) 64 \<or> in_region a buf 33 \<or> m a = mem s a"
      by (rule ece391_read_dir [OF Suc(3,4) k(1), of interrupts]) (simp add: True)
    let ?t = "s\<lparr>mem := m, dir_index := int (Suc k)\<rparr>"
    have "ls_loop str buf fd (s, interrupts) = Some (0, (?t, interrupts))"
      using read by (subst ls_loop.simps) (simp add: seq_Some gives_def)
    moreover have "in_region a (frame s) 64 \<or> in_region a PROG_PAGE 0x400000 \<or> m a = mem s a" for a
      using m [of a] user_area_in [of buf 33 a] Suc(3) by (auto simp: listing_def)
    then have "user_term ?t = user_term s" "user_env ?t"
      using Suc(3) by (auto simp: listing_def intro: user_same)
    ultimately show ?thesis using True by (simp add: listed_Suc [OF k(1)])
  next
    case False
    obtain s' where s': "ls_loop str buf fd (s, interrupts) = ls_loop str buf fd (s', interrupts)"
      "listing s' fd buf sz n" "dir_index s' = int (Suc k)" "filesys_addr s' = filesys_addr s"
      "\<And>i. i < n \<Longrightarrow> entry_name (mem s') (filesys_addr s) i = entry_name (mem s) (filesys_addr s) i"
      "user_term s' = fold spec_putc (entry_name (mem s) (filesys_addr s) k @ [10]) (user_term s)"
      by (rule ls_round [OF Suc(3,4) k(1) False]) (rule that)
    have "listed (mem s') (filesys_addr s) (Suc k) n = listed (mem s) (filesys_addr s) (Suc k) n"
      by (rule listed_cong) (rule s'(5))
    then show ?thesis
      using Suc(1) [OF k(2) s'(2,3)] k(1) False s'(1,4,6) by (simp add: listed_Suc [OF k(1)])
  qed
qed

text \<open>A program on the displayed terminal whose kernel has a file system apart from all that the
  program and the kernel write.\<close>

definition user_process :: "'a process_scheme \<Rightarrow> nat \<Rightarrow> bool" where
  "user_process s sz \<longleftrightarrow> user_env s \<and> exec_layout s sz \<and> directory_ok s sz \<and> files_ok (pcbs s (current_pcb s))
     \<and> disjoint_regions (frame s) 0x800 (filesys_addr s) sz \<and> disjoint_regions VIDEO 4000 (filesys_addr s) sz"

lemma user_process_env: "user_process s sz \<Longrightarrow> user_env s"
  by (simp add: user_process_def)

lemma user_process_image:
  "user_process s sz \<Longrightarrow> (\<And>a. scratch_area s a \<or> m' a = mem s a) \<Longrightarrow> same_image (filesys_addr s) sz (mem s) m'"
  by (rule scratch_image) (simp_all add: user_process_def exec_layout_def)

text \<open>The entries of the directory do not change while the program runs.\<close>

lemma same_image_directory:
  assumes "same_image fs sz m m'" and "entries_in_image fs sz n" and "sz \<le> 4294967296"
  shows "load_int m' fs = load_int m fs" "i < n \<Longrightarrow> entry_name m' fs i = entry_name m fs i"
proof -
  have "in_image fs sz fs" using assms(2) by (simp add: entries_in_image_def)
  then show "load_int m' fs = load_int m fs" using same_image_load [OF assms(1)] assms(3) by (simp add: load_int_def)
  show "entry_name m' fs i = entry_name m fs i" if "i < n"
    unfolding entry_name_def by (rule same_image_entry_name [OF assms(1,2) that assms(3)]) simp
qed

lemma user_process_step:
  assumes "user_process s sz" and "user_env s'" and "frame s' = frame s" and "filesys_addr s' = filesys_addr s"
    and "files_ok (pcbs s' (current_pcb s'))" and "\<And>a. scratch_area s a \<or> mem s' a = mem s a"
  shows "user_process s' sz"
    and "find_file (mem s') (filesys_addr s) name = find_file (mem s) (filesys_addr s) name"
    and "load_int (mem s') (filesys_addr s) = load_int (mem s) (filesys_addr s)"
proof -
  note P = assms(1) [unfolded user_process_def exec_layout_def directory_ok_def]
  have same: "same_image (filesys_addr s) sz (mem s) (mem s')" by (rule user_process_image [OF assms(1,6)])
  have "entries_in_image (filesys_addr s) sz (nat (load_int (mem s) (filesys_addr s)))" "sz \<le> 4294967296" using P by simp_all
  then show "load_int (mem s') (filesys_addr s) = load_int (mem s) (filesys_addr s)"
    and "find_file (mem s') (filesys_addr s) name = find_file (mem s) (filesys_addr s) name"
    by (rule same_image_directory [OF same], rule find_file_same [OF same])
  then show "user_process s' sz"
    using P assms(2-5) by (simp add: user_process_def exec_layout_def directory_ok_def)
qed

text \<open>A string literal in the memory of the program.\<close>

definition literal :: "'a machine_scheme \<Rightarrow> u32 \<Rightarrow> string \<Rightarrow> bool" where
  "literal s a cs \<longleftrightarrow> a \<noteq> 0 \<and> user_area a (Suc (length cs)) \<and> str_at (mem s) a (map of_char cs)"

lemma literal_cong:
  assumes "literal s a t" and at: "\<And>i. i \<le> length t \<Longrightarrow> mem s' (a + of_nat i) = mem s (a + of_nat i)"
  shows "literal s' a t"
proof -
  have "bytes (mem s') a (length t) = bytes (mem s) a (length t)"
    by (rule nth_equalityI) (simp_all add: nth_bytes at)
  then show ?thesis using assms(1) at [of "length t"] by (simp add: literal_def str_at_def)
qed

lemma literal_same:
  "literal s a t \<Longrightarrow> (\<And>b. in_region b PROG_PAGE 0x400000 \<Longrightarrow> mem s' b = mem s b) \<Longrightarrow> literal s' a t"
  by (rule literal_cong) (auto simp: literal_def user_area_def)

lemma str_at_prefix: "str_at m a xs \<Longrightarrow> length xs \<le> n \<Longrightarrow> str_prefix m a n = xs"
proof (induction xs arbitrary: a n)
  case Nil
  then show ?case by (cases n) (simp_all add: str_prefix_Suc str_at_Nil str_prefix_0)
next
  case (Cons x xs)
  then show ?case by (cases n) (simp_all add: str_prefix_Suc str_at_Cons)
qed

text \<open>C7. \<open>ls\<close> prints the directory: it returns 0 and has put the names of the entries on the terminal,
  in the order of the directory and each on a line of its own, up to the first entry without a
  name.\<close>

theorem ls_lists_directory:
  assumes "user_process s sz" and "user_area buf 33" and "buf \<noteq> 0"
    and "literal s (str ''.'') ''.''" and "find_file (mem s) (filesys_addr s) [46] = Some entry" and "file_type entry = 1"
    and "file_arr_size (pcbs s (current_pcb s)) < 8" and "load_int (mem s) (filesys_addr s) = int n"
  shows "\<exists>s'. ls_main str buf (s, interrupts) = Some (0, (s', interrupts))
    \<and> user_term s' = fold spec_putc (listed (mem s) (filesys_addr s) 0 n) (user_term s)"
proof -
  note P = assms(1) [unfolded user_process_def]
  have name: "str ''.'' \<noteq> 0" "str_prefix (mem s) (str ''.'') 32 = [46]"
    using assms(4) str_at_prefix [of "mem s" "str ''.''" "[46]" 32] by (simp_all add: literal_def of_char_def)
  obtain fd s0 where s0: "ece391_open (str ''.'') (s, interrupts) = Some (fd, (s0, interrupts))" "opened entry fd s s0"
    and fd: "2 \<le> fd" "fd < 8"
    by (rule ece391_open_opens [OF _ _ _ name(1), of s sz entry interrupts]) (use P name(2) assms(5-7) in simp_all)
  note o = opened_env [OF s0(2) user_process_env [OF assms(1)] fd(1)]
  have "scratch_area s a \<or> mem s0 a = mem s a" for a
    using o(6) [of a] by (auto simp: scratch_area_def kernel_area_def in_region_def)
  then have same: "same_image (filesys_addr s) sz (mem s) (mem s0)" by (rule user_process_image [OF assms(1)])
  have dir: "entries_in_image (filesys_addr s) sz n" "sz \<le> 4294967296"
    using P assms(8) by (simp_all add: directory_ok_def exec_layout_def)
  note image = same_image_directory [OF same dir]
  have "fops_table (fd_of s0 (current_pcb s0) fd) = Some Dir_table" "flags (fd_of s0 (current_pcb s0) fd) \<noteq> 0"
    using opened_fd [OF s0(2)] assms(6) by (simp_all add: fd_setup_def)
  then have L: "listing s0 fd buf sz n"
    using P o(1,3,4) fd dir image(1) assms(2,3,8) by (simp add: listing_def exec_layout_def)
  have start: "dir_index s0 = int 0" using s0(2) assms(6) by (auto simp: opened_def)
  have "fd \<noteq> -1" using fd by simp
  then have "ls_main str buf (s, interrupts) = ls_loop str buf fd (s0, interrupts)"
    using s0(1) by (simp add: ls_main_def seq_Some)
  moreover have "listed (mem s0) (filesys_addr s) 0 n = listed (mem s) (filesys_addr s) 0 n"
    by (rule listed_cong) (rule image(2))
  ultimately show ?thesis using ls_loop_lists [OF L start] o(2,4) by auto
qed

text \<open>A state for the examples: a process on the first terminal, a directory with its own entry and that
  of a file \<open>a\<close>, and the name of the directory in the memory of the program.\<close>

definition user_image :: mem where
  "user_image = (\<lambda>_. 0)(0x10000 := 2, 0x10004 := 1, 0x10040 := 46, 0x10060 := 1, 0x10080 := 97, 0x100A0 := 2,
     0x11000 := 3, 0x12000 := 104, 0x12001 := 105, 0x12002 := 10, 0x08050000 := 46)"

definition sample_user :: process where
  "sample_user = sample_process\<lparr>mem := user_image,
     pcbs := \<lambda>_. (sample_pcb 1 0)\<lparr>args := 97 # replicate 126 0\<rparr>\<rparr>"

lemma sample_user_simps [simp]:
  "mem sample_user = user_image" "frame sample_user = 0x7FF000" "curr_terminal sample_user = 1"
  "curr_scheduled sample_user = 1" "filesys_addr sample_user = 0x10000"
  "pcbs sample_user p = (sample_pcb 1 0)\<lparr>args := 97 # replicate 126 0\<rparr>"
  "screen_x sample_user = (\<lambda>_. 0)" "screen_y sample_user = (\<lambda>_. 0)"
  by (simp_all add: sample_user_def) (simp_all add: sample_process_def)

lemma user_image_loads: "load32 user_image 0x10000 = 2" "load32 user_image 0x10004 = 1"
  "load32 user_image 0x10060 = 1" "load32 user_image 0x100A0 = 2" "load32 user_image 0x100A4 = 0"
  "load32 user_image 0x11000 = 3" "load32 user_image 0x11004 = 0"
  by (simp_all add: load32_def user_image_def)

lemma user_image_names: "entry_name user_image 0x10000 0 = [46]" "entry_name user_image 0x10000 (Suc 0) = [97]"
proof -
  show "entry_name user_image 0x10000 0 = [46]"
    using str_prefix_Suc [of user_image "0x10040" 31] str_prefix_Suc [of user_image "0x10041" 30]
    by (simp add: entry_name_def entry_addr_def user_image_def)
  show "entry_name user_image 0x10000 (Suc 0) = [97]"
    using str_prefix_Suc [of user_image "0x10080" 31] str_prefix_Suc [of user_image "0x10081" 30]
    by (simp add: entry_name_def entry_addr_def user_image_def)
qed

lemma user_image_files: "find_file user_image 0x10000 [46] = Some (load_dentry user_image 0x10040)"
  "find_file user_image 0x10000 [97] = Some (load_dentry user_image 0x10080)"
  "file_type (load_dentry user_image 0x10040) = 1" "file_type (load_dentry user_image 0x10080) = 2"
  "inode_num (load_dentry user_image 0x10080) = 0"
  by (simp_all add: find_file_def load_int_def user_image_loads user_image_names entry_addr_def load_dentry_def upt_rec)

lemma sample_user_process: "user_process sample_user 0x3000"
proof -
  have "exec_layout sample_user 0x3000" by (simp add: exec_layout_def disjoint_regions_def)
  moreover have "directory_ok sample_user 0x3000"
    by (simp add: directory_ok_def load_int_def user_image_loads entries_in_image_def in_image_def entry_addr_def upt_rec)
  moreover have "files_ok (pcbs sample_user (current_pcb sample_user))"
    by (simp add: files_ok_def sample_pcb_def sample_fd_def)
  moreover have "user_env sample_user"
    by (simp add: user_env_def cursor_ok_def stdout_open_def fd_of_def disjoint_regions_def)
      (simp add: sample_pcb_def sample_fd_def)
  ultimately show ?thesis by (simp add: user_process_def disjoint_regions_def)
qed

lemma sample_area:
  assumes "j + n \<le> 0x400000"
  shows "user_area (PROG_PAGE + of_nat j) n"
  unfolding user_area_def
proof (intro allI impI)
  fix i
  assume "i < n"
  then have "j + i < 0x400000" using assms by simp
  then have "in_region (PROG_PAGE + of_nat (j + i)) PROG_PAGE 0x400000" by (intro in_region_add) simp_all
  then show "in_region (PROG_PAGE + of_nat j + of_nat i) PROG_PAGE 0x400000" by (simp add: add.assoc)
qed

theorem ls_lists_directory_witness:
  "\<exists>s'. ls_main (\<lambda>_. 0x08050000) 0x08051000 (sample_user, []) = Some (0, (s', []))
    \<and> user_term s' = fold spec_putc [46, 10, 97, 10] (user_term sample_user)"
proof -
  have "user_area 0x08051000 33" "user_area 0x08050000 (Suc (Suc 0))"
    using sample_area [of "0x51000" 33] sample_area [of "0x50000" "Suc (Suc 0)"] by simp_all
  moreover have "str_at user_image 0x08050000 [46]" by (simp add: str_at_Cons str_at_Nil user_image_def)
  ultimately have "literal sample_user 0x08050000 ''.''" by (simp add: literal_def of_char_def)
  moreover have "listed user_image 0x10000 0 2 = [46, 10, 97, 10]"
    by (simp add: listed_def user_image_names upt_rec)
  ultimately show ?thesis
    using ls_lists_directory [OF sample_user_process \<open>user_area 0x08051000 33\<close>, of "\<lambda>_. 0x08050000" "load_dentry user_image 0x10040" 2 "[]"]
    by (simp add: user_image_files sample_pcb_def load_int_def user_image_loads)
qed

text \<open>The same with string literals in the memory of the program, 64 bytes apart.\<close>

definition text_index :: "string list \<Rightarrow> string \<Rightarrow> nat" where
  "text_index texts t = length (takeWhile (\<lambda>u. u \<noteq> t) texts)"

definition text_byte :: "string list \<Rightarrow> nat \<Rightarrow> u8" where
  "text_byte texts n = (let t = texts ! (n div 64) in if n mod 64 < length t then of_char (t ! (n mod 64)) else 0)"

definition text_at :: "string list \<Rightarrow> string \<Rightarrow> u32" where
  "text_at texts t = 0x08060000 + of_nat (64 * text_index texts t)"

definition with_texts :: "string list \<Rightarrow> 'a process_scheme \<Rightarrow> 'a process_scheme" where
  "with_texts texts s = s\<lparr>mem := fill_with (mem s) 0x08060000 0x1000 (text_byte texts)\<rparr>"

lemma text_index: "t \<in> set texts \<Longrightarrow> text_index texts t < length texts \<and> texts ! text_index texts t = t"
  unfolding text_index_def by (induction texts) auto

lemma with_texts_literal:
  assumes t: "t \<in> set texts" and texts: "length texts \<le> 64" and chars: "length t < 63" "0 \<notin> set (map of_char t :: u8 list)"
  shows "literal (with_texts texts s) (text_at texts t) t"
proof -
  have k: "text_index texts t < 64" "texts ! text_index texts t = t" using text_index [OF t] texts by simp_all
  have at: "mem (with_texts texts s) (text_at texts t + of_nat i) = (if i < length t then of_char (t ! i) else 0)"
    if "i \<le> length t" for i
  proof -
    have i: "i < 64" "64 * text_index texts t + i < 0x1000" using that chars k(1) by linarith+
    have "unat (of_nat (64 * text_index texts t + i) :: u32) = 64 * text_index texts t + i"
      using i by (intro unat_of_nat_small) simp
    moreover have "text_at texts t + of_nat i - 0x08060000 = of_nat (64 * text_index texts t + i)" by (simp add: text_at_def)
    ultimately have "unat (text_at texts t + of_nat i - 0x08060000) = 64 * text_index texts t + i" by (simp only:)
    then have "mem (with_texts texts s) (text_at texts t + of_nat i) = text_byte texts (64 * text_index texts t + i)"
      using i(2) by (simp add: with_texts_def fill_with_def in_region_def)
    then show ?thesis using i k(2) by (simp add: text_byte_def)
  qed
  have "bytes (mem (with_texts texts s)) (text_at texts t) (length t) = map of_char t"
    using at by (intro nth_equalityI) (simp_all add: nth_bytes)
  moreover have "mem (with_texts texts s) (text_at texts t + of_nat (length t)) = 0" using at [of "length t"] by simp
  moreover have "user_area (text_at texts t) (Suc (length t))"
    using sample_area [of "0x60000 + 64 * text_index texts t" "Suc (length t)"] chars k(1) by (simp add: text_at_def)
  moreover have "text_at texts t \<noteq> 0"
  proof
    assume "text_at texts t = 0"
    have "unat (of_nat (0x08060000 + 64 * text_index texts t) :: u32) = 0x08060000 + 64 * text_index texts t"
      using k(1) by (intro unat_of_nat_small) simp
    moreover have "text_at texts t = of_nat (0x08060000 + 64 * text_index texts t)" by (simp add: text_at_def)
    ultimately show False using \<open>text_at texts t = 0\<close> by (simp only: unat_0)
  qed
  ultimately show ?thesis using chars by (simp add: literal_def str_at_def)
qed

lemma with_texts_process:
  assumes P: "user_process s sz"
  shows "user_process (with_texts texts s) sz"
    and "find_file (mem (with_texts texts s)) (filesys_addr s) name = find_file (mem s) (filesys_addr s) name"
    and "filesys_addr (with_texts texts s) = filesys_addr s" "pcbs (with_texts texts s) = pcbs s"
    and "current_pcb (with_texts texts s) = current_pcb s" "user_env (with_texts texts s)"
    and "same_image (filesys_addr s) sz (mem s) (mem (with_texts texts s))"
proof -
  let ?t = "with_texts texts s"
  show fields: "filesys_addr ?t = filesys_addr s" "pcbs ?t = pcbs s" "current_pcb ?t = current_pcb s"
    by (simp_all add: with_texts_def current_pcb_def)
  have page: "in_region a PROG_PAGE 0x400000 \<or> mem ?t a = mem s a" for a
    using user_area_in [OF sample_area [of "0x60000" "0x1000"], of a] by (auto simp: with_texts_def fill_with_def)
  then have "in_region a (frame s) 64 \<or> in_region a PROG_PAGE 0x400000 \<or> mem ?t a = mem s a" for a by blast
  note same = user_same [OF user_process_env [OF P] this, of "dir_index s"]
  have upd: "s\<lparr>mem := mem ?t, dir_index := dir_index s\<rparr> = ?t" by (simp add: with_texts_def)
  show env: "user_env ?t" using same(2) by (simp only: upd)
  have ok: "files_ok (pcbs ?t (current_pcb ?t))" using P by (simp add: fields user_process_def)
  have scratch: "scratch_area s a \<or> mem ?t a = mem s a" for a using page [of a] by (auto simp: scratch_area_def)
  have "frame ?t = frame s" by (simp add: with_texts_def)
  note step = user_process_step [OF P env this fields(1) ok scratch]
  show "user_process ?t sz" "find_file (mem ?t) (filesys_addr s) name = find_file (mem s) (filesys_addr s) name"
    by (rule step)+
  show "same_image (filesys_addr s) sz (mem s) (mem ?t)" by (rule user_process_image [OF P scratch])
qed

end
