(* ===== verification/Typing_Laws.thy ===== *)
theory Typing_Laws
  imports User_Programs_Laws Keyboard_Laws
begin

text \<open>
  What a program sees of the keyboard: a line that is typed while the program waits appears on the
  terminal as it is typed, and \<open>read\<close> delivers it; output does not disturb a line.
\<close>

section \<open>Keys that are echoed\<close>

text \<open>What happens when keys are pressed that neither edit the line nor switch or clear the screen:
  characters \<open>cs\<close> appear and are added to the line, and only the screen is written.\<close>

definition typed :: "u8 list \<Rightarrow> 'a process_scheme \<Rightarrow> 'a process_scheme \<Rightarrow> bool" where
  "typed cs s s' \<longleftrightarrow> kb_ok s' \<and> behind s s' \<and> frame s' = frame s \<and> (\<forall>a. in_region a VIDEO 4000 \<or> mem s' a = mem s a)
     \<and> user_term s' = fold spec_putc cs (user_term s) \<and> kline (kview_of s') = kline (kview_of s) @ cs
     \<and> ctrl_key s' = ctrl_key s \<and> 0 \<notin> set cs \<and> 10 \<notin> set cs"

lemma typed_trans: "typed xs s s' \<Longrightarrow> typed ys s' s'' \<Longrightarrow> typed (xs @ ys) s s''"
  unfolding typed_def by (auto intro: behind_trans) (metis)+

lemma kb_char_line_table:
  "list_all (\<lambda>c. c \<noteq> 0x1C \<longrightarrow> kb_char c 0 0 \<noteq> 10 \<and> kb_char c 1 0 \<noteq> 10 \<and> kb_char c 0 1 \<noteq> 10 \<and> kb_char c 1 1 \<noteq> 10)
   (map of_nat [1..<54])"
  by code_simp

lemma kb_char_line:
  assumes "1 \<le> c" "c \<le> 0x35" "c \<noteq> 0x1C" "sh \<in> {0, 1}" "cp \<in> {0, 1}"
  shows "kb_char c sh cp \<noteq> 10"
  using scancode_cases [OF assms(1,2) kb_char_line_table] assms(3-5) by auto

lemma kb_action_cases:
  assumes ok: "kb_ok s" and c: "c \<notin> {0x0E, 0x3B, 0x3C, 0x3D}" and ctrl: "ctrl_key s = 0"
  obtains "kb_action c s = s" | "kb_action c s = s\<lparr>enter_flag := 1\<rparr>"
    | ch where "keyboard_buffer_index s < 128" and "ch \<noteq> 0" and "ch \<noteq> 10" and "kb_action c s = kb_store ch s"
proof (cases "c = 0x39 \<and> keyboard_buffer_index s < 128")
  case True
  then have "kb_action c s = kb_store 32 s" using c ctrl by (simp add: kb_action_def)
  with True show thesis by (intro that(3) [of 32]) simp_all
next
  case space: False
  show thesis
  proof (cases "keyboard_buffer_index s < 128 \<and> 1 \<le> c \<and> c \<le> 0x35 \<and> c \<noteq> 0x1C \<and> kb_char c (shift_key s) (cap_flag s) \<noteq> 0")
    case True
    have "kb_char c (shift_key s) (cap_flag s) \<noteq> 10" using True ok by (intro kb_char_line) (simp_all add: kb_ok_def)
    moreover have "kb_action c s = kb_store (kb_char c (shift_key s) (cap_flag s)) s"
      using True c ctrl by (auto simp: kb_action_def Let_def)
    ultimately show thesis using True by (intro that(3)) simp_all
  next
    case False
    show thesis
    proof (cases "c = 0x1C")
      case True
      then have "kb_action c s = s\<lparr>enter_flag := 1\<rparr>" using ctrl by (simp add: kb_action_def)
      then show thesis by (rule that(2))
    next
      case no_enter: False
      then have "kb_action c s = s" using False space c ctrl by (auto simp: kb_action_def Let_def)
      then show thesis by (rule that(1))
    qed
  qed
qed

lemma typed_store:
  assumes ok: "kb_ok s" and room: "keyboard_buffer_index s < 128" and ch: "ch \<noteq> 0" "ch \<noteq> 10"
  shows "typed [ch] s (kb_store ch s)"
proof -
  let ?t = "s\<lparr>keyboard_buffer := (keyboard_buffer s)[nat (keyboard_buffer_index s) := ch],
      keyboard_buffer_index := keyboard_buffer_index s + 1\<rparr>"
  have store: "kb_store ch s = putc2 ch ?t" by (simp add: kb_store_def Let_def)
  have ready: "screen_ready (curr_terminal s) ?t"
    using ok cursors_ok_current [of s] by (simp add: screen_ready_def kb_ok_def cursor_ok_def)
  have "user_term (kb_store ch s) = spec_putc ch (user_term ?t)"
    unfolding store user_term_def using con2.view_put [OF ready, of ch] by simp
  moreover have "user_term ?t = user_term s" by (simp add: user_term_def term_of_def)
  moreover have "in_region a VIDEO 4000 \<or> mem (kb_store ch s) a = mem s a" for a
    unfolding store using con2.mem_put [OF ready, of a ch] by auto
  moreover have "kline (kview_of (kb_store ch s)) = kline (kview_of s) @ [ch]"
    using kview_store [OF ok, of ch] room ok by (auto simp: spec_push_def kview_of_def kb_ok_def)
  ultimately show ?thesis
    using ch kb_store_ok [OF ok, of ch] room behind_kb_store [of s ch] by (simp add: typed_def store)
qed

lemma typed_same:
  assumes "kb_ok s'" "behind s s'" "frame s' = frame s" "mem s' = mem s" "screen_x s' = screen_x s" "screen_y s' = screen_y s"
    "curr_terminal s' = curr_terminal s" "kline (kview_of s') = kline (kview_of s)" "ctrl_key s' = ctrl_key s"
  shows "typed [] s s'"
  using assms by (simp add: typed_def user_term_def term_of_def)

lemma press_typed:
  assumes ok: "kb_ok s" and c: "c \<notin> {0x0E, 0x1D, 0x3B, 0x3C, 0x3D}" and ctrl: "ctrl_key s = 0"
  obtains cs where "typed cs s (press c s)"
proof -
  obtain p d where p: "press c s = kb_scancode c (s\<lparr>device := d, ports := p\<rparr>)" by (rule press_eq)
  define t where "t = kb_modifiers c (kb_shift c (s\<lparr>device := d, ports := p\<rparr>))"
  have t_ok: "kb_ok t" unfolding t_def using ok by (simp add: kb_modifiers_ok kb_shift_ok)
  have t_ctrl: "ctrl_key t = 0" using c ctrl by (simp add: t_def kb_modifiers_def kb_shift_def)
  have "behind s (s\<lparr>device := d, ports := p\<rparr>)" by (simp add: behind_def)
  then have t_behind: "behind s t"
    unfolding t_def by (rule behind_trans [OF behind_trans]) (rule behind_kb_shift)+
  have first: "typed [] s t"
    using t_ctrl ctrl t_behind
    by (intro typed_same t_ok) (simp_all add: t_def kb_modifiers_def kb_shift_def kview_of_def)
  have press: "press c s = kb_action c t" by (simp add: p t_def kb_scancode_def)
  have c': "c \<notin> {0x0E, 0x3B, 0x3C, 0x3D}" using c by blast
  consider "press c s = t" | "press c s = t\<lparr>enter_flag := 1\<rparr>"
    | ch where "keyboard_buffer_index t < 128" "ch \<noteq> 0" "ch \<noteq> 10" "press c s = kb_store ch t"
    unfolding press by (rule kb_action_cases [OF t_ok c' t_ctrl])
  then show thesis
  proof cases
    case 1
    with first show thesis by (intro that) simp
  next
    case 2
    have "typed [] t (t\<lparr>enter_flag := 1\<rparr>)"
      by (rule typed_same) (simp_all add: kb_enter_ok [OF t_ok] behind_updates kview_of_def)
    from typed_trans [OF first this] 2 show thesis by (intro that) simp
  next
    case (3 ch)
    from typed_trans [OF first typed_store [OF t_ok 3(1-3)]] 3(4) show thesis by (intro that) simp
  qed
qed

lemma fold_press_typed:
  "kb_ok s \<Longrightarrow> ctrl_key s = 0 \<Longrightarrow> set codes \<inter> {0x0E, 0x1D, 0x3B, 0x3C, 0x3D} = {} \<Longrightarrow> \<exists>cs. typed cs s (fold press codes s)"
proof (induction codes arbitrary: s)
  case Nil
  then have "typed [] s s" by (intro typed_same) simp_all
  then show ?case by auto
next
  case (Cons c codes)
  have c: "c \<notin> {0x0E, 0x1D, 0x3B, 0x3C, 0x3D}" "set codes \<inter> {0x0E, 0x1D, 0x3B, 0x3C, 0x3D} = {}" using Cons.prems(3) by auto
  obtain xs where xs: "typed xs s (press c s)" by (rule press_typed [OF Cons.prems(1) c(1) Cons.prems(2)])
  have "kb_ok (press c s)" "ctrl_key (press c s) = 0" using xs Cons.prems(2) by (simp_all add: typed_def)
  then obtain ys where "typed ys (press c s) (fold press codes (press c s))" using Cons.IH c(2) by blast
  from typed_trans [OF xs this] show ?case by auto
qed

section \<open>A program that reads a line\<close>

text \<open>The keys of a line and enter, for a process whose terminal is displayed. \<open>line\<close> is what they
  add to the empty line; it appears with a line feed, and is delivered.\<close>

lemma terminal_read_typed:
  assumes ok: "kb_ok s" and fresh: "kline (kview_of s) = []" "ctrl_key s = 0" "enter_flag s = 0"
    and fg: "curr_terminal s = curr_scheduled s"
    and codes: "set codes \<inter> {0x0E, 0x1C, 0x1D, 0x3B, 0x3C, 0x3D} = {}"
  defines "line \<equiv> kline (fold spec_key codes (kview_of s))"
  obtains s' w where "terminal_read fd buf 1023 (map press (codes @ [0x1C]) @ rest) s = Some (int (length line), s', rest)"
    and "typed line s w" and "length line \<le> 128" and "kb_ok s'" and "kview_of s' = (kview_of w)\<lparr>kline := [], kenter := False\<rparr>"
    and "behind s s'" and "frame s' = frame s" and "screen_x s' = screen_x (putc2 10 w)" and "screen_y s' = screen_y (putc2 10 w)"
    and "mem s' = fill_with (mem (putc2 10 w)) buf (length line) (\<lambda>i. line ! i)"
proof -
  define w where "w = fold press (codes @ [0x1C]) (sti s)"
  have ok1: "kb_ok (sti s)" using ok by (simp add: sti_def kb_ok_def cursors_ok_def cursor_ok_def)
  have view1: "kview_of (sti s) = kview_of s" by (simp add: kview_of_def sti_def)
  have keys: "set codes \<inter> {0x0E, 0x3B, 0x3C, 0x3D} = {}" "set (codes @ [0x1C]) \<inter> {0x0E, 0x3B, 0x3C, 0x3D} = {}"
    "set (codes @ [0x1C]) \<inter> {0x0E, 0x1D, 0x3B, 0x3C, 0x3D} = {}" "set codes \<inter> {0x0E, 0x1C, 0x3B, 0x3C, 0x3D} = {}"
    using codes by auto
  have wait: "terminal_wait (map press (codes @ [0x1C]) @ rest) (sti s) = Some (w, rest)"
    unfolding w_def using keys(4) fresh fg by (intro terminal_wait_line ok1) (simp_all add: sti_def)
  have "kline (spec_key 0x1C v) = kline v" for v by (simp add: spec_key_def spec_modifiers_def Let_def)
  then have line: "kline (kview_of w) = line"
    unfolding w_def fold_press(2) [OF ok1 keys(2)] view1 by (simp add: line_def)
  have "ctrl_key (sti s) = 0" using fresh by (simp add: sti_def)
  then obtain cs where cs: "typed cs (sti s) w" unfolding w_def using fold_press_typed [OF ok1 _ keys(3)] by blast
  have "typed [] s (sti s)"
    using ok1 view1 by (intro typed_same) (simp_all add: sti_def behind_def)
  from typed_trans [OF this cs] have cs': "typed cs s w" by simp
  then have "cs = line" using line fresh(1) by (simp add: typed_def)
  with cs' have typed: "typed line s w" by simp
  have w_ok: "kb_ok w" using typed by (simp add: typed_def)
  then have len: "length line = nat (keyboard_buffer_index w)" "length line \<le> 128"
    "line = take (length line) (keyboard_buffer w)" "length (keyboard_buffer w) = 128" "keyboard_buffer_index w \<le> 128"
    "0 \<le> keyboard_buffer_index w"
    using line by (auto simp: kb_ok_def kview_of_def)
  define s' where "s' = (putc2 10 (w\<lparr>enter_flag := 0\<rparr>))\<lparr>mem := store_line buf (keyboard_buffer w) (length line)
      (mem (putc2 10 (w\<lparr>enter_flag := 0\<rparr>))), keyboard_buffer := clear_line, keyboard_buffer_index := 0\<rparr>"
  have read: "terminal_read fd buf 1023 (map press (codes @ [0x1C]) @ rest) s = Some (int (length line), s', rest)"
    using wait len by (simp add: terminal_read_def Let_def s'_def)
  have fill: "store_line buf (keyboard_buffer w) (length line) m = fill_with m buf (length line) (\<lambda>i. line ! i)" for m
  proof -
    have "store_line buf (keyboard_buffer w) (length line) m = fill_with m buf (length line) (\<lambda>i. keyboard_buffer w ! i)"
      using len by (intro store_line_fill) simp_all
    also have "\<dots> = fill_with m buf (length line) (\<lambda>i. line ! i)"
      by (rule fill_with_cong) (metis len(3) nth_take)
    finally show ?thesis .
  qed
  have enter: "putc2 10 (w\<lparr>enter_flag := 0\<rparr>) = (putc2 10 w)\<lparr>enter_flag := 0\<rparr>"
    by (simp add: putc2_def put_glyph_def scroll_def update_cursor_def outb_def Let_def)
  show thesis
  proof (rule that [OF read typed len(2)])
    show "kb_ok s'"
      using w_ok cursors_ok_putc2 [of w 10] by (simp add: s'_def enter kb_ok_def clear_line_def cursors_ok_def cursor_ok_def)
    show "kview_of s' = (kview_of w)\<lparr>kline := [], kenter := False\<rparr>" by (simp add: s'_def enter kview_of_def)
    have "behind s w" using typed by (simp add: typed_def)
    then show "behind s s'"
      unfolding s'_def enter by (rule behind_trans) (simp add: behind_def putc2_def put_glyph_def scroll_def update_cursor_def outb_def Let_def)
    show "frame s' = frame s" using typed by (simp add: s'_def enter typed_def)
    show "screen_x s' = screen_x (putc2 10 w)" "screen_y s' = screen_y (putc2 10 w)" by (simp_all add: s'_def enter)
    show "mem s' = fill_with (mem (putc2 10 w)) buf (length line) (\<lambda>i. line ! i)" by (simp add: s'_def enter fill)
  qed
qed

text \<open>A program can read a line: its terminal is displayed, standard input is open, and no line has
  been begun.\<close>

definition can_read :: "'a process_scheme \<Rightarrow> bool" where
  "can_read s \<longleftrightarrow> kb_ok s \<and> kline (kview_of s) = [] \<and> ctrl_key s = 0 \<and> enter_flag s = 0
     \<and> fops_table (fd_of s (current_pcb s) 0) = Some Stdin_table \<and> flags (fd_of s (current_pcb s) 0) \<noteq> 0"

definition typed_line :: "u8 list \<Rightarrow> 'a keyboard_scheme \<Rightarrow> u8 list" where
  "typed_line codes s = kline (fold spec_key codes (kview_of s))"

lemma ece391_read_line:
  assumes env: "user_env s" and ready: "can_read s" and buf: "buf \<noteq> 0" "user_area buf 128"
    and codes: "set codes \<inter> {0x0E, 0x1C, 0x1D, 0x3B, 0x3C, 0x3D} = {}"
  defines "line \<equiv> typed_line codes s"
  obtains s' where "ece391_read 0 buf 1023 (s, map press (codes @ [0x1C]) @ rest) = Some (int (length line), (s', rest))"
    and "user_env s'" and "can_read s'" and "behind s s'" and "frame s' = frame s"
    and "user_term s' = fold spec_putc (line @ [10]) (user_term s)"
    and "bytes (mem s') buf (length line) = line" and "length line \<le> 128" and "0 \<notin> set line" and "10 \<notin> set line"
    and "\<And>a. in_region a VIDEO 4000 \<or> in_region a buf (length line) \<or> mem s' a = mem s a"
proof -
  have r: "kb_ok s" "kline (kview_of s) = []" "ctrl_key s = 0" "enter_flag s = 0" "curr_terminal s = curr_scheduled s"
    "fops_table (fd_of s (current_pcb s) 0) = Some Stdin_table" "flags (fd_of s (current_pcb s) 0) \<noteq> 0"
    using ready env by (simp_all add: can_read_def user_env_def)
  obtain t w where t: "terminal_read 0 buf 1023 (map press (codes @ [0x1C]) @ rest) s = Some (int (length line), t, rest)"
    and w: "typed line s w" and len: "length line \<le> 128" and t_ok: "kb_ok t"
    and t_view: "kview_of t = (kview_of w)\<lparr>kline := [], kenter := False\<rparr>"
    and t_behind: "behind s t" and t_frame: "frame t = frame s"
    and t_x: "screen_x t = screen_x (putc2 10 w)" "screen_y t = screen_y (putc2 10 w)"
    and t_mem: "mem t = fill_with (mem (putc2 10 w)) buf (length line) (\<lambda>i. line ! i)"
    unfolding line_def typed_line_def by (rule terminal_read_typed [OF r(1-5) codes])
  define s' where "s' = t\<lparr>intr := intr s\<rparr>"
  have run: "ece391_read 0 buf 1023 (s, map press (codes @ [0x1C]) @ rest) = Some (int (length line), (s', rest))"
  proof -
    have "sys_read 0 buf 1023 (map press (codes @ [0x1C]) @ rest) s = Done (int (length line), t, rest)"
      using r(6,7) buf(1) t by (simp add: sys_read_def Let_def table_read_def)
    moreover have "sint (of_int (int (length line)) :: u32) = int (length line)" using len by (intro sint_of_int_u32) simp_all
    ultimately show ?thesis
      by (simp add: ece391_read_def do_call_def system_calls_assembly_def iret_def s'_def)
  qed
  have cur: "curr_terminal t = curr_terminal s" "curr_scheduled t = curr_scheduled s" "curr_terminal w = curr_terminal s"
    using t_behind w by (simp_all add: behind_def typed_def)
  have ready_w: "screen_ready (curr_terminal s) w"
    using w cur(3) cursors_ok_current [of w] by (simp add: screen_ready_def typed_def kb_ok_def)
  have area: "user_area buf (length line)" using user_area_part [OF buf(2), of 0 "length line"] len by simp
  have not_buf: "\<not> in_region a buf (length line)" if "in_region a VIDEO 4000" for a
    using user_area_in [OF area] disjoint_regions_not_in [OF _ that, of PROG_PAGE "0x400000"]
    by (auto simp: disjoint_regions_def)
  have "user_term s' = term_of VIDEO (curr_terminal s - 1) (putc2 10 w)"
    unfolding user_term_def term_of_def using cur t_x t_mem not_buf
    by (simp add: s'_def fill_with_def cong: screen_chars_cong)
  also have "\<dots> = spec_putc 10 (user_term w)" unfolding user_term_def using con2.view_put [OF ready_w, of 10] cur(3) by simp
  finally have view: "user_term s' = fold spec_putc (line @ [10]) (user_term s)" using w by (simp add: typed_def)
  have m: "in_region a VIDEO 4000 \<or> in_region a buf (length line) \<or> mem s' a = mem s a" for a
  proof -
    have "in_region a VIDEO 4000 \<or> mem w a = mem s a" using w by (simp add: typed_def)
    then show ?thesis using con2.mem_put [OF ready_w, of a 10]
      by (cases "in_region a VIDEO 4000") (auto simp: s'_def t_mem fill_with_def)
  qed
  have fields: "current_pcb s' = current_pcb s" "fd_of s' p fd = fd_of s p fd" for p fd
    using behind_fields(3,4) [OF t_behind] by (simp_all add: s'_def fd_of_def current_pcb_def)
  have "cursor_ok (curr_terminal s - 1) t"
    using t_ok cur(1) cursors_ok_current [of t] by (simp add: kb_ok_def)
  then have "user_env s'"
    using env cur t_frame fields by (simp add: user_env_def stdout_open_def s'_def cursor_ok_def)
  moreover have "can_read s'"
  proof -
    have "kb_ok s'" using t_ok by (simp add: s'_def kb_ok_def cursors_ok_def cursor_ok_def)
    moreover have view: "kview_of s' = kview_of t" by (simp add: s'_def kview_of_def)
    moreover have "\<not> kenter (kview_of s')" "\<not> kctrl (kview_of s')" 
      using t_view w r(3) by (simp_all add: view) (simp add: typed_def kview_of_def)
    ultimately show ?thesis using r(6,7) t_view fields by (auto simp: can_read_def kview_of_def kb_ok_def)
  qed
  moreover have "behind s s'" using behind_trans [OF t_behind behind_updates(4)] by (simp add: s'_def)
  moreover have "bytes (mem s') buf (length line) = line"
    using len by (simp add: s'_def t_mem bytes_fill_with map_nth)
  moreover have "0 \<notin> set line" "10 \<notin> set line" using w by (simp_all add: typed_def)
  moreover have "frame s' = frame s" using t_frame by (simp add: s'_def)
  ultimately show thesis using run view m len by (intro that [of s'])
qed

section \<open>Output leaves the line alone\<close>

definition line_kept :: "'a keyboard_scheme \<Rightarrow> 'a keyboard_scheme \<Rightarrow> bool" where
  "line_kept s s' \<longleftrightarrow> curr_terminal s' = curr_terminal s \<and> curr_scheduled s' = curr_scheduled s
     \<and> (kb_ok s \<longrightarrow> kb_ok s') \<and> kview_of s' = kview_of s \<and> ctrl_key s' = ctrl_key s \<and> enter_flag s' = enter_flag s"

lemma line_kept_trans: "line_kept s s' \<Longrightarrow> line_kept s' s'' \<Longrightarrow> line_kept s s''"
  by (simp add: line_kept_def)

lemma line_kept_putc2: "line_kept s (putc2 c s)"
  using cursors_ok_putc2 [of s c] by (auto simp: line_kept_def kb_ok_def kview_of_def)

lemma line_kept_putfile_loop:
  "curr_scheduled s = curr_terminal s \<Longrightarrow> line_kept s (snd (putfile_loop str len index s))"
proof (induction str len index s rule: putfile_loop.induct)
  case (1 str len index s)
  let ?s = "if mem s (str + index) \<noteq> 0 then put_user (mem s (str + index)) s else s"
  have put: "line_kept s ?s" using 1(2) by (simp add: put_user_def line_kept_putc2) (simp add: line_kept_def)
  show ?case
  proof (cases "index < len")
    case True
    have "line_kept ?s (snd (putfile_loop str len (index + 1) ?s))"
      using put 1(2) by (intro 1(1)) (simp_all add: True line_kept_def del: fun_upd_apply)
    with put have "line_kept s (snd (putfile_loop str len (index + 1) ?s))" by (rule line_kept_trans)
    with True show ?thesis by (subst putfile_loop.simps) (simp add: Let_def)
  next
    case False
    then show ?thesis by (subst putfile_loop.simps) (simp add: line_kept_def)
  qed
qed

lemma line_kept_updates:
  "line_kept s (cli s)" "line_kept s (sti s)" "line_kept s (s\<lparr>mem := m\<rparr>)"
  "line_kept s (s\<lparr>keyboard_buffer1 := clear_line\<rparr>)" "line_kept s (s\<lparr>keyboard_buffer2 := clear_line\<rparr>)"
  "line_kept s (s\<lparr>keyboard_buffer3 := clear_line\<rparr>)"
  "line_kept s (s\<lparr>kb1_pos := 0\<rparr>)" "line_kept s (s\<lparr>kb2_pos := 0\<rparr>)" "line_kept s (s\<lparr>kb3_pos := 0\<rparr>)"
  by (simp_all add: line_kept_def kb_ok_def kview_of_def cursors_ok_def cursor_ok_def cli_def sti_def clear_line_def)

lemma line_kept_terminal_write:
  assumes "curr_scheduled s = curr_terminal s"
  shows "line_kept s (snd (terminal_write fd buf n s))"
proof -
  define m where "m = (copy_loop (frame s) buf n 0 (mem s))(frame s + of_int n := 0)"
  obtain x u where u: "print_withoutnull buf n s = (x, u)" by (cases "print_withoutnull buf n s")
  then have "u = snd (putfile_loop (frame s) (of_int (n + 1)) 0 (s\<lparr>mem := m\<rparr>))"
    by (simp add: print_withoutnull_def putfile_def Let_def m_def prod_eq_iff)
  then have "line_kept (s\<lparr>mem := m\<rparr>) u" using line_kept_putfile_loop [of "s\<lparr>mem := m\<rparr>"] assms by simp
  with line_kept_updates(3) have s_u: "line_kept s u" by (rule line_kept_trans)
  define b where "b = (\<lambda>s :: 'a keyboard_scheme. if curr_scheduled s = 1 then s\<lparr>keyboard_buffer1 := clear_line\<rparr>
      else if curr_scheduled s = 2 then s\<lparr>keyboard_buffer2 := clear_line\<rparr>
      else if curr_scheduled s = 3 then s\<lparr>keyboard_buffer3 := clear_line\<rparr> else s)"
  define p where "p = (\<lambda>s :: 'a keyboard_scheme. if curr_scheduled s = 1 then s\<lparr>kb1_pos := 0\<rparr>
      else if curr_scheduled s = 2 then s\<lparr>kb2_pos := 0\<rparr>
      else if curr_scheduled s = 3 then s\<lparr>kb3_pos := 0\<rparr> else s)"
  have refl: "line_kept v v" for v :: "'a keyboard_scheme" by (simp add: line_kept_def)
  have b: "line_kept v (b v)" and p: "line_kept v (p v)" for v
    by (simp_all add: b_def p_def line_kept_updates refl)
  have "line_kept s (sti (p (b (cli u))))"
    by (rule line_kept_trans [OF s_u line_kept_trans [OF line_kept_updates(1)
          line_kept_trans [OF b line_kept_trans [OF p line_kept_updates(2)]]]])
  moreover have "terminal_write fd buf n s = (if buf = 0 \<or> n < 0 then (- 1, s)
      else if n = 0 then (0, s) else (sint x, sti (p (b (cli u)))))"
    unfolding terminal_write_def Let_def u b_def p_def by (simp only: prod.case)
  ultimately show ?thesis using refl by simp
qed

lemma ece391_write_state:
  assumes env: "user_env s" and a: "a \<noteq> 0" and n: "0 \<le> n" "n < 2147483648"
    and run: "ece391_write 1 a n (s, interrupts) = Some (r, (s', rest))"
  shows "s' = (snd (terminal_write 1 a n (s\<lparr>intr := False\<rparr>)))\<lparr>intr := intr s\<rparr>"
proof -
  obtain x u where u: "terminal_write 1 a n (s\<lparr>intr := False\<rparr>) = (x, u)" by (cases "terminal_write 1 a n (s\<lparr>intr := False\<rparr>)")
  have "sint (of_int n :: u32) = n" using n by (intro sint_of_int_u32) simp_all
  moreover have "sys_write 1 a n s = Done (x, u\<lparr>intr := True\<rparr>)"
    using env a u
    by (simp add: sys_write_def Let_def user_env_def stdout_open_def fd_of_def current_pcb_def table_write_def cli_def sti_def)
  ultimately show ?thesis
    using run u by (simp add: ece391_write_def do_call_def system_calls_assembly_def back_outcome_def iret_def)
qed

lemma ece391_fdputs_line:
  assumes env: "user_env s" and ready: "can_read s" and str: "literal s a t" "length t < 2047"
  obtains s' where "ece391_fdputs 1 a (s, interrupts) = Some ((), (s', interrupts))" and "shows_text (map of_char t) s s'"
    and "can_read s'" and "kview_of s' = kview_of s"
proof -
  have s: "str_at (mem s) a (map of_char t)" "length (map of_char t :: u8 list) < 2047" "a \<noteq> 0" "user_area a (length (map of_char t :: u8 list))"
    using str user_area_part [of a "Suc (length t)" 0 "length t"] by (simp_all add: literal_def)
  obtain s' where s': "ece391_fdputs 1 a (s, interrupts) = Some ((), (s', interrupts))" "shows_text (map of_char t) s s'"
    by (rule ece391_fdputs_shows [OF env s])
  have len: "ece391_strlen (mem s) a = Some (of_nat (length t))"
    using strlen_str_at [OF s(1)] by (simp add: ece391_strlen_eq)
  have sint: "sint (of_nat (length t) :: u32) = int (length t)" using str(2) by (simp add: sint_of_nat_u32)
  have "seq (ece391_write 1 a (int (length t))) (\<lambda>_. gives ()) (s, interrupts) = Some ((), (s', interrupts))"
    using s'(1) len sint by (simp add: ece391_fdputs_def seq_computes)
  then obtain r rest where "ece391_write 1 a (int (length t)) (s, interrupts) = Some (r, (s', rest))"
    by (auto simp: seq_def gives_def split: Option.bind_splits)
  then have state: "s' = (snd (terminal_write 1 a (int (length t)) (s\<lparr>intr := False\<rparr>)))\<lparr>intr := intr s\<rparr>"
    using str(2) by (intro ece391_write_state [OF env s(3)]) simp_all
  have intr: "line_kept v (v\<lparr>intr := i\<rparr>)" for v :: "'a process_scheme" and i
    by (simp add: line_kept_def kb_ok_def kview_of_def cursors_ok_def cursor_ok_def)
  have "line_kept s s'"
    unfolding state using env
    by (intro line_kept_trans [OF intr line_kept_trans [OF line_kept_terminal_write intr]]) (simp add: user_env_def)
  moreover have "pcbs s' = pcbs s" "current_pcb s' = current_pcb s"
    using s'(2) behind_fields by (auto simp: shows_text_def)
  ultimately have "can_read s'" "kview_of s' = kview_of s" using ready by (simp_all add: can_read_def line_kept_def fd_of_def)
  with s' show thesis by (rule that)
qed

text \<open>A string in the program's memory survives output and a read into a buffer elsewhere.\<close>

lemma literal_shows: "user_env s \<Longrightarrow> shows_text cs s s' \<Longrightarrow> literal s a t \<Longrightarrow> literal s' a t"
  by (erule literal_same) (rule shows_text_user)

section \<open>A line as a string\<close>

lemma bytes_end_0: "bytes m buf n = xs \<Longrightarrow> n < 4294967296 \<Longrightarrow> 0 \<notin> set xs \<Longrightarrow> str_at (m(buf + of_nat n := 0)) buf xs"
proof -
  assume a: "bytes m buf n = xs" "n < 4294967296" "0 \<notin> set xs"
  then have n: "length xs = n" by auto
  have "bytes (m(buf + of_nat n := 0)) buf n = xs"
  proof (rule nth_equalityI)
    fix i
    assume "i < length (bytes (m(buf + of_nat n := 0)) buf n)"
    then have i: "i < n" by simp
    then have "buf + of_nat i \<noteq> buf + of_nat n" using a(2) of_nat_u32_inject [of i n] by simp
    then show "bytes (m(buf + of_nat n := 0)) buf n ! i = xs ! i" using i a(1) nth_bytes [of i n m buf] by (simp add: nth_bytes)
  qed (simp add: n)
  then show ?thesis using a(3) n by (simp add: str_at_def)
qed

text \<open>A program reads a line and puts a NUL behind it.\<close>

lemma read_string:
  assumes env: "user_env s" and ready: "can_read s" and buf: "buf \<noteq> 0" "user_area buf 129"
    and codes: "set codes \<inter> {0x0E, 0x1C, 0x1D, 0x3B, 0x3C, 0x3D} = {}"
  defines "line \<equiv> typed_line codes s"
  obtains t s' where "ece391_read 0 buf 1023 (s, map press (codes @ [0x1C]) @ rest) = Some (int (length line), (t, rest))"
    and "line \<noteq> [] \<Longrightarrow> mem t (buf + of_int (int (length line) - 1)) \<noteq> 10"
    and "s' = t\<lparr>mem := (mem t)(buf + of_int (int (length line)) := 0)\<rparr>"
    and "user_env s'" and "can_read s'" and "behind s s'" and "frame s' = frame s"
    and "user_term s' = fold spec_putc (line @ [10]) (user_term s)" and "str_at (mem s') buf line" and "length line \<le> 128"
    and "\<And>a. in_region a VIDEO 4000 \<or> in_region a buf 129 \<or> mem s' a = mem s a"
proof -
  have area: "user_area buf 128" using user_area_part [OF buf(2), of 0 128] by simp
  obtain t where run: "ece391_read 0 buf 1023 (s, map press (codes @ [0x1C]) @ rest) = Some (int (length line), (t, rest))"
    and t: "user_env t" "can_read t" "behind s t" "frame t = frame s" "user_term t = fold spec_putc (line @ [10]) (user_term s)"
    and line: "bytes (mem t) buf (length line) = line" "length line \<le> 128" "0 \<notin> set line" "10 \<notin> set line"
    and m: "\<And>a. in_region a VIDEO 4000 \<or> in_region a buf (length line) \<or> mem t a = mem s a"
    unfolding line_def by (rule ece391_read_line [OF env ready buf(1) area codes]) blast
  define s' where "s' = t\<lparr>mem := (mem t)(buf + of_nat (length line) := 0)\<rparr>"
  have at: "in_region (buf + of_nat (length line)) buf 129" using line(2) by (intro in_region_add) simp_all
  have page: "in_region a (frame t) 64 \<or> in_region a PROG_PAGE 0x400000 \<or> mem s' a = mem t a" for a
    using user_area_in [OF buf(2) at] by (auto simp: s'_def)
  have upd: "t\<lparr>mem := mem s', dir_index := dir_index t\<rparr> = s'" by (simp add: s'_def)
  note same = user_same [OF t(1) page, of "dir_index t", unfolded upd]
  show thesis
  proof (rule that [OF run])
    show "mem t (buf + of_int (int (length line) - 1)) \<noteq> 10" if "line \<noteq> []"
    proof -
      have "of_int (int (length line) - 1) = (of_nat (length line - 1) :: u32)" using that by (simp add: of_nat_diff Suc_leI)
      moreover have "mem t (buf + of_nat (length line - 1)) = line ! (length line - 1)"
        using nth_bytes [of "length line - 1" "length line" "mem t" buf] line(1) that by simp
      moreover have "line ! (length line - 1) \<in> set line" using that by simp
      ultimately show ?thesis using line(4) by (simp only:) metis
    qed
    show "s' = t\<lparr>mem := (mem t)(buf + of_int (int (length line)) := 0)\<rparr>" by (simp add: s'_def)
    show "user_env s'" "user_term s' = fold spec_putc (line @ [10]) (user_term s)" using same t(5) by simp_all
    show "can_read s'" using t(2) by (simp add: s'_def can_read_def kb_ok_def kview_of_def cursors_ok_def cursor_ok_def fd_of_def current_pcb_def)
    show "behind s s'" unfolding s'_def by (rule behind_trans [OF t(3) behind_updates(1)])
    show "frame s' = frame s" using t(4) by (simp add: s'_def)
    show "str_at (mem s') buf line" using bytes_end_0 [OF line(1) _ line(3)] line(2) by (simp add: s'_def)
    show "in_region a VIDEO 4000 \<or> in_region a buf 129 \<or> mem s' a = mem s a" for a
      using m [of a] at line(2) by (auto simp: s'_def in_region_def)
  qed (rule line(2))
qed

definition apart_from :: "u32 \<Rightarrow> nat \<Rightarrow> u32 \<Rightarrow> string \<Rightarrow> bool" where
  "apart_from buf n a t \<longleftrightarrow> disjoint_regions buf n a (Suc (length t))"

lemma literal_apart:
  assumes "literal s a t" and "apart_from buf n a t"
    and "\<And>b. in_region b VIDEO 4000 \<or> in_region b buf n \<or> mem s' b = mem s b"
  shows "literal s' a t"
proof (rule literal_cong [OF assms(1)])
  have len: "Suc (length t) \<le> 4294967296"
    using str_at_length [of "mem s" a "map of_char t"] assms(1) by (simp add: literal_def)
  show "mem s' (a + of_nat i) = mem s (a + of_nat i)" if "i \<le> length t" for i
  proof -
    have "in_region (a + of_nat i) PROG_PAGE 0x400000" using assms(1) that by (simp add: literal_def user_area_def)
    then have "\<not> in_region (a + of_nat i) VIDEO 4000" using disjoint_regions_not_in [of PROG_PAGE "0x400000" VIDEO 4000]
      by (simp add: disjoint_regions_def)
    moreover have "in_region (a + of_nat i) a (Suc (length t))" using that len by (intro in_region_add) simp_all
    then have "\<not> in_region (a + of_nat i) buf n"
      using assms(2) disjoint_regions_not_in by (auto simp: apart_from_def disjoint_regions_sym)
    ultimately show ?thesis using assms(3) [of "a + of_nat i"] by blast
  qed
qed

end
