(* ===== verification/Shell_Laws.thy ===== *)
theory Shell_Laws
  imports Typing_Laws
begin

text \<open>
  The programs that read the keyboard: \<open>hello\<close> answers with the line that is typed, and the shell
  starts the program that the line names.
\<close>

section \<open>hello\<close>

text \<open>\<open>hello\<close> asks, waits while a line is typed on its terminal, and greets: the question, the line
  as it is typed and the answer with the line appear on the terminal, and \<open>main\<close> returns 0.\<close>

theorem hello_greets:
  assumes "user_env s" and "can_read s" and "buf \<noteq> 0" and "user_area buf 129"
    and "literal s (str ''Hi, what's your name? '') ''Hi, what's your name? ''"
    and "literal s (str ''Hello, '') ''Hello, ''" and "apart_from buf 129 (str ''Hello, '') ''Hello, ''"
    and "set codes \<inter> {0x0E, 0x1C, 0x1D, 0x3B, 0x3C, 0x3D} = {}" and "line = typed_line codes s"
  shows "\<exists>s'. hello_main str buf (s, map press (codes @ [0x1C]) @ rest) = Some (0, (s', rest))
    \<and> user_term s' = fold spec_putc (map of_char ''Hi, what's your name? '' @ line @ [10] @ map of_char ''Hello, '' @ line) (user_term s)"
proof -
  have "length ''Hi, what's your name? '' < 2047" by simp
  then obtain s1 where s1: "ece391_fdputs 1 (str ''Hi, what's your name? '') (s, map press (codes @ [0x1C]) @ rest)
      = Some ((), (s1, map press (codes @ [0x1C]) @ rest))" "shows_text (map of_char ''Hi, what's your name? '') s s1"
    "can_read s1" "kview_of s1 = kview_of s"
    by (rule ece391_fdputs_line [OF assms(1,2,5)])
  have env1: "user_env s1" using s1(2) by (simp add: shows_text_def)
  have line1: "typed_line codes s1 = line" using s1(4) assms(9) by (simp add: typed_line_def)
  obtain t s2 where read: "ece391_read 0 buf 1023 (s1, map press (codes @ [0x1C]) @ rest) = Some (int (length line), (t, rest))"
    and s2: "s2 = t\<lparr>mem := (mem t)(buf + of_int (int (length line)) := 0)\<rparr>" "user_env s2" "can_read s2"
      "user_term s2 = fold spec_putc (line @ [10]) (user_term s1)" "str_at (mem s2) buf line" "length line \<le> 128"
    and m: "\<And>a. in_region a VIDEO 4000 \<or> in_region a buf 129 \<or> mem s2 a = mem s1 a"
    using read_string [OF env1 s1(3) assms(3,4,8), of rest, unfolded line1] by blast
  have "literal s2 (str ''Hello, '') ''Hello, ''"
    by (rule literal_apart [OF literal_shows [OF assms(1) s1(2) assms(6)] assms(7) m])
  moreover have "length ''Hello, '' < 2047" by simp
  ultimately obtain s3 where s3: "ece391_fdputs 1 (str ''Hello, '') (s2, rest) = Some ((), (s3, rest))"
    "shows_text (map of_char ''Hello, '') s2 s3"
    by (rule ece391_fdputs_line [OF s2(2,3)])
  have env3: "user_env s3" using s3(2) by (simp add: shows_text_def)
  have area: "user_area buf (Suc (length line))" using user_area_part [OF assms(4), of 0 "Suc (length line)"] s2(6) by simp
  have "mem s3 (buf + of_nat i) = mem s2 (buf + of_nat i)" if "i \<le> length line" for i
    using area that by (intro shows_text_user [OF s2(2) s3(2)]) (simp add: user_area_def)
  then have "str_at (mem s3) buf line" using s2(5) by (auto simp: str_at_def bytes_eq_iff)
  then obtain s4 where s4: "ece391_fdputs 1 buf (s3, rest) = Some ((), (s4, rest))" "shows_text line s3 s4"
    using user_area_part [OF area, of 0 "length line"] s2(6) assms(3)
    by (auto intro: ece391_fdputs_shows [OF env3, of buf line rest])
  have "hello_main str buf (s, map press (codes @ [0x1C]) @ rest) = Some (0, (s4, rest))"
    using s1(1) read s2(1) s3(1) s4(1) by (simp add: hello_main_def seq_Some gives_def)
  then show ?thesis
    using s1(2) s2(4) s3(2) s4(2) by (simp add: shows_text_def)
qed

definition sample_hello :: process where
  "sample_hello = with_texts [''Hi, what's your name? '', ''Hello, ''] sample_user"

lemma sample_user_reads: "can_read sample_user"
  by (simp add: can_read_def sample_user_def sample_process_def kb_ok_def cursors_ok_def cursor_ok_def kview_of_def
      fd_of_def sample_pcb_def sample_fd_def)

lemma with_texts_reads: "can_read s \<Longrightarrow> can_read (with_texts texts s)" "typed_line codes (with_texts texts s) = typed_line codes s"
  by (simp_all add: with_texts_def can_read_def kb_ok_def cursors_ok_def cursor_ok_def kview_of_def fd_of_def current_pcb_def
      typed_line_def)

lemma sample_typed: "typed_line [0x1E, 0x20, 0x1E] sample_user = [97, 100, 97]"
  by (simp add: typed_line_def kview_of_def sample_user_def sample_process_def spec_key_def spec_modifiers_def
      spec_push_def spec_char_def char_list_def upper_char_list_def)

theorem hello_greets_witness:
  "\<exists>s'. hello_main (text_at [''Hi, what's your name? '', ''Hello, '']) 0x08051000
      (sample_hello, map press ([0x1E, 0x20, 0x1E] @ [0x1C]) @ []) = Some (0, (s', []))
    \<and> user_term s' = fold spec_putc (map of_char ''Hi, what's your name? '' @ [97, 100, 97] @ [10]
        @ map of_char ''Hello, '' @ [97, 100, 97]) (user_term sample_hello)"
proof (rule hello_greets)
  let ?texts = "[''Hi, what's your name? '', ''Hello, '']"
  show "user_env sample_hello" unfolding sample_hello_def by (rule with_texts_process(6) [OF sample_user_process])
  show "can_read sample_hello" unfolding sample_hello_def by (rule with_texts_reads(1) [OF sample_user_reads])
  show "user_area 0x08051000 129" using sample_area [of "0x51000" 129] by simp
  show "literal sample_hello (text_at ?texts ''Hi, what's your name? '') ''Hi, what's your name? ''"
    "literal sample_hello (text_at ?texts ''Hello, '') ''Hello, ''"
    unfolding sample_hello_def by (rule with_texts_literal; simp)+
  show "apart_from 0x08051000 129 (text_at ?texts ''Hello, '') ''Hello, ''"
    by (simp add: apart_from_def disjoint_regions_def text_at_def text_index_def)
  show "[97, 100, 97] = typed_line [0x1E, 0x20, 0x1E] sample_hello"
    by (simp only: sample_hello_def with_texts_reads(2) sample_typed)
qed simp_all

section \<open>The shell\<close>

lemma behind_process:
  assumes "behind s s'"
  shows "process_count s' = process_count s" "pcb_slots s' = pcb_slots s"
proof -
  have "keyboard.more s' = keyboard.more s" using assms by (simp only: behind_def)
  then show "process_count s' = process_count s" "pcb_slots s' = pcb_slots s"
    by (cases s; cases s'; simp)+
qed

lemma same_image_whole:
  assumes "same_image fs sz (mem s) (mem s')" and "filesys_addr s = fs" and "filesys_addr s' = fs" and "sz \<le> 4294967296"
    and "whole_file s sz ino"
  shows "whole_file s' sz ino" "contents (mem s') fs ino = contents (mem s) fs ino"
proof -
  have w: "in_image fs sz (inode_addr fs ino)" "file_in_image (mem s) fs sz ino (file_length (mem s) fs ino)"
    using assms by (simp_all add: whole_file_def)
  note same = same_image_contents [OF assms(1) w(1) assms(4) w(2)]
  show "contents (mem s') fs ino = contents (mem s) fs ino" by (rule same(2))
  show "whole_file s' sz ino"
    using same_image_file_in_image [OF assms(1) w(2)] w(1) assms(3) same(1) by (simp add: whole_file_def)
qed

lemma reads_process:
  assumes P: "user_process s sz" and env: "user_env s'" "frame s' = frame s" "behind s s'"
    and m: "\<And>a. scratch_area s a \<or> mem s' a = mem s a"
  shows "user_process s' sz" "find_file (mem s') (filesys_addr s) name = find_file (mem s) (filesys_addr s) name"
    "same_image (filesys_addr s) sz (mem s) (mem s')"
proof -
  note fields = behind_fields [OF env(3)]
  have "files_ok (pcbs s' (current_pcb s'))" using P by (simp add: fields user_process_def)
  note step = user_process_step [OF P env(1,2) fields(1) this m]
  show "user_process s' sz" "find_file (mem s') (filesys_addr s) name = find_file (mem s) (filesys_addr s) name" by (rule step)+
  show "same_image (filesys_addr s) sz (mem s) (mem s')" by (rule user_process_image [OF P m])
qed

text \<open>One round: the prompt, a line, and what the shell does with it.\<close>

lemma shell_round:
  assumes "user_process s sz" and "can_read s" and "buf \<noteq> 0" and "user_area buf 129"
    and "literal s (str ''391OS> '') ''391OS> ''"
    and "literal s (str ''exit'') ''exit''" and "apart_from buf 129 (str ''exit'') ''exit''"
    and "set codes \<inter> {0x0E, 0x1C, 0x1D, 0x3B, 0x3C, 0x3D} = {}" and "line = typed_line codes s"
  obtains s' where "shell_loop child str buf (s, map press (codes @ [0x1C]) @ rest) =
      (if line = map of_char ''exit'' then Some (0, (s', rest)) else if line = [] then shell_loop child str buf (s', rest)
       else seq (ece391_execute child buf) (\<lambda>rval. seq (shell_report str rval) (\<lambda>_. shell_loop child str buf)) (s', rest))"
    and "user_term s' = fold spec_putc (map of_char ''391OS> '' @ line @ [10]) (user_term s)"
    and "str_at (mem s') buf line" and "length line \<le> 128" and "can_read s'" and "behind s s'" and "frame s' = frame s"
    and "user_env s'" and "\<And>a. scratch_area s a \<or> mem s' a = mem s a"
proof -
  have env: "user_env s" by (rule user_process_env [OF assms(1)])
  have "length ''391OS> '' < 2047" by simp
  then obtain s1 where s1: "ece391_fdputs 1 (str ''391OS> '') (s, map press (codes @ [0x1C]) @ rest)
      = Some ((), (s1, map press (codes @ [0x1C]) @ rest))" "shows_text (map of_char ''391OS> '') s s1"
    "can_read s1" "kview_of s1 = kview_of s"
    by (rule ece391_fdputs_line [OF env assms(2,5)])
  have env1: "user_env s1" "frame s1 = frame s" "behind s s1" "kernel_area s a \<or> mem s1 a = mem s a" for a
    using s1(2) by (simp_all add: shows_text_def)
  have line1: "typed_line codes s1 = line" using s1(4) assms(9) by (simp add: typed_line_def)
  obtain t s2 where read: "ece391_read 0 buf 1023 (s1, map press (codes @ [0x1C]) @ rest) = Some (int (length line), (t, rest))"
    and nl: "line \<noteq> [] \<Longrightarrow> mem t (buf + of_int (int (length line) - 1)) \<noteq> 10"
    and s2: "s2 = t\<lparr>mem := (mem t)(buf + of_int (int (length line)) := 0)\<rparr>" "user_env s2" "can_read s2" "behind s1 s2"
      "frame s2 = frame s1" "user_term s2 = fold spec_putc (line @ [10]) (user_term s1)" "str_at (mem s2) buf line"
      "length line \<le> 128"
    and m: "\<And>a. in_region a VIDEO 4000 \<or> in_region a buf 129 \<or> mem s2 a = mem s1 a"
    using read_string [OF env1(1) s1(3) assms(3,4,8), of rest, unfolded line1] by blast
  have "literal s2 (str ''exit'') ''exit''"
    by (rule literal_apart [OF literal_shows [OF env s1(2) assms(6)] assms(7) m])
  then obtain d where d: "ece391_strcmp (mem s2) buf (str ''exit'') = Some d" "d = 0 \<longleftrightarrow> line = map of_char ''exit''"
    using ece391_strcmp_eq [OF s2(7), of "str ''exit''" "map of_char ''exit''"] by (auto simp: literal_def)
  have first: "mem s2 buf = 0 \<longleftrightarrow> line = []" using s2(7) by (cases line) (auto simp: str_at_Nil str_at_Cons)
  have cnt: "(if line \<noteq> [] \<and> mem t (buf + of_int (int (length line) - 1)) = 10 then int (length line) - 1
      else int (length line)) = int (length line)"
    using nl by auto
  have "shell_loop child str buf (s, map press (codes @ [0x1C]) @ rest)
      = seq (computes (\<lambda>m. ece391_strcmp m buf (str ''exit''))) (\<lambda>differ.
         if differ = 0 then gives 0
         else seq (reads (\<lambda>m. m buf)) (\<lambda>c.
           if c = 0 then shell_loop child str buf
           else seq (ece391_execute child buf) (\<lambda>rval. seq (shell_report str rval) (\<lambda>_. shell_loop child str buf)))) (s2, rest)"
    using s1(1) read unfolding shell_loop.simps [of child str buf "(s, map press (codes @ [0x1C]) @ rest)"]
    by (simp add: seq_Some cnt s2(1) [symmetric] del: of_int_diff of_int_of_nat_eq split del: if_split)
  then have round: "shell_loop child str buf (s, map press (codes @ [0x1C]) @ rest)
      = (if d = 0 then Some (0, (s2, rest)) else if mem s2 buf = 0 then shell_loop child str buf (s2, rest)
         else seq (ece391_execute child buf) (\<lambda>rval. seq (shell_report str rval) (\<lambda>_. shell_loop child str buf)) (s2, rest))"
    using d(1) by (simp add: seq_computes gives_def)
  show thesis
  proof (rule that [of s2])
    show "shell_loop child str buf (s, map press (codes @ [0x1C]) @ rest) =
      (if line = map of_char ''exit'' then Some (0, (s2, rest)) else if line = [] then shell_loop child str buf (s2, rest)
       else seq (ece391_execute child buf) (\<lambda>rval. seq (shell_report str rval) (\<lambda>_. shell_loop child str buf)) (s2, rest))"
      unfolding round d(2) first by (rule refl)
    show "user_term s2 = fold spec_putc (map of_char ''391OS> '' @ line @ [10]) (user_term s)"
      using s2(6) s1(2) by (simp add: shows_text_def)
    show "behind s s2" by (rule behind_trans [OF env1(3) s2(4)])
    show "frame s2 = frame s" using s2(5) env1(2) by simp
    show "scratch_area s a \<or> mem s2 a = mem s a" for a
      using m [of a] env1(4) [of a] user_area_in [OF assms(4), of a] by (auto simp: scratch_area_def kernel_area_def)
  qed (use s2 in simp_all)
qed

text \<open>C10. From the keyboard to the program: the shell shows its prompt, the line that is typed and
  ended with enter appears on the terminal, and when it names a program of the directory, with room
  for another process, the processor enters the program in user mode at the address of its header,
  with its bytes in memory and the rest of the line as its arguments. When that program halts, the
  shell reports its status and goes on; \<open>child\<close> stands for the run of the program.\<close>

theorem shell_runs_command:
  assumes "user_process s sz" and "can_read s" and "buf \<noteq> 0" and "user_area buf 129"
    and "literal s (str ''391OS> '') ''391OS> ''"
    and "literal s (str ''exit'') ''exit''" and "apart_from buf 129 (str ''exit'') ''exit''"
    and "set codes \<inter> {0x0E, 0x1C, 0x1D, 0x3B, 0x3C, 0x3D} = {}" and "line = typed_line codes s"
    and "line \<noteq> []" and "line \<noteq> map of_char ''exit''"
    and "process_count s < 6" and "find_slot (pcb_slots s) 0 6 < 6"
    and "find_file (mem s) (filesys_addr s) (command_name line) = Some entry"
    and "whole_file s sz (of_int (inode_num entry))"
    and "length (command_args line) \<le> 127" and "\<forall>q. length (args (pcbs s q)) = 127"
    and "bs = contents (mem s) (filesys_addr s) (of_int (inode_num entry))"
    and "is_elf bs" and "28 \<le> length bs" and "length bs \<le> 0x3B8000"
  shows "\<exists>t e s'. user_term t = fold spec_putc (map of_char ''391OS> '' @ line @ [10]) (user_term s)
    \<and> execute buf t = Enters e s' \<and> word_bytes e = take 4 (drop 24 bs)
    \<and> bytes (mem s') PROG_LOAD_ADDR (length bs) = bs
    \<and> take (length (command_args line)) (args (pcbs s' (getPCB (find_slot (pcb_slots s) 0 6 + 1)))) = command_args line
    \<and> shell_loop child str buf (s, map press (codes @ [0x1C]) @ rest)
      = (case child (Enters e s') rest of None \<Rightarrow> None
         | Some (status, w) \<Rightarrow> seq (shell_report str (uint status)) (\<lambda>_. shell_loop child str buf) w)"
proof -
  let ?fs = "filesys_addr s" and ?ino = "of_int (inode_num entry) :: u32"
  obtain t where t: "shell_loop child str buf (s, map press (codes @ [0x1C]) @ rest) =
      (if line = map of_char ''exit'' then Some (0, (t, rest)) else if line = [] then shell_loop child str buf (t, rest)
       else seq (ece391_execute child buf) (\<lambda>rval. seq (shell_report str rval) (\<lambda>_. shell_loop child str buf)) (t, rest))"
    and view: "user_term t = fold spec_putc (map of_char ''391OS> '' @ line @ [10]) (user_term s)"
    and str: "str_at (mem t) buf line" "length line \<le> 128" and b: "behind s t" "frame t = frame s" "user_env t"
    and m: "\<And>a. scratch_area s a \<or> mem t a = mem s a"
    by (rule shell_round [OF assms(1-9), of child rest]) (rule that)
  note P = reads_process [OF assms(1) b(3,2,1) m]
  note fields = behind_fields [OF b(1)] behind_process [OF b(1)]
  have T: "exec_layout t sz" "directory_ok t sz" "sz \<le> 4294967296" "disjoint_regions PROG_PAGE 0x400000 (frame t) 128"
    using P(1) by (simp_all add: user_process_def exec_layout_def)
  have area: "user_area buf (Suc (length line))" using user_area_part [OF assms(4), of 0 "Suc (length line)"] str(2) by simp
  have "disjoint_regions buf (Suc (length line)) (frame t) 128" by (rule user_area_apart [OF area _ T(4)]) simp
  then have cmd: "command_at t buf line" using str assms(3) by (simp add: command_at_def)
  note whole = same_image_whole [OF P(3) refl fields(1) T(3) assms(15)]
  have bs: "contents (mem t) (filesys_addr t) ?ino = bs" using whole(2) assms(18) by (simp add: fields)
  have entry: "find_file (mem t) (filesys_addr t) (command_name line) = Some entry" using P(2) assms(14) by (simp add: fields)
  have free: "process_count t < 6" "find_slot (pcb_slots t) 0 6 < 6" using assms(12,13) by (simp_all add: fields)
  have args: "length (command_args line) \<le> 127" "\<And>q. length (args (pcbs t q)) = 127" using assms(16,17) by (simp_all add: fields)
  obtain e s' where run: "execute buf t = Enters e s'" "word_bytes e = take 4 (drop 24 bs)"
    "bytes (mem s') PROG_LOAD_ADDR (length bs) = bs"
    "take (length (command_args line)) (args (pcbs s' (getPCB (find_slot (pcb_slots t) 0 6 + 1)))) = command_args line"
    by (rule execute_loads [OF T(1) cmd T(2) free entry whole(1) args, unfolded bs, OF assms(19-21)])
  have "system_calls_assembly 2 buf 0 0 rest t = Away (Enters e s')"
    using run(1) by (simp add: system_calls_assembly_def)
  then have "seq (ece391_execute child buf) k (t, rest)
      = (case child (Enters e s') rest of None \<Rightarrow> None | Some (status, w) \<Rightarrow> k (uint status) w)" for k
    by (simp add: seq_def ece391_execute_def split: option.splits)
  then have "shell_loop child str buf (s, map press (codes @ [0x1C]) @ rest)
      = (case child (Enters e s') rest of None \<Rightarrow> None
         | Some (status, w) \<Rightarrow> seq (shell_report str (uint status)) (\<lambda>_. shell_loop child str buf) w)"
    using assms(10,11) by (simp only: t if_False)
  then show ?thesis using view run(1-3) run(4) [unfolded fields(7)] by blast
qed

definition sample_shell :: process where
  "sample_shell = with_texts [''391OS> '', ''exit''] sample_process"

lemma sample_process_user: "user_process sample_process 0x3000"
proof -
  have "user_env sample_process"
    by (simp add: user_env_def cursor_ok_def stdout_open_def fd_of_def disjoint_regions_def)
      (simp add: sample_process_def sample_pcb_def sample_fd_def)
  then show ?thesis
    using sample_layout sample_dir sample_files(1) by (simp add: user_process_def disjoint_regions_def)
qed

lemma sample_process_reads: "can_read sample_process"
  by (simp add: can_read_def kb_ok_def cursors_ok_def cursor_ok_def kview_of_def fd_of_def)
    (simp add: sample_process_def sample_pcb_def sample_fd_def)

lemma sample_process_typed: "typed_line [0x1E, 0x39, 0x2D] sample_process = [97, 32, 120]"
  by (simp add: typed_line_def kview_of_def sample_process_def spec_key_def spec_modifiers_def
      spec_push_def spec_char_def char_list_def upper_char_list_def)

theorem shell_runs_command_witness:
  "\<exists>(t :: process) e s'. user_term t = fold spec_putc (map of_char ''391OS> '' @ [97, 32, 120] @ [10]) (user_term sample_shell)
    \<and> execute 0x08051000 t = Enters e s' \<and> word_bytes e = [0x94, 0x80, 4, 8] \<and> take 1 (args (pcbs s' (getPCB 2))) = [120]"
proof -
  let ?texts = "[''391OS> '', ''exit'']" and ?bs = "contents elf_image 0x10000 0" and ?entry = "load_dentry elf_image 0x10040"
  note P = with_texts_process [OF sample_process_user, of ?texts, folded sample_shell_def]
  have area: "user_area 0x08051000 129" using sample_area [of "0x51000" 129] by simp
  have reads: "can_read sample_shell" unfolding sample_shell_def by (rule with_texts_reads(1) [OF sample_process_reads])
  have lits: "literal sample_shell (text_at ?texts ''391OS> '') ''391OS> ''" "literal sample_shell (text_at ?texts ''exit'') ''exit''"
    unfolding sample_shell_def by (rule with_texts_literal; simp)+
  have apart: "apart_from 0x08051000 129 (text_at ?texts ''exit'') ''exit''"
    by (simp add: apart_from_def disjoint_regions_def text_at_def text_index_def)
  have line: "[97, 32, 120] = typed_line [0x1E, 0x39, 0x2D] sample_shell"
    by (simp only: sample_shell_def with_texts_reads(2) sample_process_typed)
  have fields: "process_count sample_shell = 1" "pcb_slots sample_shell = (\<lambda>_. 0)(0 := 1)" "filesys_addr sample_shell = 0x10000"
    "pcbs sample_shell q = sample_pcb 1 0" for q
    by (simp_all add: sample_shell_def with_texts_def)
  have entry: "find_file (mem sample_shell) (filesys_addr sample_shell) (command_name [97, 32, 120]) = Some ?entry"
    using P(2) sample_file by (simp add: fields sample_name)
  have sz: "(0x3000 :: nat) \<le> 4294967296" by simp
  have img: "same_image 0x10000 0x3000 (mem sample_process) (mem sample_shell)" using P(7) by simp
  note whole = same_image_whole [OF img sample_process_simps(5) fields(3) sz sample_whole]
  have bs: "?bs = contents (mem sample_shell) (filesys_addr sample_shell) (of_int (inode_num ?entry))"
    using whole(2) by (simp add: fields sample_inode)
  have elf: "is_elf ?bs" "28 \<le> length ?bs" "length ?bs \<le> 0x3B8000" by (simp_all add: is_elf_def elf_contents)
  have w: "whole_file sample_shell 0x3000 (of_int (inode_num ?entry))" using whole(1) by (simp add: sample_inode)
  have slot: "find_slot (pcb_slots sample_shell) 0 6 = 1" using sample_slot by (simp add: fields)
  have free: "process_count sample_shell < 6" "find_slot (pcb_slots sample_shell) 0 6 < 6" by (simp add: fields, simp add: slot)
  have args: "length (command_args [97, 32, 120]) \<le> 127" "\<forall>q. length (args (pcbs sample_shell q)) = 127"
    by (simp_all add: sample_name fields sample_pcb_def)
  have keys: "(0x08051000 :: u32) \<noteq> 0" "set [0x1E, 0x39, 0x2D] \<inter> {0x0E, 0x1C, 0x1D, 0x3B, 0x3C, 0x3D} = ({} :: u8 set)"
    "[97, 32, 120] \<noteq> ([] :: u8 list)" "[97, 32, 120] \<noteq> (map of_char ''exit'' :: u8 list)" by simp_all
  obtain t :: process and e s' where r: "user_term t = fold spec_putc (map of_char ''391OS> '' @ [97, 32, 120] @ [10]) (user_term sample_shell)"
    "execute 0x08051000 t = Enters e s'" "word_bytes e = take 4 (drop 24 ?bs)"
    "take (length (command_args [97, 32, 120])) (args (pcbs s' (getPCB (find_slot (pcb_slots sample_shell) 0 6 + 1))))
      = command_args [97, 32, 120]"
    using shell_runs_command [where child = "\<lambda>_ _. None" and rest = "[]", OF P(1) reads keys(1) area lits apart keys(2) line keys(3,4) free entry w args bs elf]
    by - (elim exE conjE, rule that, assumption+)
  have "take 4 (drop 24 ?bs) = [0x94, 0x80, 4, 8]" by (simp add: elf_contents)
  moreover have "take 1 (args (pcbs s' (getPCB 2))) = [120]"
    using r(4) by (simp add: sample_name slot)
  ultimately show ?thesis using r(1-3) by metis
qed

end
