(* ===== verification/Boot_Shells.thy ===== *)
theory Boot_Shells
  imports Shell_Laws Kernel_Steps
begin

text \<open>
  From the first interrupt of the timer to three running shells: each of the first three interrupts
  loads the file \<open>shell\<close> of the directory and enters it on a terminal of its own, and the fourth
  shows the first terminal. Between the interrupts the machine does what it likes to the screens,
  the program page and the kernel's local variables.
\<close>

section \<open>The shell in the file system\<close>

text \<open>Where the boot and the programs write: the text pages, the program page, and 2 KB of local
  variables.\<close>

definition tick_area :: "'a machine_scheme \<Rightarrow> u32 \<Rightarrow> bool" where
  "tick_area s a \<longleftrightarrow> in_region a VIDEO 0x4000 \<or> in_region a PROG_PAGE 0x400000 \<or> in_region a (frame s) 0x800"

definition tick_disjoint :: "'a machine_scheme \<Rightarrow> u32 \<Rightarrow> nat \<Rightarrow> bool" where
  "tick_disjoint s a n \<longleftrightarrow> disjoint_regions a n VIDEO 0x4000 \<and> disjoint_regions a n PROG_PAGE 0x400000
     \<and> disjoint_regions a n (frame s) 0x800"

definition shell_name :: "u8 list" where
  "shell_name = map of_char ''shell''"

text \<open>The literal of the kernel is the string \<open>shell\<close>, and \<open>bs\<close> is the program of that name.\<close>

definition shell_present :: "nat \<Rightarrow> u8 list \<Rightarrow> 'a process_scheme \<Rightarrow> bool" where
  "shell_present sz bs s \<longleftrightarrow> exec_layout s sz \<and> directory_ok s sz \<and> tick_disjoint s (filesys_addr s) sz
     \<and> command_at s (str_shell s) shell_name \<and> tick_disjoint s (str_shell s) 6
     \<and> (case find_file (mem s) (filesys_addr s) shell_name of None \<Rightarrow> False
        | Some entry \<Rightarrow> whole_file s sz (of_int (inode_num entry))
            \<and> contents (mem s) (filesys_addr s) (of_int (inode_num entry)) = bs)
     \<and> is_elf bs \<and> 28 \<le> length bs \<and> length bs \<le> 0x3B8000"

lemma tick_disjoint_keep:
  assumes "tick_disjoint s b n" and "\<And>a. tick_area s a \<or> m a = mem s a" and "in_region a b n"
  shows "m a = mem s a"
  using assms(2) [of a] assms(1) disjoint_regions_not_in [OF _ assms(3)]
  by (auto simp: tick_disjoint_def tick_area_def)

lemma shell_present_keep:
  assumes present: "shell_present sz bs s"
    and same: "frame s' = frame s" "filesys_addr s' = filesys_addr s" "str_shell s' = str_shell s"
    and mem: "\<And>a. tick_area s a \<or> mem s' a = mem s a"
  shows "shell_present sz bs s'"
proof -
  note S = present [unfolded shell_present_def]
  have image: "same_image (filesys_addr s) sz (mem s) (mem s')"
    using tick_disjoint_keep [OF _ mem] S by (auto simp: same_image_def)
  have sz: "sz \<le> 4294967296" "entries_in_image (filesys_addr s) sz (nat (load_int (mem s) (filesys_addr s)))"
    using S by (simp_all add: exec_layout_def directory_ok_def)
  note dir = same_image_directory(1) [OF image sz(2,1)]
    and find = find_file_same [OF image sz(2,1)]
  have "mem s' (str_shell s + of_nat i) = mem s (str_shell s + of_nat i)" if "i < 6" for i
    using that S by (intro tick_disjoint_keep [OF _ mem, where b = "str_shell s" and n = 6] in_region_add) simp_all
  then have five: "mem s' (str_shell s + of_nat i) = mem s (str_shell s + of_nat i)" if "i \<le> 5" for i using that by simp
  have "bytes (mem s') (str_shell s) 5 = bytes (mem s) (str_shell s) 5" by (rule bytes_cong) (rule five, simp)
  moreover have "mem s' (str_shell s + of_nat 5) = mem s (str_shell s + of_nat 5)" by (rule five) simp
  moreover have "length shell_name = 5" by (simp add: shell_name_def)
  ultimately have str: "str_at (mem s') (str_shell s) shell_name"
    using S by (simp add: command_at_def str_at_def)
  have whole: "whole_file s' sz ino \<and> contents (mem s') (filesys_addr s) ino = contents (mem s) (filesys_addr s) ino"
    if "whole_file s sz ino" for ino
    using same_image_whole [OF image refl same(2) sz(1) that] by simp
  show ?thesis
    using S dir find str whole same
    by (auto simp: shell_present_def exec_layout_def directory_ok_def command_at_def tick_disjoint_def split: option.splits)
qed

section \<open>The states of the boot\<close>

text \<open>The stacks once the first \<open>n\<close> terminals have their shells: process \<open>t + 1\<close> on terminal \<open>t\<close>.\<close>

definition started :: "int \<Rightarrow> int \<Rightarrow> int list" where
  "started n t = (if 0 \<le> t \<and> t < n then [t + 1] else [])"

definition shells_ready :: "nat \<Rightarrow> u8 list \<Rightarrow> int \<Rightarrow> 'a scheduler_scheme \<Rightarrow> bool" where
  "shells_ready sz bs n s \<longleftrightarrow> shell_present sz bs s \<and> proc_view s (started n)
     \<and> total_terminal s = n \<and> switch_flag s = 0 \<and> curr_terminal s = max 1 n \<and> curr_scheduled s = max 1 n
     \<and> (\<forall>q. length (args (pcbs s q)) = MAX_ARGS)"

text \<open>What may happen between two interrupts of the timer: programs run, calls of the system print,
  keys are typed. The process table and the terminals stay, and no switch of the display is
  asked for.\<close>

definition between_ticks :: "'a scheduler_scheme \<Rightarrow> 'a scheduler_scheme \<Rightarrow> bool" where
  "between_ticks s s' \<longleftrightarrow> (\<forall>a. tick_area s a \<or> mem s' a = mem s a)
     \<and> (frame s', filesys_addr s', str_shell s') = (frame s, filesys_addr s, str_shell s)
     \<and> (total_terminal s', switch_flag s', curr_terminal s', curr_scheduled s')
       = (total_terminal s, switch_flag s, curr_terminal s, curr_scheduled s)
     \<and> (highest_terminal_processes s', pcb_slots s', process_count s')
       = (highest_terminal_processes s, pcb_slots s, process_count s)
     \<and> (\<forall>q. (process_num (pcbs s' q), parent_task (pcbs s' q), length (args (pcbs s' q)))
          = (process_num (pcbs s q), parent_task (pcbs s q), length (args (pcbs s q))))"

lemma between_ticks_refl: "between_ticks s s"
  by (simp add: between_ticks_def)

lemma between_ticks_trans: "between_ticks s s' \<Longrightarrow> between_ticks s' s'' \<Longrightarrow> between_ticks s s''"
  unfolding between_ticks_def tick_area_def by (simp, metis)

lemma between_ticks_program:
  "(\<And>a. m a \<noteq> mem s a \<Longrightarrow> in_region a PROG_PAGE 0x400000) \<Longrightarrow> between_ticks s (s\<lparr>mem := m, reg_esp := sp, reg_ebp := bp\<rparr>)"
  unfolding between_ticks_def tick_area_def by auto

text \<open>Output of a program is such a change.\<close>

lemma boot_of_more:
  fixes s :: "'a scheduler_scheme"
  assumes "keyboard.more s' = keyboard.more s"
  shows "str_shell s' = str_shell s" "total_terminal s' = total_terminal s"
  using assms by (cases s; cases s'; simp)+

lemma between_ticks_shows:
  fixes s :: "'a scheduler_scheme"
  assumes "shows_text cs s s'" and "switch_flag s' = switch_flag s"
  shows "between_ticks s s'"
proof -
  have b: "behind s s'" and f: "frame s' = frame s" and m: "\<And>a. kernel_area s a \<or> mem s' a = mem s a"
    using assms(1) by (simp_all add: shows_text_def)
  have more: "keyboard.more s' = keyboard.more s" and ct: "curr_terminal s' = curr_terminal s" "curr_scheduled s' = curr_scheduled s"
    using b by (simp_all only: behind_def)
  have "tick_area s a \<or> mem s' a = mem s a" for a
    using m [of a] by (auto simp: kernel_area_def tick_area_def in_region_def)
  then show ?thesis
    unfolding between_ticks_def
    using f ct assms(2) behind_fields [OF b] behind_process [OF b] boot_of_more [OF more] by simp
qed

lemma between_ticksD:
  assumes "between_ticks s s'"
  shows "tick_area s a \<or> mem s' a = mem s a"
    "frame s' = frame s" "filesys_addr s' = filesys_addr s" "str_shell s' = str_shell s"
    "total_terminal s' = total_terminal s" "switch_flag s' = switch_flag s" "curr_terminal s' = curr_terminal s"
    "curr_scheduled s' = curr_scheduled s" "highest_terminal_processes s' = highest_terminal_processes s"
    "pcb_slots s' = pcb_slots s" "process_count s' = process_count s"
    "process_num (pcbs s' q) = process_num (pcbs s q)" "parent_task (pcbs s' q) = parent_task (pcbs s q)"
    "length (args (pcbs s' q)) = length (args (pcbs s q))"
  using assms by (simp_all add: between_ticks_def)

lemma shells_readyD:
  assumes "shells_ready sz bs n s"
  shows "shell_present sz bs s" "proc_view s (started n)" "total_terminal s = n" "switch_flag s = 0"
    "curr_terminal s = max 1 n" "curr_scheduled s = max 1 n" "\<forall>q. length (args (pcbs s q)) = MAX_ARGS"
  using assms by (simp_all add: shells_ready_def)

lemma shells_readyI:
  assumes "shell_present sz bs s" "proc_view s (started n)" "total_terminal s = n" "switch_flag s = 0"
    "curr_terminal s = max 1 n" "curr_scheduled s = max 1 n" "\<forall>q. length (args (pcbs s q)) = MAX_ARGS"
  shows "shells_ready sz bs n s"
  using assms by (simp add: shells_ready_def)

lemma boot_ready_between:
  assumes "shells_ready sz bs n s" and "between_ticks s s'"
  shows "shells_ready sz bs n s'"
proof -
  note R = shells_readyD [OF assms(1)] and B = between_ticksD [OF assms(2)]
  have "proc_view s' (started n) = proc_view s (started n)"
    by (rule proc_view_cong) (simp_all add: B)
  then show ?thesis
    by (intro shells_readyI shell_present_keep [OF R(1) B(2-4) B(1)]) (simp_all add: R(2-7) B(5-8,14))
qed

section \<open>One interrupt\<close>

lemma start_process_fields:
  assumes "start_process i entry_point s = Enters e s'"
  shows "frame s' = frame s" "filesys_addr s' = filesys_addr s" "str_shell s' = str_shell s" "switch_flag s' = switch_flag s"
  using assms by (auto simp: start_process_def Let_def update_pcb_def)

lemma flush_tlb_fields [simp]:
  "frame (flush_tlb s) = frame s" "filesys_addr (flush_tlb s) = filesys_addr s" "str_shell (flush_tlb s) = str_shell s"
  by (simp_all add: flush_tlb_def Let_def)

lemma load_process_starts:
  assumes "load_process command i temp s = Enters e s'"
  shows "\<exists>k entry_point w. start_process k entry_point w = Enters e s'
    \<and> (frame w, filesys_addr w, str_shell w, switch_flag w) = (frame s, filesys_addr s, str_shell s, switch_flag s)"
  using assms unfolding load_process_def Let_def
  by (simp split: if_splits option.splits prod.splits)
    (rule exI, rule exI, rule exI, rule conjI, assumption, simp add: update_pcb_def)

lemma execute_fields:
  assumes "execute command s = Enters e s'"
  shows "frame s' = frame s" "filesys_addr s' = filesys_addr s" "str_shell s' = str_shell s" "switch_flag s' = switch_flag s"
proof -
  obtain i temp m where load: "load_process command i temp (s\<lparr>mem := m\<rparr>) = Enters e s'" by (rule execute_enters [OF assms])
  obtain k entry_point w where w: "start_process k entry_point w = Enters e s'"
    "(frame w, filesys_addr w, str_shell w, switch_flag w) = (frame s, filesys_addr s, str_shell s, switch_flag s)"
    using load_process_starts [OF load] by auto
  from start_process_fields [OF w(1)] w(2)
  show "frame s' = frame s" "filesys_addr s' = filesys_addr s" "str_shell s' = str_shell s" "switch_flag s' = switch_flag s"
    by simp_all
qed

text \<open>What \<open>execute\<close> does with the command \<open>shell\<close>.\<close>

lemma execute_shell:
  assumes present: "shell_present sz bs s" and view: "proc_view s st" and free: "process_count s < 6"
    and args: "\<forall>q. length (args (pcbs s q)) = MAX_ARGS"
  obtains e s' where "execute (str_shell s) s = Enters e s'" and "word_bytes e = take 4 (drop 24 bs)"
    and "bytes (mem s') PROG_LOAD_ADDR (length bs) = bs" and "shell_present sz bs s'"
    and "\<forall>q. length (args (pcbs s' q)) = MAX_ARGS"
proof -
  note S = present [unfolded shell_present_def]
  obtain entry where entry: "find_file (mem s) (filesys_addr s) shell_name = Some entry"
    and whole: "whole_file s sz (of_int (inode_num entry))"
    and bs: "contents (mem s) (filesys_addr s) (of_int (inode_num entry)) = bs"
    using S by (auto split: option.splits)
  have name: "command_name shell_name = shell_name" "length (command_args shell_name) \<le> MAX_ARGS"
    by (simp_all add: command_name_def command_args_def command_spaces_def shell_name_def of_char_def)
  have elf: "is_elf bs" "28 \<le> length bs" "length bs \<le> 0x3B8000" using S by simp_all
  note slot = free_slot(2) [OF view free]
  obtain e s' where run: "execute (str_shell s) s = Enters e s'" "word_bytes e = take 4 (drop 24 bs)"
    "bytes (mem s') PROG_LOAD_ADDR (length bs) = bs"
    "length (args (pcbs s' (getPCB (find_slot (pcb_slots s) 0 6 + 1)))) = MAX_ARGS"
    and m: "\<And>a. in_region a (frame s) 128 \<or> in_region a PROG_PAGE 0x400000 \<or> mem s' a = mem s a"
  proof (rule execute_loads [of s sz "str_shell s" shell_name entry])
    show "exec_layout s sz" "command_at s (str_shell s) shell_name" "directory_ok s sz" using S by simp_all
  qed (use free slot entry whole name args elf in \<open>simp_all only: bs simp_thms\<close>)
  have "tick_area s a \<or> mem s' a = mem s a" for a
    using m [of a] by (auto simp: tick_area_def in_region_def)
  then have "shell_present sz bs s'"
    by (intro shell_present_keep [OF present]) (use execute_fields [OF run(1)] in simp_all)
  moreover have "\<forall>q. length (args (pcbs s' q)) = MAX_ARGS"
  proof -
    obtain i temp m' where load: "load_process (str_shell s) i temp (s\<lparr>mem := m'\<rparr>) = Enters e s'"
      by (rule execute_enters [OF run(1)])
    obtain b where "pcbs s' = (pcbs s)(getPCB (find_slot (pcb_slots s) 0 6 + 1) := b)"
      by (rule load_process_enters [OF load]) simp
    then show ?thesis using args run(4) by simp
  qed
  ultimately show thesis using run(1-3) that by blast
qed

text \<open>A new terminal writes to the text pages only.\<close>

lemma screen_page_area: "in_region a b 4000 \<Longrightarrow> b \<in> {VIDEO, VIDEO1, VIDEO2, VIDEO3} \<Longrightarrow> in_region a VIDEO 0x4000"
  by (rule video_frames [where base = b]) (simp_all add: in_region_def)

lemma pit_new_terminal_mem:
  assumes "total_terminal s \<in> {0, 1, 2}" and "\<not> in_region a VIDEO 0x4000"
  shows "mem (pit_new_terminal nx s) a = mem s a"
proof -
  have out: "\<not> in_region a b 4000" if "b \<in> {VIDEO, VIDEO1, VIDEO2, VIDEO3}" for b
    using screen_page_area [OF _ that] assms(2) by blast
  have "video_buf k w \<in> {VIDEO, VIDEO1, VIDEO2, VIDEO3}" if "k \<in> {1, 2}" for k and w :: "'a scheduler_scheme"
    using that by (auto simp: video_buf_def)
  then have "mem (switch_terminal k l w) a = mem w a" if "k \<in> {1, 2}" for k l and w :: "'a scheduler_scheme"
    unfolding switch_terminal_mem using out that by (intro switch_page_outside) simp_all
  then show ?thesis
    using assms(1) by (auto simp: pit_new_terminal_def Let_def set_cursors_def update_cursor_def outb_def update_pcb_def)
qed

lemma pit_new_terminal_fields:
  "frame (pit_new_terminal nx s) = frame s" "filesys_addr (pit_new_terminal nx s) = filesys_addr s"
  "str_shell (pit_new_terminal nx s) = str_shell s" "switch_flag (pit_new_terminal nx s) = switch_flag s"
  "args (pcbs (pit_new_terminal nx s) q) = args (pcbs s q)"
  by (simp_all add: pit_new_terminal_def Let_def update_pcb_def set_cursors_def update_cursor_def outb_def
      switch_terminal_def cli_def)

lemma send_eoi_boot:
  "mem (send_eoi irq s) = mem s" "frame (send_eoi irq s) = frame s" "filesys_addr (send_eoi irq s) = filesys_addr s"
  "str_shell (send_eoi irq s) = str_shell s" "switch_flag (send_eoi irq s) = switch_flag s" "pcbs (send_eoi irq s) = pcbs s"
  by (simp_all add: send_eoi_def outb_def Let_def)

lemma started_simps:
  "n \<in> {0, 1, 2} \<Longrightarrow> push n (n + 1) (started n) = started (n + 1)"
  "n \<in> {0, 1, 2} \<Longrightarrow> list_all (\<lambda>t. started n t \<noteq> []) (filter (\<lambda>t. t < n) [0, 1])" "started n n = []"
  "n \<in> {0, 1, 2} \<Longrightarrow> set (all_procs (started n)) = {1..n}" "n \<in> {0, 1, 2} \<Longrightarrow> length (all_procs (started n)) = nat n"
  by (auto simp: started_def push_def all_procs_def fun_eq_iff)

lemma boot_tick:
  assumes ready: "shells_ready sz bs n s" and n: "n \<in> {0, 1, 2}"
  obtains e s' where "pit_handler s = Enters e s'" and "word_bytes e = take 4 (drop 24 bs)"
    and "bytes (mem s') PROG_LOAD_ADDR (length bs) = bs" and "shells_ready sz bs (n + 1) s'"
    and "user_pde s' = user_page n" and "video_mem s' \<noteq> page_of (curr_terminal s') (curr_scheduled s')"
proof -
  note R = shells_readyD [OF ready]
  define u where "u = map_video (next_of (max 1 n)) (send_eoi 0 s)"
  define v where "v = pit_new_terminal (next_of (max 1 n)) u"
  have nx: "next_of (max 1 n) \<in> {1, 2, 3}" using n by auto
  have u: "total_terminal u = n" "frame u = frame s" "filesys_addr u = filesys_addr s" "str_shell u = str_shell s"
    "switch_flag u = 0" "mem u = mem s" "pcbs u = pcbs s" "highest_terminal_processes u = highest_terminal_processes s"
    "pcb_slots u = pcb_slots s" "process_count u = process_count s"
    unfolding u_def map_video_page [OF nx] by (simp_all add: send_eoi_boot R(3,4))
  have v: "frame v = frame s" "filesys_addr v = filesys_addr s" "str_shell v = str_shell s" "switch_flag v = 0"
    "\<forall>q. length (args (pcbs v q)) = MAX_ARGS" "process_count v = process_count s"
    using R(7) by (simp_all add: v_def pit_new_terminal_fields pit_new_terminal_simps u)
  have "tick_area s a \<or> mem v a = mem s a" for a
    using pit_new_terminal_mem [of u a "next_of (max 1 n)"] u(1,6) n by (auto simp: v_def tick_area_def)
  then have present: "shell_present sz bs v" by (rule shell_present_keep [OF R(1) v(1-3)])
  have "proc_view v (started n) = proc_view s (started n)"
    using u by (intro proc_view_cong) (simp_all add: v_def pit_new_terminal_simps)
  then have view: "proc_view v (started n)" using R(2) by simp
  have free: "process_count v < 6"
    using view n started_simps(5) [OF n] by (auto simp: proc_view_def)
  obtain e s' where run: "execute (str_shell v) v = Enters e s'" "word_bytes e = take 4 (drop 24 bs)"
    "bytes (mem s') PROG_LOAD_ADDR (length bs) = bs" "shell_present sz bs s'" "\<forall>q. length (args (pcbs s' q)) = MAX_ARGS"
    by (rule execute_shell [OF present view free v(5)])
  have "total_terminal s < 3" "switch_flag s = 0" "curr_scheduled s = max 1 n" using R(3,4,6) n by auto
  then have "pit_handler s = (case execute (str_shell u) v of Returns r s \<Rightarrow> Returns 0 s
      | Enters e s \<Rightarrow> Enters e s | Resumes st s \<Rightarrow> Resumes st s | Stuck \<Rightarrow> Stuck | Crash \<Rightarrow> Crash)"
    unfolding u_def v_def by (rule pit_handler_boots)
  then have pit: "pit_handler s = Enters e s'" using run(1) v(3) u(4) by simp
  have "proc_view s (started n)" "total_terminal s = n" "curr_terminal s = max 1 n" using R(2,3,5) by simp_all
  from boot_starts_shell [OF this(1,2) n \<open>switch_flag s = 0\<close> this(3) \<open>curr_scheduled s = max 1 n\<close>
      started_simps(2) [OF n] started_simps(3) pit]
  obtain p where p: "1 \<le> p" "p \<notin> set (all_procs (started n))" "\<forall>q. 1 \<le> q \<and> q < p \<longrightarrow> q \<in> set (all_procs (started n))"
    and s': "proc_view s' (push n p (started n))" "user_pde s' = user_page (p - 1)"
      "total_terminal s' = n + 1" "curr_terminal s' = n + 1" "curr_scheduled s' = n + 1"
      "video_mem s' \<noteq> page_of (curr_terminal s') (curr_scheduled s')"
    by (elim exE conjE) (rule that)
  have "p = n + 1"
  proof (rule ccontr)
    assume "p \<noteq> n + 1"
    then consider "p \<le> n" | "n + 1 < p" by linarith
    then show False
      using p(1,2) p(3) [rule_format, of "n + 1"] n started_simps(4) [OF n] by cases auto
  qed
  then have view': "proc_view s' (started (n + 1))" "user_pde s' = user_page n"
    using s'(1,2) started_simps(1) [OF n] by simp_all
  have "switch_flag s' = 0" using execute_fields(4) [OF run(1)] v(4) by simp
  moreover have "max 1 (n + 1) = n + 1" using n by auto
  ultimately have "shells_ready sz bs (n + 1) s'"
    using run(4,5) s'(3-5) view'(1) by (intro shells_readyI) simp_all
  then show thesis by (rule that [OF pit run(2,3) _ view'(2) s'(6)])
qed

text \<open>The fourth interrupt shows the first terminal.\<close>

lemma boot_last_tick:
  assumes "shells_ready sz bs 3 s"
  obtains s' where "pit_handler s = Returns 0 s'" and "proc_view s' (started 3)"
    and "total_terminal s' = 4" and "curr_terminal s' = 1" and "curr_scheduled s' = 3"
proof -
  note R = shells_readyD [OF assms]
  define u where "u = map_video 1 (send_eoi 0 s)"
  have u: "total_terminal u = 3" "highest_terminal_processes u = highest_terminal_processes s"
    "pcb_slots u = pcb_slots s" "process_count u = process_count s" "pcbs u = pcbs s"
    using map_video_page [of 1 "send_eoi 0 s"] by (simp_all add: u_def send_eoi_boot R(3))
  define s' where "s' = (switch_terminal 3 1 u)\<lparr>total_terminal := 4, curr_scheduled := 3, init_flag := 1\<rparr>"
  have "pit_switch (send_eoi 0 s) = send_eoi 0 s" by (simp add: pit_switch_def send_eoi_boot R(4))
  then have "pit_handler s = Returns 0 s'"
    using u(1) by (simp add: pit_handler_def Let_def u_def [symmetric] s'_def R(3,6))
  moreover have "proc_view s' (started 3) = proc_view s (started 3)"
    using u by (intro proc_view_cong) (simp_all add: s'_def)
  moreover have "total_terminal s' = 4" "curr_terminal s' = 1" "curr_scheduled s' = 3"
    by (simp_all add: s'_def switch_terminal_def update_cursor_def outb_def Let_def)
  ultimately show thesis using R(2) by (intro that) simp_all
qed

section \<open>Three interrupts\<close>

definition shell_started :: "u8 list \<Rightarrow> int \<Rightarrow> 'a scheduler_scheme \<Rightarrow> 'a scheduler_scheme \<Rightarrow> bool" where
  "shell_started bs n s s' \<longleftrightarrow> (\<exists>e. pit_handler s = Enters e s' \<and> word_bytes e = take 4 (drop 24 bs))
     \<and> bytes (mem s') PROG_LOAD_ADDR (length bs) = bs \<and> proc_view s' (started n) \<and> user_pde s' = user_page (n - 1)
     \<and> (total_terminal s', curr_terminal s', curr_scheduled s') = (n, n, n)"

lemma boot_tick_started:
  assumes "shells_ready sz bs n s" and "n \<in> {0, 1, 2}"
  obtains s' where "shell_started bs (n + 1) s s'" and "shells_ready sz bs (n + 1) s'"
proof -
  obtain e s' where s': "pit_handler s = Enters e s'" "word_bytes e = take 4 (drop 24 bs)"
    "bytes (mem s') PROG_LOAD_ADDR (length bs) = bs" "shells_ready sz bs (n + 1) s'" "user_pde s' = user_page n"
    by (rule boot_tick [OF assms])
  have "shell_started bs (n + 1) s s'"
    using s' assms(2) by (auto simp: shell_started_def shells_ready_def)
  then show thesis using s'(4) by (rule that)
qed

text \<open>C31. From the first interrupt of the timer to three shells. When the kernel's literal is the string
  \<open>shell\<close> and the directory has an executable of that name, the first interrupt loads its bytes into
  the program page and enters it at the address of its header, as process 1 of terminal 1; the
  second and the third do the same for processes 2 and 3 on terminals 2 and 3, whatever the shells
  and the calls of the system have done to the screens, the program page and the kernel's local
  variables in between. The fourth shows terminal 1 and hands over to the scheduling of three
  terminals.\<close>

theorem boot_starts_shells:
  assumes "shells_ready sz bs 0 s"
  shows "\<exists>s1. shell_started bs 1 s s1 \<and> (\<forall>t1. between_ticks s1 t1 \<longrightarrow>
      (\<exists>s2. shell_started bs 2 t1 s2 \<and> (\<forall>t2. between_ticks s2 t2 \<longrightarrow>
        (\<exists>s3. shell_started bs 3 t2 s3 \<and> (\<forall>t3. between_ticks s3 t3 \<longrightarrow>
          (\<exists>s4. pit_handler t3 = Returns 0 s4 \<and> proc_view s4 (started 3) \<and> total_terminal s4 = 4
            \<and> curr_terminal s4 = 1 \<and> curr_scheduled s4 = 3))))))"
proof -
  have tick: "\<exists>s'. shell_started bs (n + 1) s s' \<and> shells_ready sz bs (n + 1) s'"
    if "shells_ready sz bs n s" "n \<in> {0, 1, 2}" for n and s :: "'a scheduler_scheme"
    by (rule boot_tick_started [OF that]) blast
  have t1: "\<exists>s1. shell_started bs 1 s s1 \<and> shells_ready sz bs 1 s1" using tick [OF assms] by simp
  have t2: "\<exists>s2. shell_started bs 2 t s2 \<and> shells_ready sz bs 2 s2"
    if "shells_ready sz bs 1 s1" "between_ticks s1 t" for s1 t :: "'a scheduler_scheme"
    using tick [OF boot_ready_between [OF that]] by simp
  have t3: "\<exists>s3. shell_started bs 3 t s3 \<and> shells_ready sz bs 3 s3"
    if "shells_ready sz bs 2 s2" "between_ticks s2 t" for s2 t :: "'a scheduler_scheme"
    using tick [OF boot_ready_between [OF that]] by simp
  have t4: "\<exists>s4. pit_handler t = Returns 0 s4 \<and> proc_view s4 (started 3) \<and> total_terminal s4 = 4
      \<and> curr_terminal s4 = 1 \<and> curr_scheduled s4 = 3"
    if "shells_ready sz bs 3 s3" "between_ticks s3 t" for s3 t :: "'a scheduler_scheme"
    by (rule boot_last_tick [OF boot_ready_between [OF that]]) blast
  have u3: "\<exists>s3. shell_started bs 3 t s3 \<and> (\<forall>t3. between_ticks s3 t3 \<longrightarrow>
      (\<exists>s4. pit_handler t3 = Returns 0 s4 \<and> proc_view s4 (started 3) \<and> total_terminal s4 = 4
        \<and> curr_terminal s4 = 1 \<and> curr_scheduled s4 = 3))"
    if b2: "shells_ready sz bs 2 s2" "between_ticks s2 t" for s2 t :: "'a scheduler_scheme"
  proof -
    obtain s3 where s3: "shell_started bs 3 t s3" "shells_ready sz bs 3 s3" using t3 [OF b2] by blast
    show ?thesis by (rule exI [of _ s3]) (intro conjI allI impI s3(1) t4 [OF s3(2)])
  qed
  obtain s1 where s1: "shell_started bs 1 s s1" "shells_ready sz bs 1 s1" using t1 by blast
  have u2: "\<exists>s2. shell_started bs 2 t s2 \<and> (\<forall>t2. between_ticks s2 t2 \<longrightarrow>
      (\<exists>s3. shell_started bs 3 t2 s3 \<and> (\<forall>t3. between_ticks s3 t3 \<longrightarrow>
        (\<exists>s4. pit_handler t3 = Returns 0 s4 \<and> proc_view s4 (started 3) \<and> total_terminal s4 = 4
          \<and> curr_terminal s4 = 1 \<and> curr_scheduled s4 = 3))))"
    if b1: "between_ticks s1 t" for t
  proof -
    obtain s2 where s2: "shell_started bs 2 t s2" "shells_ready sz bs 2 s2" using t2 [OF s1(2) b1] by blast
    show ?thesis by (rule exI [of _ s2]) (intro conjI allI impI s2(1) u3 [OF s2(2)])
  qed
  show ?thesis by (rule exI [of _ s1]) (intro conjI allI impI s1(1) u2)
qed

text \<open>A machine before the first interrupt, with a program of the name \<open>shell\<close>.\<close>

definition shell_image :: mem where
  "shell_image = elf_image(0x10040 := 115, 0x10041 := 104, 0x10042 := 101, 0x10043 := 108, 0x10044 := 108,
     0x40000 := 115, 0x40001 := 104, 0x40002 := 101, 0x40003 := 108, 0x40004 := 108)"

definition sample_machine :: scheduler where
  "sample_machine = sample_boot\<lparr>mem := shell_image, str_shell := 0x40000\<rparr>"

lemma shell_image_loads:
  "load32 shell_image 0x10000 = 1" "load32 shell_image 0x10004 = 1" "load32 shell_image 0x11000 = 28"
  "load32 shell_image 0x11004 = 0" "load32 shell_image 0x10064 = 0"
  by (simp_all add: load32_def shell_image_def elf_image_def sample_image_def)

lemma shell_image_addrs:
  "p < 4096 \<Longrightarrow> data_addr shell_image 0x10000 0 p = 0x12000 + of_nat p"
  "file_length shell_image 0x10000 0 = 28"
  by (simp_all add: data_addr_def data_base_def block_addr_def inode_addr_def file_length_def shell_image_loads)

lemma shell_image_file: "file_in_image shell_image 0x10000 0x3000 0 28"
proof -
  have "in_region (data_addr shell_image 0x10000 0 p) 0x10000 0x3000
      \<and> in_image 0x10000 0x3000 (block_addr 0x10000 0 (p div 4096))" if "p < 28" for p
  proof -
    have "in_region (0x10000 + of_nat (0x2000 + p)) 0x10000 0x3000" using that by (intro in_region_add) simp_all
    then show ?thesis using that by (simp add: shell_image_addrs elf_addrs in_image_def)
  qed
  then show ?thesis by (simp add: file_in_image_def list_all_iff elf_addrs in_image_def)
qed

lemma shell_image_contents: "contents shell_image 0x10000 0 = contents elf_image 0x10000 0"
proof -
  have "shell_image (0x12000 + of_nat i) = elf_image (0x12000 + of_nat i)" if "i < 28" for i
  proof -
    define a where "a = 0x12000 + (of_nat i :: u32)"
    have "in_region a 0x12000 28" unfolding a_def using that by (intro in_region_add) simp_all
    then have "\<not> in_region a 0x10040 5" "\<not> in_region a 0x40000 5"
      by (rule disjoint_regions_not_in [rotated]; simp add: disjoint_regions_def)+
    then have "a \<notin> {0x10040, 0x10041, 0x10042, 0x10043, 0x10044, 0x40000, 0x40001, 0x40002, 0x40003, 0x40004}"
      by (auto simp: in_region_def)
    then show ?thesis unfolding a_def [symmetric] by (simp add: shell_image_def)
  qed
  then show ?thesis
    by (simp add: contents_def file_bytes_def shell_image_addrs elf_addrs)
qed

lemma shell_image_find: "find_file shell_image 0x10000 shell_name = Some (load_dentry shell_image 0x10040)"
proof -
  have "entry_name shell_image 0x10000 0 = [115, 104, 101, 108, 108]"
    using str_prefix_Suc [of shell_image _ 31] str_prefix_Suc [of shell_image _ 30] str_prefix_Suc [of shell_image _ 29]
      str_prefix_Suc [of shell_image _ 28] str_prefix_Suc [of shell_image _ 27] str_prefix_Suc [of shell_image _ 26]
    by (simp add: entry_name_def entry_addr_def shell_image_def elf_image_def sample_image_def)
  then show ?thesis
    by (simp add: find_file_def load_int_def shell_image_loads entry_addr_def shell_name_def of_char_def)
qed

lemma sample_machine_ready: "shells_ready 0x3000 (contents elf_image 0x10000 0) 0 sample_machine"
proof -
  have f: "mem sample_machine = shell_image" "filesys_addr sample_machine = 0x10000" "frame sample_machine = 0x7FF000"
    "str_shell sample_machine = 0x40000"
    by (simp_all add: sample_machine_def sample_boot_simps)
  have "proc_view sample_machine (started 0) = proc_view sample_boot (\<lambda>_. [])"
    by (simp add: proc_view_def started_def sample_machine_def all_procs_def)
  then have view: "proc_view sample_machine (started 0)" using sample_boot_view by simp
  have inode: "inode_num (load_dentry shell_image 0x10040) = 0"
    by (simp add: load_dentry_def load_int_def shell_image_loads)
  have "exec_layout sample_machine 0x3000" by (simp add: exec_layout_def disjoint_regions_def f)
  moreover have "directory_ok sample_machine 0x3000"
    by (simp add: directory_ok_def load_int_def shell_image_loads entries_in_image_def in_image_def entry_addr_def f)
  moreover have "tick_disjoint sample_machine 0x10000 0x3000" "tick_disjoint sample_machine 0x40000 6"
    by (simp_all add: tick_disjoint_def disjoint_regions_def f)
  moreover have "command_at sample_machine 0x40000 shell_name"
    by (simp add: command_at_def str_at_Cons str_at_Nil disjoint_regions_def shell_name_def of_char_def f)
      (simp add: shell_image_def elf_image_def sample_image_def)
  moreover have "whole_file sample_machine 0x3000 0"
    by (simp add: whole_file_def in_image_def inode_addr_def shell_image_addrs shell_image_file f)
  ultimately have "shell_present 0x3000 (contents elf_image 0x10000 0) sample_machine"
    by (simp add: shell_present_def f shell_image_find inode shell_image_contents) (simp add: is_elf_def elf_contents elf_addrs)
  then show ?thesis
    using view by (simp add: shells_ready_def sample_machine_def sample_boot_simps sample_pcb_def)
qed

theorem boot_starts_shells_witness:
  "\<exists>s1 s2. shell_started (contents elf_image 0x10000 0) 1 sample_machine s1
     \<and> shell_started (contents elf_image 0x10000 0) 2 s1 s2"
  using boot_starts_shells [OF sample_machine_ready] between_ticks_refl by blast

end
