(* ===== verification/Cat_Laws.thy ===== *)
theory Cat_Laws
  imports User_Programs_Laws
begin

text \<open>
  What \<open>cat\<close> prints: the text of the file, read in pieces of 1 KB, and, because the kernel stops
  after as many bytes as the file has instead of at its end, what follows the file in its last
  data block.
\<close>

section \<open>Bytes of a file\<close>

lemma file_bytes_append: "file_bytes m fs ino k (a + b) = file_bytes m fs ino k a @ file_bytes m fs ino (k + a) b"
  by (rule nth_equalityI) (auto simp: file_bytes_def nth_append add.assoc)

lemma file_bytes_same:
  "same_image fs sz m m' \<Longrightarrow> file_in_image m fs sz ino (k + n) \<Longrightarrow> file_bytes m' fs ino k n = file_bytes m fs ino k n"
  using same_image_data [of fs sz m m' ino "k + n"] by (simp add: file_bytes_def)

section \<open>Reading an open file\<close>

text \<open>A regular file is open as \<open>fd\<close> at position \<open>k\<close>, a buffer is in the program's memory, and the image
  is that of the memory \<open>m\<close>.\<close>

definition reading :: "mem \<Rightarrow> 'a process_scheme \<Rightarrow> int \<Rightarrow> u32 \<Rightarrow> nat \<Rightarrow> u32 \<Rightarrow> nat \<Rightarrow> bool" where
  "reading m s fd buf sz ino k \<longleftrightarrow> user_env s \<and> 2 \<le> fd \<and> fd < 8
     \<and> fops_table (fd_of s (current_pcb s) fd) = Some File_table \<and> flags (fd_of s (current_pcb s) fd) \<noteq> 0
     \<and> of_int (inode (fd_of s (current_pcb s) fd)) = ino \<and> f_pos (fd_of s (current_pcb s) fd) = int k
     \<and> filesys_addr s mod 0x1000 = 0 \<and> sz \<le> 4294967296 \<and> in_image (filesys_addr s) sz (inode_addr (filesys_addr s) ino)
     \<and> disjoint_regions (frame s) 0x800 (filesys_addr s) sz \<and> disjoint_regions VIDEO 4000 (filesys_addr s) sz
     \<and> disjoint_regions PROG_PAGE 0x400000 (filesys_addr s) sz \<and> user_area buf 1024 \<and> buf \<noteq> 0
     \<and> same_image (filesys_addr s) sz m (mem s)"

lemma reading_length:
  "reading m s fd buf sz ino k \<Longrightarrow> file_length (mem s) (filesys_addr s) ino = file_length m (filesys_addr s) ino"
  using same_image_load [of "filesys_addr s" sz m "mem s"] by (simp add: reading_def file_length_def)

text \<open>The call \<open>read\<close> on such a file.\<close>

lemma ece391_read_file:
  assumes R: "reading m s fd buf sz ino k" and run: "file_read fd buf 1024 s = (int n, s')" and n: "n \<le> 1024"
  shows "ece391_read fd buf 1024 (s, interrupts) = Some (int n, (s'\<lparr>intr := intr s\<rparr>, interrupts))"
proof -
  have "sint (of_int fd :: u32) = fd" using R by (intro sint_of_int_u32) (simp_all add: reading_def)
  moreover have "sint (of_int (int n) :: u32) = int n" using n by (intro sint_of_int_u32) simp_all
  moreover have "sys_read fd buf 1024 interrupts s = Done (int n, s', interrupts)"
    using R run by (simp add: sys_read_def Let_def table_read_def reading_def)
  ultimately show ?thesis by (simp add: ece391_read_def do_call_def system_calls_assembly_def iret_def)
qed

lemma reading_apart:
  assumes "reading m s fd buf sz ino k" and "n \<le> 1024" and "i < n"
  shows "\<not> in_region (buf + of_nat i) (filesys_addr s) sz"
proof
  assume "in_region (buf + of_nat i) (filesys_addr s) sz"
  moreover have "in_region (buf + of_nat i) PROG_PAGE 0x400000" using assms by (simp add: reading_def user_area_def)
  ultimately show False using assms(1) disjoint_regions_not_in by (auto simp: reading_def)
qed

lemma ece391_read_piece:
  assumes R: "reading m s fd buf sz ino k" and L: "L = file_length m (filesys_addr s) ino" "k \<le> L" "L < 2000000000"
    and img: "file_in_image m (filesys_addr s) sz ino (k + min L 1024)"
  obtains g where "ece391_read fd buf 1024 (s, interrupts) = Some (int (min L 1024),
      (update_fd (current_pcb s) fd (\<lambda>f. f\<lparr>f_pos := int (k + min L 1024)\<rparr>)
        (s\<lparr>mem := fill_with (mem s) buf (min L 1024) g\<rparr>), interrupts))"
    and "bytes (fill_with (mem s) buf (min L 1024) g) buf (min L 1024) = file_bytes m (filesys_addr s) ino k (min L 1024)"
proof -
  let ?fs = "filesys_addr s" and ?c = "min L 1024"
  let ?g = "\<lambda>i. mem s (data_addr (mem s) ?fs ino (k + i))"
  have r: "?fs mod 0x1000 = 0" "f_pos (fd_of s (current_pcb s) fd) = int k" "same_image ?fs sz m (mem s)"
    "ino = of_int (inode (fd_of s (current_pcb s) fd))"
    using R by (auto simp: reading_def)
  have len: "file_length (mem s) ?fs ino = L" using reading_length [OF R] L(1) by simp
  have run: "file_read fd buf (int 1024) s = (int ?c, update_fd (current_pcb s) fd (\<lambda>f. f\<lparr>f_pos := int (k + ?c)\<rparr>)
      (s\<lparr>mem := fill_with (mem s) buf ?c ?g\<rparr>))"
  proof (rule file_read_run [OF r(1) refl r(4,2)])
    show "file_in_image (mem s) ?fs sz ino (k + ?c)" by (rule same_image_file_in_image [OF r(3) img])
  qed (use len L reading_apart [OF R, of ?c] in simp_all)
  have "bytes (fill_with (mem s) buf ?c ?g) buf ?c = file_bytes (mem s) ?fs ino k ?c"
    using bytes_fill_with [of ?c "mem s" buf ?g] by (simp add: file_bytes_def)
  then have bytes: "bytes (fill_with (mem s) buf ?c ?g) buf ?c = file_bytes m ?fs ino k ?c"
    using file_bytes_same [OF r(3) img] by simp
  have run': "file_read fd buf 1024 s = (int ?c, update_fd (current_pcb s) fd (\<lambda>f. f\<lparr>f_pos := int (k + ?c)\<rparr>)
      (s\<lparr>mem := fill_with (mem s) buf ?c ?g\<rparr>))"
    using run by simp
  have keep: "t\<lparr>intr := intr s\<rparr> = t" if "intr t = intr s" for t :: "'a process_scheme" using that by simp
  have "ece391_read fd buf 1024 (s, interrupts) = Some (int ?c,
      (update_fd (current_pcb s) fd (\<lambda>f. f\<lparr>f_pos := int (k + ?c)\<rparr>) (s\<lparr>mem := fill_with (mem s) buf ?c ?g\<rparr>), interrupts))"
    using ece391_read_file [OF R run'] by (simp add: keep update_fd_def update_pcb_def)
  then show thesis using bytes by (rule that)
qed

text \<open>Behind the end of the file there is nothing more to read.\<close>

lemma ece391_read_none:
  assumes R: "reading m s fd buf sz ino k" and "file_length m (filesys_addr s) ino < k" "k < 2147483648"
  shows "ece391_read fd buf 1024 (s, interrupts) = Some (0, (s, interrupts))"
proof -
  have r: "f_pos (fd_of s (current_pcb s) fd) = int k" "ino = of_int (inode (fd_of s (current_pcb s) fd))"
    using R by (auto simp: reading_def)
  have len: "unat (load32 (mem s) (inode_addr (filesys_addr s) ino)) < k"
    using reading_length [OF R] assms(2) by (simp add: file_length_def)
  have "unat (of_int (int k) :: u32) = k" using assms(3) by (simp add: unat_of_nat_small)
  then have past: "load32 (mem s) (filesys_addr s + 0x1000 + ino * 0x1000) < (of_int (int k) :: u32)"
    using len unfolding inode_addr_def by (simp only: word_less_nat_alt)
  have pos: "sint (of_int (int k) + 0 :: u32) = int k" using assms(3) by (simp add: sint_of_nat_u32)
  have same: "(pcbs s (current_pcb s))\<lparr>file_array := (file_array (pcbs s (current_pcb s)))
      (fd := (file_array (pcbs s (current_pcb s)) fd)\<lparr>f_pos := int k\<rparr>)\<rparr> = pcbs s (current_pcb s)"
    using r(1) by (simp add: fd_of_def fun_upd_idem)
  have "file_read fd buf 1024 s = (0, s)"
    using r past pos same unfolding file_read_def read_data_def Let_def
    by (simp add: update_fd_def update_pcb_def fd_of_def fun_upd_idem)
  then show ?thesis using ece391_read_file [OF R, of 0 s] by simp
qed

section \<open>The loop\<close>

text \<open>Reading changes the memory in the buffer, and the position.\<close>

lemma reading_step:
  assumes R: "reading m s fd buf sz ino k" and env: "user_env s'" and fields: "frame s' = frame s" "filesys_addr s' = filesys_addr s"
    and fd: "fd_of s' (current_pcb s') fd = (fd_of s (current_pcb s) fd)\<lparr>f_pos := int k'\<rparr>"
    and same: "same_image (filesys_addr s) sz (mem s) (mem s')"
  shows "reading m s' fd buf sz ino k'"
proof -
  have "same_image (filesys_addr s) sz m (mem s')" using R same same_image_trans by (auto simp: reading_def)
  then show ?thesis using R env fields fd by (simp add: reading_def)
qed

lemma cat_round:
  assumes R: "reading m s fd buf sz ino k" and L: "L = file_length m (filesys_addr s) ino" "k \<le> L" "L < 2000000000" "0 < L"
    and img: "file_in_image m (filesys_addr s) sz ino (k + min L 1024)"
  obtains s' where "cat_loop str buf fd (s, interrupts) = cat_loop str buf fd (s', interrupts)"
    and "reading m s' fd buf sz ino (k + min L 1024)" and "filesys_addr s' = filesys_addr s"
    and "user_term s' = fold spec_putc (filter (\<lambda>c. c \<noteq> 0) (file_bytes m (filesys_addr s) ino k (min L 1024))) (user_term s)"
proof -
  define c where "c = min L 1024"
  have c: "0 < c" "c \<le> 1024" using L(4) by (simp_all add: c_def)
  obtain g where read: "ece391_read fd buf 1024 (s, interrupts) = Some (int c,
      (update_fd (current_pcb s) fd (\<lambda>f. f\<lparr>f_pos := int (k + c)\<rparr>) (s\<lparr>mem := fill_with (mem s) buf c g\<rparr>), interrupts))"
    and bytes: "bytes (fill_with (mem s) buf c g) buf c = file_bytes m (filesys_addr s) ino k c"
    unfolding c_def by (rule ece391_read_piece [OF R L(1-3) img])
  define t where "t = update_fd (current_pcb s) fd (\<lambda>f. f\<lparr>f_pos := int (k + c)\<rparr>) (s\<lparr>mem := fill_with (mem s) buf c g\<rparr>)"
  have env: "user_env s" "user_area buf 1024" "buf \<noteq> 0" "2 \<le> fd" using R by (simp_all add: reading_def)
  have area: "user_area buf c" using user_area_part [OF env(2), of 0 c] c by simp
  have t: "mem t = fill_with (mem s) buf c g" "frame t = frame s" "filesys_addr t = filesys_addr s"
    "fd_of t (current_pcb t) fd = (fd_of s (current_pcb s) fd)\<lparr>f_pos := int (k + c)\<rparr>"
    "curr_terminal t = curr_terminal s" "screen_x t = screen_x s" "screen_y t = screen_y s"
    by (simp_all add: t_def update_fd_def update_pcb_def fd_of_def current_pcb_def)
  have env_t: "user_env t"
    using env by (simp add: t_def user_env_def stdout_open_def update_fd_def update_pcb_def fd_of_def current_pcb_def cursor_ok_def)
  have image: "same_image (filesys_addr s) sz (mem s) (mem t)"
    unfolding t(1) using reading_apart [OF R c(2)] by (rule fill_with_image)
  note Rt = reading_step [OF R env_t t(2-4) image]
  have "mem t a = mem s a" if "in_region a VIDEO 4000" for a
  proof -
    have "disjoint_regions buf c VIDEO 4000" by (rule user_area_apart [OF area c(1)]) (simp add: disjoint_regions_def)
    then have "\<not> in_region a buf c" using disjoint_regions_not_in [OF _ that] by (simp add: disjoint_regions_sym)
    then show ?thesis by (simp add: t(1) fill_with_def)
  qed
  then have view: "user_term t = user_term s" by (rule user_term_cong) (simp_all add: t)
  have n: "0 < int c" "int c < 2047" "user_area buf (nat (int c))" using c area by simp_all
  obtain s' where s': "ece391_write 1 buf (int c) (t, interrupts) = Some (int c + 1, (s', interrupts))"
    "shows_text (filter (\<lambda>c. c \<noteq> 0) (file_bytes m (filesys_addr s) ino k c)) t s'"
    by (rule ece391_write_shows [OF env_t n(1,2) env(3) n(3), unfolded nat_int t(1) bytes])
  have b: "behind t s'" "user_env s'" "frame s' = frame t" "\<And>a. scratch_area t a \<or> mem s' a = mem t a"
    using s'(2) by (auto simp: shows_text_def scratch_area_def)
  note fields = behind_fields [OF b(1)]
  have fd_s': "fd_of s' (current_pcb s') fd = (fd_of t (current_pcb t) fd)\<lparr>f_pos := int (k + c)\<rparr>"
    using t(4) by (simp add: fd_of_def fields)
  have image': "same_image (filesys_addr t) sz (mem t) (mem s')"
    using Rt b(4) by (intro scratch_image [where s = t]) (simp_all add: reading_def)
  show thesis
  proof (rule that [folded c_def])
    show "cat_loop str buf fd (s, interrupts) = cat_loop str buf fd (s', interrupts)"
      using c read s'(1) by (subst cat_loop.simps) (simp add: seq_Some t_def)
    show "reading m s' fd buf sz ino (k + c)" by (rule reading_step [OF Rt b(2,3) fields(1) fd_s' image'])
    show "filesys_addr s' = filesys_addr s" by (simp add: fields t)
    show "user_term s' = fold spec_putc (filter (\<lambda>c. c \<noteq> 0) (file_bytes m (filesys_addr s) ino k c)) (user_term s)"
      using s'(2) view by (simp add: shows_text_def)
  qed
qed

text \<open>How many bytes a loop gets that reads up to \<open>n\<close> bytes of a file of length \<open>L\<close> at a time: it
  goes on as long as it starts within the file, the end included.\<close>

definition read_in_all :: "nat \<Rightarrow> nat \<Rightarrow> nat" where
  "read_in_all L n = (L div min L n + 1) * min L n"

lemma read_in_all_bounds: "0 < n \<Longrightarrow> L \<le> read_in_all L n" "read_in_all L n \<le> L + n"
proof -
  have "L div min L n * min L n + L mod min L n = L" by (rule div_mult_mod_eq)
  moreover have "0 < n \<Longrightarrow> L mod min L n \<le> min L n" by (cases "L = 0") (simp, intro mod_le_divisor, simp)
  ultimately show "0 < n \<Longrightarrow> L \<le> read_in_all L n" "read_in_all L n \<le> L + n"
    unfolding read_in_all_def by (simp_all add: add_mult_distrib)
qed

lemma cat_loop_prints:
  assumes "reading m s fd buf sz ino (j * min L 1024)" and "L = file_length m (filesys_addr s) ino" "L < 2000000000" "0 < L"
    and "file_in_image m (filesys_addr s) sz ino (read_in_all L 1024)" and "j \<le> L div min L 1024 + 1"
  shows "\<exists>s'. cat_loop str buf fd (s, interrupts) = Some (0, (s', interrupts))
    \<and> user_term s' = fold spec_putc (filter (\<lambda>c. c \<noteq> 0)
        (file_bytes m (filesys_addr s) ino (j * min L 1024) (read_in_all L 1024 - j * min L 1024))) (user_term s)"
  using assms
proof (induction "L div min L 1024 + 1 - j" arbitrary: j s)
  case 0
  then have j: "j = L div min L 1024 + 1" by simp
  have past: "L < j * min L 1024" "j * min L 1024 < 2147483648"
  proof -
    have "L div min L 1024 * min L 1024 + L mod min L 1024 = L" by (rule div_mult_mod_eq)
    moreover have "L mod min L 1024 < min L 1024" using 0(5) by (intro mod_less_divisor) simp
    ultimately show "L < j * min L 1024" unfolding j add_mult_distrib by linarith
    show "j * min L 1024 < 2147483648" using read_in_all_bounds(2) [of L 1024] 0(4) by (simp add: j read_in_all_def)
  qed
  have "ece391_read fd buf 1024 (s, interrupts) = Some (0, (s, interrupts))"
    using past by (intro ece391_read_none [OF 0(2)]) (simp_all add: 0(3) [symmetric])
  then have "cat_loop str buf fd (s, interrupts) = Some (0, (s, interrupts))"
    by (subst cat_loop.simps) (simp add: seq_Some gives_def)
  moreover have "read_in_all L 1024 - j * min L 1024 = 0" by (simp add: j read_in_all_def)
  ultimately show ?case by (simp add: file_bytes_def)
next
  case (Suc i)
  define c where "c = min L 1024"
  have j: "j < L div c + 1" "i = L div c + 1 - Suc j" using Suc.hyps(2) by (simp_all add: c_def)
  have "j * c \<le> L div c * c" using j(1) by (intro mult_le_mono1) simp
  then have k: "j * c \<le> L" using div_times_less_eq_dividend [of L c] by linarith
  have "Suc j * c \<le> (L div c + 1) * c" using j(1) by (intro mult_le_mono1) simp
  then have kc: "j * c + c \<le> read_in_all L 1024" by (simp add: read_in_all_def c_def [symmetric] add.commute)
  have img: "file_in_image m (filesys_addr s) sz ino (j * c + c)" by (rule file_in_image_mono [OF Suc.prems(5) kc])
  obtain s' where s': "cat_loop str buf fd (s, interrupts) = cat_loop str buf fd (s', interrupts)"
    "reading m s' fd buf sz ino (j * c + c)" "filesys_addr s' = filesys_addr s"
    "user_term s' = fold spec_putc (filter (\<lambda>c. c \<noteq> 0) (file_bytes m (filesys_addr s) ino (j * c) c)) (user_term s)"
    by (rule cat_round [OF Suc.prems(1-2) k [unfolded c_def] Suc.prems(3,4) img [unfolded c_def], folded c_def])
  have next_pos: "j * c + c = Suc j * c" by (simp add: add.commute)
  have split: "file_bytes m (filesys_addr s) ino (j * c) (read_in_all L 1024 - j * c)
      = file_bytes m (filesys_addr s) ino (j * c) c
        @ file_bytes m (filesys_addr s) ino (Suc j * c) (read_in_all L 1024 - Suc j * c)"
    using file_bytes_append [of m "filesys_addr s" ino "j * c" c "read_in_all L 1024 - Suc j * c"] kc
    by (simp only: next_pos) (simp add: add.commute)
  have le: "Suc j \<le> L div c + 1" using j(1) by simp
  show ?case
    using Suc.hyps(1) [OF j(2) [unfolded c_def], of s', folded c_def] s' Suc.prems(2-5) le
    unfolding c_def [symmetric] split by (simp add: next_pos)
qed

section \<open>cat\<close>

text \<open>\<open>getargs\<close> fills the buffer.\<close>

lemma ece391_getargs_gets:
  assumes "user_process s sz" and "user_area buf 1024" and "args (pcbs s (current_pcb s)) = xs @ 0 # rest" and "0 \<notin> set xs"
    and "length (xs @ 0 # rest) = 127"
  obtains m where "ece391_getargs buf 1024 (s, interrupts) = Some (0, (s\<lparr>mem := m\<rparr>, interrupts))"
    and "str_at m buf xs" and "user_env (s\<lparr>mem := m\<rparr>)" and "user_term (s\<lparr>mem := m\<rparr>) = user_term s"
    and "\<And>a. scratch_area s a \<or> m a = mem s a"
proof -
  define m where "m = fill_with (mem s) buf 1024 (arg_byte s (pcbs s (current_pcb s)))"
  have run: "getargs buf 1024 s = Done (0, s\<lparr>mem := m\<rparr>)" "str_at m buf xs"
    using getargs_run [OF assms(3-5), of 1024 buf] assms(5) by (simp_all add: m_def)
  have "(s\<lparr>mem := m\<rparr>)\<lparr>intr := intr s\<rparr> = s\<lparr>mem := m\<rparr>" by simp
  then have call: "ece391_getargs buf 1024 (s, interrupts) = Some (0, (s\<lparr>mem := m\<rparr>, interrupts))"
    using run(1) by (simp add: ece391_getargs_def do_call_def system_calls_assembly_def back_outcome_def iret_def)
  have m: "in_region a PROG_PAGE 0x400000 \<or> m a = mem s a" for a
    using user_area_in [OF assms(2), of a] by (auto simp: m_def fill_with_def)
  then have "in_region a (frame s) 64 \<or> in_region a PROG_PAGE 0x400000 \<or> m a = mem s a" for a by blast
  note same = user_same [OF user_process_env [OF assms(1)] this, of "dir_index s"]
  have upd: "s\<lparr>mem := m, dir_index := dir_index s\<rparr> = s\<lparr>mem := m\<rparr>" by simp
  show thesis
    using call run(2) same(2,1) unfolding upd by (rule that) (use m in \<open>auto simp: scratch_area_def\<close>)
qed

text \<open>C8. \<open>cat\<close> with the name of a regular file returns 0 and has put the bytes of the file on the
  terminal, in order and without NULs, followed by what is behind the end of the file: \<open>read\<close>
  counts the length of the file from where it starts, so the last pieces go past the end. Of a file
  shorter than 1 KB the same number of bytes again appears, of an empty file nothing.\<close>

theorem cat_prints_file:
  assumes "user_process s sz" and "user_area buf 1024" and "buf \<noteq> 0"
    and "args (pcbs s (current_pcb s)) = xs @ 0 # rest" and "0 \<notin> set xs" and "length (xs @ 0 # rest) = 127"
    and "length xs \<le> 32" and "find_file (mem s) (filesys_addr s) xs = Some entry" and "file_type entry = 2"
    and "file_arr_size (pcbs s (current_pcb s)) < 8" and "ino = of_int (inode_num entry)"
    and "L = file_length (mem s) (filesys_addr s) ino" and "L < 2000000000"
    and "in_image (filesys_addr s) sz (inode_addr (filesys_addr s) ino)"
    and "file_in_image (mem s) (filesys_addr s) sz ino (read_in_all L 1024)"
  shows "\<exists>s'. cat_main str buf (s, interrupts) = Some (0, (s', interrupts))
    \<and> user_term s' = fold spec_putc (filter (\<lambda>c. c \<noteq> 0) (contents (mem s) (filesys_addr s) ino
        @ file_bytes (mem s) (filesys_addr s) ino L (read_in_all L 1024 - L))) (user_term s)"
proof -
  let ?fs = "filesys_addr s"
  obtain m where m: "ece391_getargs buf 1024 (s, interrupts) = Some (0, (s\<lparr>mem := m\<rparr>, interrupts))"
    "str_at m buf xs" "user_env (s\<lparr>mem := m\<rparr>)" "user_term (s\<lparr>mem := m\<rparr>) = user_term s" "\<And>a. scratch_area s a \<or> m a = mem s a"
    by (rule ece391_getargs_gets [OF assms(1,2,4-6), of interrupts]) (rule that)
  let ?t = "s\<lparr>mem := m\<rparr>"
  have same1: "same_image ?fs sz (mem s) m" by (rule user_process_image [OF assms(1) m(5)])
  have cur: "current_pcb ?t = current_pcb s" by (simp add: current_pcb_def)
  have ok: "files_ok (pcbs ?t (current_pcb ?t))" using assms(1) by (simp add: user_process_def cur)
  have kept: "scratch_area s a \<or> mem ?t a = mem s a" for a using m(5) [of a] by simp
  note step = user_process_step [OF assms(1) m(3) _ _ ok kept]
  have t: "user_process ?t sz" "find_file m ?fs xs = Some entry" using step(1) step(2) [of xs] assms(8) by simp_all
  have name: "find_file (mem ?t) (filesys_addr ?t) (str_prefix (mem ?t) buf 32) = Some entry"
    using str_at_prefix [OF m(2) assms(7)] t(2) by simp
  obtain fd s0 where s0: "ece391_open buf (?t, interrupts) = Some (fd, (s0, interrupts))" "opened entry fd ?t s0"
    and fd: "2 \<le> fd" "fd < 8"
    by (rule ece391_open_opens [OF _ _ _ assms(3) name, of sz interrupts])
      (use t(1) assms(9,10) in \<open>simp_all add: user_process_def cur\<close>)
  note o = opened_env [OF s0(2) m(3) fd(1)]
  have "scratch_area ?t a \<or> mem s0 a = mem ?t a" for a
    using o(6) [of a] by (auto simp: scratch_area_def kernel_area_def in_region_def)
  note same2 = user_process_image [OF t(1) this]
  have same: "same_image ?fs sz (mem s) (mem s0)" by (rule same_image_trans [OF same1]) (use same2 in simp)
  have R: "reading (mem s) s0 fd buf sz ino (0 * min L 1024)"
    using assms(1-3,9,11,14) o(1,3,4) fd same opened_fd [OF s0(2)]
    by (simp add: reading_def user_process_def exec_layout_def fd_setup_def)
  have main: "cat_main str buf (s, interrupts) = cat_loop str buf fd (s0, interrupts)"
    using m(1) s0(1) fd by (simp add: cat_main_def seq_Some)
  have img: "in_image ?fs sz (inode_addr ?fs ino)" "read_in_all L 1024 = L + (read_in_all L 1024 - L)"
    using assms(14) read_in_all_bounds(1) [of 1024 L] by simp_all
  then have all: "file_bytes (mem s) ?fs ino 0 (read_in_all L 1024)
      = contents (mem s) ?fs ino @ file_bytes (mem s) ?fs ino L (read_in_all L 1024 - L)"
    unfolding contents_def assms(12) [symmetric] by (metis file_bytes_append add_0)
  show ?thesis
  proof (cases "L = 0")
    case True
    obtain g where "ece391_read fd buf 1024 (s0, interrupts) = Some (0,
        (update_fd (current_pcb s0) fd (\<lambda>f. f\<lparr>f_pos := 0\<rparr>) (s0\<lparr>mem := fill_with (mem s0) buf 0 g\<rparr>), interrupts))"
      by (rule ece391_read_piece [OF R, of L interrupts])
        (use True assms(12,13,15) o(4) in \<open>simp_all add: read_in_all_def\<close>)
    then have "cat_loop str buf fd (s0, interrupts)
        = Some (0, (update_fd (current_pcb s0) fd (\<lambda>f. f\<lparr>f_pos := 0\<rparr>) s0, interrupts))"
      by (subst cat_loop.simps) (simp add: seq_Some gives_def)
    moreover have "user_term (update_fd (current_pcb s0) fd (\<lambda>f. f\<lparr>f_pos := 0\<rparr>) s0) = user_term s0"
      by (rule user_term_cong) (simp_all add: update_fd_def update_pcb_def)
    ultimately show ?thesis
      using main m(4) o(2) True assms(12) by (simp add: contents_def read_in_all_def file_bytes_def)
  next
    case False
    then show ?thesis
      unfolding all [symmetric] using cat_loop_prints [OF R, of str interrupts] main m(4) o(2,4) assms(12,13,15) by simp
  qed
qed

theorem cat_prints_file_witness:
  "\<exists>s'. cat_main (\<lambda>_. 0) 0x08051000 (sample_user, []) = Some (0, (s', []))
    \<and> user_term s' = fold spec_putc [104, 105, 10] (user_term sample_user)"
proof -
  have area: "user_area 0x08051000 1024" using sample_area [of "0x51000" 1024] by simp
  have "(126::nat) = Suc 125" by simp
  then have "replicate 126 (0::u8) = 0 # replicate 125 0" by (simp only: replicate_Suc)
  then have args: "args (pcbs sample_user (current_pcb sample_user)) = [97] @ 0 # replicate 125 0" by simp
  have addr: "data_addr user_image 0x10000 0 p = 0x12000 + of_nat p" if "p < 4096" for p
    using that by (simp add: data_addr_def data_base_def block_addr_def inode_addr_def user_image_loads)
  have length: "file_length user_image 0x10000 0 = 3" by (simp add: file_length_def inode_addr_def user_image_loads)
  have total: "read_in_all 3 1024 = 6" by (simp add: read_in_all_def)
  have "in_region (0x12000 + of_nat p) 0x10000 0x3000" if "p < 6" for p
    using that in_region_add [of "0x2000 + p" "0x3000" "0x10000"] by simp
  then have img: "file_in_image user_image 0x10000 0x3000 0 6"
    by (simp add: file_in_image_def list_all_iff in_image_def block_addr_def inode_addr_def addr)
  have six: "[0..<3] = [0, 1, 2::nat]" by (simp add: upt_rec)
  have shown: "filter (\<lambda>c. c \<noteq> 0) (contents user_image 0x10000 0 @ file_bytes user_image 0x10000 0 3 3) = [104, 105, 10]"
    by (simp add: contents_def length file_bytes_def six addr) (simp add: user_image_def)
  have "\<exists>s'. cat_main (\<lambda>_. 0) 0x08051000 (sample_user, []) = Some (0, (s', []))
    \<and> user_term s' = fold spec_putc (filter (\<lambda>c. c \<noteq> 0) (contents (mem sample_user) (filesys_addr sample_user) 0
        @ file_bytes (mem sample_user) (filesys_addr sample_user) 0 3 (read_in_all 3 1024 - 3))) (user_term sample_user)"
  proof (rule cat_prints_file [OF sample_user_process area _ args])
    show "find_file (mem sample_user) (filesys_addr sample_user) [97] = Some (load_dentry user_image 0x10080)"
      by (simp add: user_image_files)
    show "file_arr_size (pcbs sample_user (current_pcb sample_user)) < 8" by (simp add: sample_pcb_def)
    show "file_in_image (mem sample_user) (filesys_addr sample_user) 0x3000 0 (read_in_all 3 1024)" by (simp add: total img)
  qed (simp_all add: user_image_files length in_image_def inode_addr_def)
  moreover have "read_in_all 3 1024 - 3 = 3" by (simp add: total)
  ultimately show ?thesis by (simp only: sample_user_simps shown)
qed

end
