(* ===== verification/Syserr.thy ===== *)
theory Syserr
  imports User_Lib
begin

text \<open>
  The error tests of the system calls, \<open>syscalls/ece391syserr.c\<close>: each calls the kernel in ways that
  must fail and reports whether they do.
\<close>

section \<open>Tests\<close>

abbreviation NEG_FD :: int where "NEG_FD \<equiv> -1073741823"
abbreviation BIG_FD :: int where "BIG_FD \<equiv> 1073741823"
abbreviation BIG_NUM :: u32 where "BIG_NUM \<equiv> 1073741823"
abbreviation NEG_NUM :: u32 where "NEG_NUM \<equiv> -1073741823"

text \<open>\<open>if (-1 != call) { fail = 2; puts (msg); }\<close>, with the value of \<open>fail\<close> passed on.\<close>

definition must_fail :: "(string \<Rightarrow> u32) \<Rightarrow> ('a process_scheme, int) program \<Rightarrow> string \<Rightarrow> int \<Rightarrow> ('a process_scheme, int) program" where
  "must_fail str call msg fail =
     seq call (\<lambda>r. if r \<noteq> -1 then seq (ece391_fdputs 1 (str (msg @ [CHR 0x0A]))) (\<lambda>_. gives 2) else gives fail)"

text \<open>The end of a test.\<close>

definition verdict :: "(string \<Rightarrow> u32) \<Rightarrow> string \<Rightarrow> int \<Rightarrow> ('a process_scheme, int) program" where
  "verdict str name fail =
     (if fail \<noteq> 0 then seq (ece391_fdputs 1 (str (name @ '': FAIL'' @ [CHR 0x0A]))) (\<lambda>_. gives fail)
      else seq (ece391_fdputs 1 (str (name @ '': PASS'' @ [CHR 0x0A]))) (\<lambda>_. gives fail))"

text \<open>A loop over file descriptors that carries a number along.\<close>

primrec for_each :: "int list \<Rightarrow> (int \<Rightarrow> int \<Rightarrow> ('a process_scheme, int) program) \<Rightarrow> int \<Rightarrow> ('a process_scheme, int) program" where
  "for_each [] body acc = gives acc"
| "for_each (i # is) body acc = seq (body i acc) (for_each is body)"

text \<open>\<open>call_sys\<close> leaves the other registers as they happen to be.\<close>

definition call_sys :: "u32 \<times> u32 \<times> u32 \<Rightarrow> u32 \<Rightarrow> ('a process_scheme, int) program" where
  "call_sys regs num = do_call num (fst regs) (fst (snd regs)) (snd (snd regs))"

definition err_neg_fd :: "(string \<Rightarrow> u32) \<Rightarrow> u32 \<Rightarrow> ('a process_scheme, int) program" where
  "err_neg_fd str buf =
     seq (must_fail str (ece391_read NEG_FD buf 31) ''read fail'' 0) (\<lambda>fail.
     seq (must_fail str (ece391_write NEG_FD buf 31) ''write fail'' fail) (\<lambda>fail.
     seq (must_fail str (ece391_close NEG_FD) ''close fail'' fail) (verdict str ''err_neg_fd'')))"

definition err_big_fd :: "(string \<Rightarrow> u32) \<Rightarrow> u32 \<Rightarrow> ('a process_scheme, int) program" where
  "err_big_fd str buf =
     seq (must_fail str (ece391_read BIG_FD buf 31) ''read fail'' 0) (\<lambda>fail.
     seq (must_fail str (ece391_write BIG_FD buf 31) ''write fail'' fail) (\<lambda>fail.
     seq (must_fail str (ece391_close BIG_FD) ''close fail'' fail) (verdict str ''err_big_fd'')))"

definition err_open_lots :: "(string \<Rightarrow> u32) \<Rightarrow> ('a process_scheme, int) program" where
  "err_open_lots str =
     seq (for_each [0, 1, 2, 3, 4, 5, 6]
           (\<lambda>_ cnt. seq (ece391_open (str ''.'')) (\<lambda>r. gives (if r = -1 then cnt + 1 else cnt))) 0) (\<lambda>cnt.
     seq (for_each [2, 3, 4, 5, 6, 7] (\<lambda>i _. ece391_close i) 0) (\<lambda>_.
     if cnt = 1 then seq (ece391_fdputs 1 (str (''err_open_lots: PASS'' @ [CHR 0x0A]))) (\<lambda>_. gives 0)
     else seq (ece391_fdputs 1 (str (''err_open_lots: FAIL'' @ [CHR 0x0A]))) (\<lambda>_. gives 2)))"

definition err_open :: "(string \<Rightarrow> u32) \<Rightarrow> ('a process_scheme, int) program" where
  "err_open str =
     seq (must_fail str (ece391_open (str ''helloo'')) (CHR 0x27 # ''helloo'' @ [CHR 0x27] @ '' fail'') 0) (\<lambda>fail.
     seq (must_fail str (ece391_open (str ''shel'')) (CHR 0x27 # ''shel'' @ [CHR 0x27] @ '' fail'') fail) (\<lambda>fail.
     seq (must_fail str (ece391_open (str [])) ''empty string fail'' fail) (verdict str ''err_open'')))"

definition err_unopened :: "(string \<Rightarrow> u32) \<Rightarrow> u32 \<Rightarrow> ('a process_scheme, int) program" where
  "err_unopened str buf =
     seq (for_each [0, 1, 2, 3, 4, 5, 6, 7]
           (\<lambda>i. must_fail str (ece391_close i) ''close unopened or invalid fd fail'') 0) (\<lambda>fail.
     seq (for_each [2, 3, 4, 5, 6, 7] (\<lambda>i. must_fail str (ece391_read i buf 31) ''read from unopened fd fail'') fail) (\<lambda>fail.
     seq (for_each [2, 3, 4, 5, 6, 7] (\<lambda>i. must_fail str (ece391_write i buf 31) ''write to unopened fd fail'') fail)
       (verdict str ''err_unopened'')))"

definition err_vidmap :: "(string \<Rightarrow> u32) \<Rightarrow> ('a process_scheme, int) program" where
  "err_vidmap str =
     seq (must_fail str (ece391_vidmap 0) ''Null pointer fail'' 0) (\<lambda>fail.
     seq (must_fail str (ece391_vidmap 0x400000) ''Kernel pointer fail fail'' fail) (verdict str ''err_vidmap''))"

definition err_stdin_out :: "(string \<Rightarrow> u32) \<Rightarrow> u32 \<Rightarrow> ('a process_scheme, int) program" where
  "err_stdin_out str buf =
     seq (must_fail str (ece391_write 0 buf 31) ''write to stdin fail'' 0) (\<lambda>fail.
     seq (must_fail str (ece391_read 1 buf 31) ''read from stdout fail'' fail) (verdict str ''err_stdin_out''))"

definition err_syscall_num :: "(string \<Rightarrow> u32) \<Rightarrow> u32 \<times> u32 \<times> u32 \<Rightarrow> ('a process_scheme, int) program" where
  "err_syscall_num str regs =
     seq (must_fail str (call_sys regs 0) ''syscall 0 fail'' 0) (\<lambda>fail.
     seq (must_fail str (call_sys regs BIG_NUM) ''big num syscall fail'' fail) (\<lambda>fail.
     seq (must_fail str (call_sys regs NEG_NUM) ''neg num syscall fail'' fail) (verdict str ''err_syscall_num'')))"

section \<open>main\<close>

text \<open>The \<open>switch\<close> on the number of the test.\<close>

definition run_tests :: "(string \<Rightarrow> u32) \<Rightarrow> u32 \<Rightarrow> u32 \<times> u32 \<times> u32 \<Rightarrow> int \<Rightarrow> ('a process_scheme, int) program" where
  "run_tests str buf regs select =
     (if select = 0 then
        seq (err_neg_fd str buf) (\<lambda>a.
        seq (err_big_fd str buf) (\<lambda>b.
        seq (err_open_lots str) (\<lambda>c.
        seq (err_open str) (\<lambda>d.
        seq (err_unopened str buf) (\<lambda>e.
        seq (err_vidmap str) (\<lambda>f.
        seq (err_stdin_out str buf) (\<lambda>g.
        seq (err_syscall_num str regs) (\<lambda>h.
        (let fail = a + b + c + d + e + f + g + h
         in if fail \<noteq> 0 then
              seq (ece391_fdputs 1 (str ([CHR 0x0A] @ ''Overall Tests: FAIL'' @ [CHR 0x0A]))) (\<lambda>_. gives fail)
            else
              seq (ece391_fdputs 1 (str ([CHR 0x0A] @ ''Overall Tests: PASS'' @ [CHR 0x0A]))) (\<lambda>_. gives fail))))))))))
      else if select = 1 then err_neg_fd str buf
      else if select = 2 then err_big_fd str buf
      else if select = 3 then err_open_lots str
      else if select = 4 then err_open str
      else if select = 5 then err_unopened str buf
      else if select = 6 then err_vidmap str
      else if select = 7 then err_stdin_out str buf
      else if select = 8 then err_syscall_num str regs
      else seq (ece391_fdputs 1 (str ''Invalid test number. Choose from tests 1-8 or 0'')) (\<lambda>_. gives 0))"

text \<open>\<open>buf\<close> is the array of \<open>main\<close>, \<open>test_buf\<close> that of the tests, which are not active at the same
  time as each other.\<close>

definition syserr_main ::
    "(string \<Rightarrow> u32) \<Rightarrow> u32 \<Rightarrow> u32 \<Rightarrow> u32 \<times> u32 \<times> u32 \<Rightarrow> ('a process_scheme, int) program" where
  "syserr_main str buf test_buf regs =
     seq (ece391_fdputs 1 (str ''Choose from tests 1-8. 0 to run all: '')) (\<lambda>_.
     seq (ece391_read 0 buf 127) (\<lambda>cnt.
     if cnt = -1 then seq (ece391_fdputs 1 (str (''Can't read test #'' @ [CHR 0x0A]))) (\<lambda>_. gives 2)
     else seq (reads (\<lambda>m. uint (m buf) - 48)) (run_tests str test_buf regs)))"

end
