(* ===== verification/Syserr_Laws.thy ===== *)
theory Syserr_Laws
  imports Syserr User_Programs_Laws
begin

text \<open>
  The tests of \<open>ece391syserr.c\<close> pass on this kernel. The proof is a small logic: \<open>passes\<close> is a triple
  over the states in which the tests can run, with the set of file descriptors that are open before
  and after, and the text that appears.
\<close>

section \<open>States in which the tests run\<close>

definition syserr_texts :: "string list" where
  "syserr_texts = map (\<lambda>name. name @ '': PASS'' @ [CHR 0x0A])
       [''err_neg_fd'', ''err_big_fd'', ''err_open_lots'', ''err_open'', ''err_unopened'', ''err_vidmap'',
        ''err_stdin_out'', ''err_syscall_num'']
     @ [[CHR 0x0A] @ ''Overall Tests: PASS'' @ [CHR 0x0A]]"

definition syserr_names :: "string list" where
  "syserr_names = [''helloo'', ''shel'', []]"

text \<open>The literals are in the program's memory, the directory has an entry for itself and none for the
  three names that the tests open, and exactly the descriptors of \<open>F\<close> are open.\<close>

definition syserr_ready :: "nat \<Rightarrow> (string \<Rightarrow> u32) \<Rightarrow> int set \<Rightarrow> 'a process_scheme \<Rightarrow> bool" where
  "syserr_ready sz str F s \<longleftrightarrow> user_process s sz
     \<and> (\<forall>t \<in> set (''.'' # syserr_names @ syserr_texts). literal s (str t) t)
     \<and> (\<exists>entry. find_file (mem s) (filesys_addr s) [46] = Some entry \<and> file_type entry = 1)
     \<and> (\<forall>t \<in> set syserr_names. find_file (mem s) (filesys_addr s) (map of_char t) = None)
     \<and> (\<forall>fd \<in> set all_fds. flags (file_array (pcbs s (current_pcb s)) fd) \<noteq> 0 \<longleftrightarrow> fd \<in> F)"

lemma syserr_ready_step:
  assumes ready: "syserr_ready sz str F s" and env: "user_env s'" "frame s' = frame s" "filesys_addr s' = filesys_addr s"
    and files: "files_ok (pcbs s' (current_pcb s'))"
      "\<And>fd. fd \<in> set all_fds \<Longrightarrow> flags (file_array (pcbs s' (current_pcb s')) fd) \<noteq> 0 \<longleftrightarrow> fd \<in> F'"
    and m: "\<And>a. kernel_area s a \<or> mem s' a = mem s a"
  shows "syserr_ready sz str F' s'"
proof -
  have P: "user_process s sz" using ready by (simp add: syserr_ready_def)
  have "scratch_area s a \<or> mem s' a = mem s a" for a using m [of a] by (auto simp: scratch_area_def)
  note step = user_process_step [OF P env files(1) this]
  have "literal s' a t" if "literal s a t" for a t
    using m user_not_kernel [OF user_process_env [OF P]] by (intro literal_same [OF that]) blast
  then show ?thesis
    using ready step files(2) by (simp add: syserr_ready_def env(3))
qed

section \<open>Triples\<close>

definition passes :: "nat \<Rightarrow> (string \<Rightarrow> u32) \<Rightarrow> int set \<Rightarrow> ('a process_scheme, 'r) program \<Rightarrow> 'r \<Rightarrow> u8 list \<Rightarrow> int set \<Rightarrow> bool" where
  "passes sz str F p r cs F' \<longleftrightarrow> (\<forall>s interrupts. syserr_ready sz str F s \<longrightarrow>
     (\<exists>s'. p (s, interrupts) = Some (r, (s', interrupts)) \<and> syserr_ready sz str F' s'
       \<and> user_term s' = fold spec_putc cs (user_term s)))"

lemma passes_gives: "passes sz str F (gives r) r [] F"
  by (simp add: passes_def gives_def)

lemma passes_seq:
  fixes p :: "('a process_scheme, 'r) program"
  assumes p: "passes sz str F p r xs F1" and k: "passes sz str F1 (k r) t ys F2"
  shows "passes sz str F (seq p k) t (xs @ ys) F2"
  unfolding passes_def
proof (intro allI impI)
  fix s :: "'a process_scheme" and interrupts
  assume "syserr_ready sz str F s"
  then obtain s1 where s1: "p (s, interrupts) = Some (r, (s1, interrupts))" "syserr_ready sz str F1 s1"
    "user_term s1 = fold spec_putc xs (user_term s)"
    using p unfolding passes_def by blast
  obtain s2 where "k r (s1, interrupts) = Some (t, (s2, interrupts))" "syserr_ready sz str F2 s2"
    "user_term s2 = fold spec_putc ys (user_term s1)"
    using k s1(2) unfolding passes_def by blast
  with s1 show "\<exists>s'. seq p k (s, interrupts) = Some (t, (s', interrupts)) \<and> syserr_ready sz str F2 s'
      \<and> user_term s' = fold spec_putc (xs @ ys) (user_term s)"
    by (intro exI [of _ s2]) (simp add: seq_Some)
qed

lemma passes_silent:
  "passes sz str F p r [] F1 \<Longrightarrow> passes sz str F1 (k r) t cs F2 \<Longrightarrow> passes sz str F (seq p k) t cs F2"
  using passes_seq [where xs = "[]"] by simp

text \<open>A call that is refused at once.\<close>

lemma passes_refused:
  "(\<And>s interrupts. syserr_ready sz str F s \<Longrightarrow> p (s, interrupts) = Some (-1, (s, interrupts))) \<Longrightarrow> passes sz str F p (-1) [] F"
  by (simp add: passes_def)

lemma passes_must_fail: "passes sz str F call (-1) [] F \<Longrightarrow> passes sz str F (must_fail str call msg fail) fail [] F"
  unfolding must_fail_def by (rule passes_silent, assumption) (simp add: passes_gives)

text \<open>Printing one of the messages.\<close>

lemma syserr_text_length: "t \<in> set syserr_texts \<Longrightarrow> length t < 2047"
  unfolding syserr_texts_def by auto

lemma passes_puts:
  assumes t: "t \<in> set syserr_texts"
  shows "passes sz str F (ece391_fdputs 1 (str t)) () (map of_char t) F"
  unfolding passes_def
proof (intro allI impI)
  fix s :: "'a process_scheme" and interrupts
  assume ready: "syserr_ready sz str F s"
  then have lit: "literal s (str t) t" and P: "user_process s sz" using t by (simp_all add: syserr_ready_def)
  have "user_area (str t) (length (map of_char t))"
    using lit user_area_part [of "str t" "Suc (length t)" 0 "length t"] by (simp add: literal_def)
  then obtain s' where s': "ece391_fdputs 1 (str t) (s, interrupts) = Some ((), (s', interrupts))" "shows_text (map of_char t) s s'"
    using lit syserr_text_length [OF t] by (auto simp: literal_def intro: ece391_fdputs_shows [OF user_process_env [OF P], of "str t" "map of_char t" interrupts])
  have b: "behind s s'" "user_env s'" "frame s' = frame s" "\<And>a. kernel_area s a \<or> mem s' a = mem s a"
    using s'(2) by (auto simp: shows_text_def)
  note fields = behind_fields [OF b(1)]
  have "flags (file_array (pcbs s' (current_pcb s')) fd) \<noteq> 0 \<longleftrightarrow> fd \<in> F" if "fd \<in> set all_fds" for fd
    using ready that unfolding fields syserr_ready_def by blast
  moreover have "files_ok (pcbs s' (current_pcb s'))" using P by (simp add: user_process_def fields)
  ultimately have "syserr_ready sz str F s'" using b by (intro syserr_ready_step [OF ready b(2,3) fields(1)])
  then show "\<exists>s'. ece391_fdputs 1 (str t) (s, interrupts) = Some ((), s', interrupts) \<and> syserr_ready sz str F s'
      \<and> user_term s' = fold spec_putc (map of_char t) (user_term s)"
    using s' by (auto simp: shows_text_def)
qed

lemma passes_verdict:
  "name @ '': PASS'' @ [CHR 0x0A] \<in> set syserr_texts \<Longrightarrow>
   passes sz str F (verdict str name 0) 0 (map of_char (name @ '': PASS'' @ [CHR 0x0A])) F"
  unfolding verdict_def using passes_seq [OF passes_puts passes_gives] by fastforce

section \<open>Calls that are refused\<close>

lemma passes_bad_fd:
  assumes "fd < 0 \<or> 8 \<le> fd" "- 2147483648 \<le> fd" "fd < 2147483648"
  shows "passes sz str F (ece391_read fd buf 31) (-1) [] F" "passes sz str F (ece391_write fd buf 31) (-1) [] F"
    "passes sz str F (ece391_close fd) (-1) [] F"
  using assms sint_of_int_u32 [OF assms(2,3)]
  by (auto intro!: passes_refused simp: ece391_read_def ece391_write_def ece391_close_def do_call_def
      system_calls_assembly_def back_outcome_def iret_def sys_read_def sys_write_def sys_close_def Let_def cli_def sti_def)

lemma fd_of_intr: "fd_of (s\<lparr>intr := i\<rparr>) (current_pcb (s\<lparr>intr := i\<rparr>)) fd = fd_of s (current_pcb s) fd"
  by (simp add: fd_of_def current_pcb_def)

lemma syserr_closed:
  "syserr_ready sz str F s \<Longrightarrow> fd \<in> set all_fds \<Longrightarrow> fd \<notin> F \<Longrightarrow> flags (fd_of s (current_pcb s) fd) = 0"
  unfolding syserr_ready_def fd_of_def by blast

lemma passes_refused_fd:
  "(\<And>s interrupts. flags (fd_of s (current_pcb s) fd) = 0 \<Longrightarrow> p (s, interrupts) = Some (-1, (s, interrupts))) \<Longrightarrow>
   fd \<in> set all_fds \<Longrightarrow> fd \<notin> F \<Longrightarrow> passes sz str F p (-1) [] F"
  by (rule passes_refused) (blast dest: syserr_closed)

lemma passes_unopened:
  assumes fd: "fd \<in> {2, 3, 4, 5, 6, 7}" "fd \<notin> F"
  shows "passes sz str F (ece391_read fd buf 31) (-1) [] F" "passes sz str F (ece391_write fd buf 31) (-1) [] F"
    "passes sz str F (ece391_close fd) (-1) [] F"
proof -
  have sint: "sint (of_int fd :: u32) = fd" using fd by (intro sint_of_int_u32) auto
  have fd_in: "fd \<in> set all_fds" using fd by auto
  show "passes sz str F (ece391_read fd buf 31) (-1) [] F"
    by (rule passes_refused_fd [OF _ fd_in fd(2)])
      (simp add: sint ece391_read_def do_call_def system_calls_assembly_def iret_def sys_read_def Let_def)
  show "passes sz str F (ece391_close fd) (-1) [] F"
    by (rule passes_refused_fd [OF _ fd_in fd(2)])
      (simp add: sint ece391_close_def do_call_def system_calls_assembly_def back_outcome_def iret_def sys_close_def Let_def)
  show "passes sz str F (ece391_write fd buf 31) (-1) [] F"
    by (rule passes_refused_fd [OF _ fd_in fd(2)])
      (simp add: sint fd_of_intr ece391_write_def do_call_def system_calls_assembly_def back_outcome_def iret_def
        sys_write_def Let_def cli_def sti_def)
qed

lemma passes_close_std: "fd \<in> {0, 1} \<Longrightarrow> passes sz str F (ece391_close fd) (-1) [] F"
  by (rule passes_refused)
    (auto simp: ece391_close_def do_call_def system_calls_assembly_def back_outcome_def iret_def sys_close_def Let_def)

lemma passes_stdin_out:
  "passes sz str F (ece391_write 0 buf 31) (-1) [] F" "passes sz str F (ece391_read 1 buf 31) (-1) [] F"
  by (auto intro!: passes_refused simp: ece391_read_def ece391_write_def do_call_def system_calls_assembly_def
      back_outcome_def iret_def sys_read_def sys_write_def Let_def cli_def sti_def)

lemma passes_vidmap:
  "passes sz str F (ece391_vidmap 0) (-1) [] F" "passes sz str F (ece391_vidmap 0x400000) (-1) [] F"
  by (auto intro!: passes_refused simp: ece391_vidmap_def do_call_def system_calls_assembly_def back_outcome_def
      iret_def vidmap_def Let_def cli_def)

lemma passes_bad_number:
  "sint num < 1 \<or> 10 < sint num \<Longrightarrow> passes sz str F (call_sys regs num) (-1) [] F"
  by (rule passes_refused) (simp add: call_sys_def do_call_def system_calls_assembly_def)

section \<open>open and close\<close>

lemma syserr_ready_lookup:
  assumes "syserr_ready sz str F s" and "t \<in> set (''.'' # syserr_names)"
  shows "str t \<noteq> 0" "str_prefix (mem s) (str t) 32 = map of_char t"
proof -
  have lit: "literal s (str t) t" using assms by (auto simp: syserr_ready_def)
  then show "str t \<noteq> 0" by (simp add: literal_def)
  have "length t \<le> 32" using assms(2) by (auto simp: syserr_names_def)
  then show "str_prefix (mem s) (str t) 32 = map of_char t"
    using lit by (intro str_at_prefix) (simp_all add: literal_def)
qed

text \<open>The three names are not found.\<close>

lemma passes_open_missing:
  assumes t: "t \<in> set syserr_names"
  shows "passes sz str F (ece391_open (str t)) (-1) [] F"
proof (rule passes_refused)
  fix s :: "'a process_scheme" and interrupts
  assume ready: "syserr_ready sz str F s"
  note name = syserr_ready_lookup [OF ready, of t]
  have lay: "sz \<le> 4294967296" "disjoint_regions (frame s) 128 (filesys_addr s) sz" "frame s \<noteq> 0"
    "0 \<le> load_int (mem s) (filesys_addr s)" "entries_in_image (filesys_addr s) sz (nat (load_int (mem s) (filesys_addr s)))"
    using ready by (simp_all add: syserr_ready_def user_process_def exec_layout_def directory_ok_def)
  have "disjoint_regions (frame s) 64 (filesys_addr s) sz" using disjoint_regions_part [OF lay(2), of 0 64] by simp
  moreover have "find_file (mem s) (filesys_addr s) (str_prefix (mem s) (str t) 32) = None"
    using ready t name(2) by (simp add: syserr_ready_def)
  ultimately have "read_dentry_by_name (filesys_addr s) (str t) (frame s) (mem s) = (- 1, mem s)"
    using read_dentry_by_name_file [OF _ lay(3-5,1), of "str t"] name(1) t by simp
  then have "sys_open (str t) s = Done (- 1, s)" by (simp add: sys_open_def Let_def)
  then show "ece391_open (str t) (s, interrupts) = Some (- 1, (s, interrupts))"
    by (simp add: ece391_open_def do_call_def system_calls_assembly_def back_outcome_def iret_def)
qed

text \<open>Opening the directory when the first \<open>k\<close> descriptors are in use.\<close>

lemma syserr_ready_size:
  assumes "syserr_ready sz str F s"
  shows "file_arr_size (pcbs s (current_pcb s)) = int (length (filter (\<lambda>fd. fd \<in> F) all_fds))"
proof -
  have "filter (\<lambda>fd. flags (file_array (pcbs s (current_pcb s)) fd) \<noteq> 0) all_fds = filter (\<lambda>fd. fd \<in> F) all_fds"
    using assms unfolding syserr_ready_def by (intro filter_cong refl) blast
  moreover have "files_ok (pcbs s (current_pcb s))" using assms by (simp add: syserr_ready_def user_process_def)
  ultimately show ?thesis by (simp only: files_ok_size)
qed

lemma passes_open_dir:
  assumes k: "2 \<le> k" "k < 8"
  shows "passes sz str {0..<k} (ece391_open (str ''.'')) k [] {0..<k + 1}"
  unfolding passes_def
proof (intro allI impI)
  fix s :: "'a process_scheme" and interrupts
  let ?b = "pcbs s (current_pcb s)"
  assume ready: "syserr_ready sz str {0..<k} s"
  then have P: "user_process s sz" by (simp add: syserr_ready_def)
  have ok: "files_ok ?b" using P by (simp add: user_process_def)
  have open_iff: "flags (file_array ?b fd) \<noteq> 0 \<longleftrightarrow> fd \<in> {0..<k}" if "fd \<in> set all_fds" for fd
    using ready that unfolding syserr_ready_def by blast
  have "k \<in> {2, 3, 4, 5, 6, 7}" using k by auto
  then have room: "file_arr_size ?b < 8" using syserr_ready_size [OF ready] by auto
  note name = syserr_ready_lookup [OF ready, of "''.''"]
  obtain entry where entry: "find_file (mem s) (filesys_addr s) (str_prefix (mem s) (str ''.'') 32) = Some entry" "file_type entry = 1"
    using ready name(2) by (auto simp: syserr_ready_def of_char_def)
  define fd where "fd = find_fd (file_array ?b) 2 6"
  note free = find_fd_free [OF ok room, folded fd_def]
  obtain s' where s': "ece391_open (str ''.'') (s, interrupts) = Some (fd, (s', interrupts))" "opened entry fd s s'"
    unfolding fd_def
    by (rule ece391_open_opens [OF _ _ _ _ entry(1) _ ok room, of sz interrupts])
      (use P name(1) entry(2) in \<open>simp_all add: user_process_def\<close>)
  note o = opened_env [OF s'(2) user_process_env [OF P] free(1)]
  have fd_in: "fd \<in> set all_fds" using free(1,2) by auto
  have fd: "fd = k"
  proof (rule ccontr)
    assume "fd \<noteq> k"
    moreover have "fd \<notin> {0..<k}" using open_iff [OF fd_in] free(3) by simp
    ultimately have "k < fd" using free(1) by auto
    then have "flags (file_array ?b k) \<noteq> 0" using free(4) [of k] k by simp
    moreover have "k \<in> set all_fds" using k by auto
    ultimately show False using open_iff [of k] by simp
  qed
  have b: "pcbs s' (current_pcb s') = add_file entry fd ?b" using o(5,8) by simp
  have "files_ok (pcbs s' (current_pcb s'))"
    unfolding b by (rule files_ok_add [OF ok _ fd_in free(3)]) (simp add: entry(2))
  moreover have "flags (file_array (pcbs s' (current_pcb s')) j) \<noteq> 0 \<longleftrightarrow> j \<in> {0..<k + 1}" if "j \<in> set all_fds" for j
    unfolding b using open_iff [OF that] k by (auto simp: add_file_def fd fd_setup_def entry(2))
  moreover have "kernel_area s a \<or> mem s' a = mem s a" for a
    using o(6) [of a] by (auto simp: kernel_area_def in_region_def)
  ultimately have "syserr_ready sz str {0..<k + 1} s'" by (intro syserr_ready_step [OF ready o(1,3,4)])
  then show "\<exists>s'. ece391_open (str ''.'') (s, interrupts) = Some (k, s', interrupts) \<and> syserr_ready sz str {0..<k + 1} s'
      \<and> user_term s' = fold spec_putc [] (user_term s)"
    using s'(1) o(2) fd by auto
qed

text \<open>The seventh \<open>open\<close> fails, and so do all when eight files are open.\<close>

lemma passes_open_full: "passes sz str {0..<8} (ece391_open (str ''.'')) (-1) [] {0..<8}"
  unfolding passes_def
proof (intro allI impI)
  fix s :: "'a process_scheme" and interrupts
  assume ready: "syserr_ready sz str {0..<8} s"
  then have P: "user_process s sz" by (simp add: syserr_ready_def)
  have full: "file_arr_size (pcbs s (current_pcb s)) = 8" using syserr_ready_size [OF ready] by simp
  note name = syserr_ready_lookup [OF ready, of "''.''"]
  have lay: "sz \<le> 4294967296" "disjoint_regions (frame s) 128 (filesys_addr s) sz" "frame s \<noteq> 0"
    "0 \<le> load_int (mem s) (filesys_addr s)" "entries_in_image (filesys_addr s) sz (nat (load_int (mem s) (filesys_addr s)))"
    using P by (simp_all add: user_process_def exec_layout_def directory_ok_def)
  have "disjoint_regions (frame s) 64 (filesys_addr s) sz" using disjoint_regions_part [OF lay(2), of 0 64] by simp
  moreover obtain entry where "find_file (mem s) (filesys_addr s) (str_prefix (mem s) (str ''.'') 32) = Some entry"
    using ready name(2) by (auto simp: syserr_ready_def of_char_def)
  ultimately obtain q where "read_dentry_by_name (filesys_addr s) (str ''.'') (frame s) (mem s) = (0, copy (mem s) (frame s) q 64)"
    using read_dentry_by_name_file [OF _ lay(3-5,1), of "str ''.''"] name(1) by auto
  then have run: "sys_open (str ''.'') s = Done (- 1, s\<lparr>mem := copy (mem s) (frame s) q 64\<rparr>)"
    using full by (simp add: sys_open_def Let_def)
  define s' where "s' = s\<lparr>mem := copy (mem s) (frame s) q 64\<rparr>"
  have "s'\<lparr>intr := intr s\<rparr> = s'" by (simp add: s'_def)
  then have call: "ece391_open (str ''.'') (s, interrupts) = Some (- 1, (s', interrupts))"
    using run by (simp add: ece391_open_def do_call_def system_calls_assembly_def back_outcome_def iret_def s'_def)
  have m: "in_region a (frame s) 64 \<or> mem s' a = mem s a" for a by (simp add: s'_def copy_def)
  then have m': "in_region a (frame s) 64 \<or> in_region a PROG_PAGE 0x400000 \<or> mem s' a = mem s a" for a by blast
  have upd: "s\<lparr>mem := mem s', dir_index := dir_index s\<rparr> = s'" by (simp add: s'_def)
  note same = user_same [OF user_process_env [OF P] m', of "dir_index s", unfolded upd]
  have b: "pcbs s' = pcbs s" "current_pcb s' = current_pcb s" "frame s' = frame s" "filesys_addr s' = filesys_addr s"
    by (simp_all add: s'_def current_pcb_def)
  have "files_ok (pcbs s' (current_pcb s'))" using P by (simp add: b user_process_def)
  moreover have "flags (file_array (pcbs s' (current_pcb s')) j) \<noteq> 0 \<longleftrightarrow> j \<in> {0..<8}" if "j \<in> set all_fds" for j
    using ready that unfolding b syserr_ready_def by blast
  moreover have "kernel_area s a \<or> mem s' a = mem s a" for a
    using m [of a] by (auto simp: kernel_area_def in_region_def)
  ultimately have "syserr_ready sz str {0..<8} s'" by (intro syserr_ready_step [OF ready same(2) b(3,4)])
  then show "\<exists>s'. ece391_open (str ''.'') (s, interrupts) = Some (- 1, s', interrupts) \<and> syserr_ready sz str {0..<8} s'
      \<and> user_term s' = fold spec_putc [] (user_term s)"
    using call same(1) by auto
qed

lemma passes_close_open:
  assumes fd: "fd \<in> {2, 3, 4, 5, 6, 7}" "fd \<in> F"
  shows "passes sz str F (ece391_close fd) 0 [] (F - {fd})"
  unfolding passes_def
proof (intro allI impI)
  fix s :: "'a process_scheme" and interrupts
  assume ready: "syserr_ready sz str F s"
  then have P: "user_process s sz" by (simp add: syserr_ready_def)
  have sint: "sint (of_int fd :: u32) = fd" using fd by (intro sint_of_int_u32) auto
  have range: "2 \<le> fd" "fd < 8" "fd \<in> set all_fds" using fd(1) by auto
  have flag: "flags (file_array (pcbs s (current_pcb s)) fd) \<noteq> 0"
    using ready range(3) fd(2) unfolding syserr_ready_def by blast
  define s' where "s' = s\<lparr>pcbs := (pcbs s)(current_pcb s := remove_file fd (pcbs s (current_pcb s)))\<rparr>"
  have "sys_close fd s = (0, s')"
    using range flag by (simp add: sys_close_def Let_def update_fd_def update_pcb_def fd_of_def remove_file_def s'_def)
  moreover have "s'\<lparr>intr := intr s\<rparr> = s'" by (simp add: s'_def)
  ultimately have call: "ece391_close fd (s, interrupts) = Some (0, (s', interrupts))"
    using sint by (simp add: ece391_close_def do_call_def system_calls_assembly_def back_outcome_def iret_def)
  have b: "pcbs s' (current_pcb s') = remove_file fd (pcbs s (current_pcb s))" "mem s' = mem s" "frame s' = frame s"
    "filesys_addr s' = filesys_addr s"
    by (simp_all add: s'_def current_pcb_def)
  have env: "user_env s'"
    using user_process_env [OF P] range
    by (simp add: s'_def user_env_def stdout_open_def fd_of_def cursor_ok_def current_pcb_def remove_file_def)
  have "files_ok (pcbs s' (current_pcb s'))"
    unfolding b using P range flag by (intro files_ok_remove) (simp_all add: user_process_def)
  moreover have "flags (file_array (pcbs s' (current_pcb s')) j) \<noteq> 0 \<longleftrightarrow> j \<in> F - {fd}" if "j \<in> set all_fds" for j
    using ready that unfolding b syserr_ready_def remove_file_def by (cases "j = fd") (simp, fastforce)
  ultimately have "syserr_ready sz str (F - {fd}) s'" by (intro syserr_ready_step [OF ready env b(3,4)]) (simp_all add: b)
  moreover have "user_term s' = user_term s" by (rule user_term_cong) (simp_all add: s'_def)
  ultimately show "\<exists>s'. ece391_close fd (s, interrupts) = Some (0, s', interrupts) \<and> syserr_ready sz str (F - {fd}) s'
      \<and> user_term s' = fold spec_putc [] (user_term s)"
    using call by auto
qed

section \<open>Loops\<close>

lemma passes_for_each:
  "(\<And>i. i \<in> set is \<Longrightarrow> passes sz str F (body i acc) acc [] F) \<Longrightarrow> passes sz str F (for_each is body acc) acc [] F"
  by (induction "is") (auto intro: passes_gives passes_silent)

lemma passes_open_lots:
  "2 \<le> k \<Longrightarrow> k \<le> 8 \<Longrightarrow> passes sz str {0..<k}
     (for_each is (\<lambda>_ cnt. seq (ece391_open (str ''.'')) (\<lambda>r. gives (if r = -1 then cnt + 1 else cnt))) cnt)
     (cnt + max 0 (k + int (length is) - 8)) [] {0..<min 8 (k + int (length is))}"
proof (induction "is" arbitrary: k cnt)
  case Nil
  then have "max 0 (k - 8) = 0" "min 8 k = k" by simp_all
  then show ?case by (simp add: passes_gives)
next
  case (Cons i "is")
  show ?case
  proof (cases "k < 8")
    case True
    have "passes sz str {0..<k} (seq (ece391_open (str ''.'')) (\<lambda>r. gives (if r = -1 then cnt + 1 else cnt))) cnt [] {0..<k + 1}"
      by (rule passes_silent [OF passes_open_dir]) (use Cons.prems True passes_gives in auto)
    then show ?thesis using Cons.IH [of "k + 1" cnt] Cons.prems True
      by (simp add: add.assoc) (rule passes_silent)
  next
    case False
    then have k: "k = 8" using Cons.prems by simp
    have "passes sz str {0..<8} (seq (ece391_open (str ''.'')) (\<lambda>r. gives (if r = -1 then cnt + 1 else cnt))) (cnt + 1) [] {0..<8}"
      by (rule passes_silent [OF passes_open_full]) (use passes_gives in auto)
    then show ?thesis using Cons.IH [of 8 "cnt + 1"] 
      by (simp add: k add.assoc) (rule passes_silent)
  qed
qed

lemma passes_close_lots:
  "distinct is \<Longrightarrow> set is \<subseteq> {2, 3, 4, 5, 6, 7} \<Longrightarrow> {0, 1} \<inter> set is = {} \<Longrightarrow>
   passes sz str ({0, 1} \<union> set is) (for_each is (\<lambda>i _. ece391_close i) 0) 0 [] {0, 1}"
proof (induction "is")
  case Nil
  then show ?case by (simp add: passes_gives)
next
  case (Cons i "is")
  have "{0, 1} \<union> set (i # is) - {i} = {0, 1} \<union> set is" using Cons.prems by auto
  then have "passes sz str ({0, 1} \<union> set (i # is)) (ece391_close i) 0 [] ({0, 1} \<union> set is)"
    using passes_close_open [of i "{0, 1} \<union> set (i # is)" sz str] Cons.prems by simp
  then show ?case unfolding for_each.simps using Cons by (intro passes_silent) auto
qed

section \<open>The tests\<close>

definition pass_text :: "string \<Rightarrow> u8 list" where
  "pass_text name = map of_char (name @ '': PASS'' @ [CHR 0x0A])"

lemmas passes_calls = passes_silent [OF passes_must_fail]

lemma passes_err_neg_fd: "passes sz str F (err_neg_fd str buf) 0 (pass_text ''err_neg_fd'') F"
  unfolding err_neg_fd_def pass_text_def
  by (intro passes_calls passes_bad_fd passes_verdict) (simp_all add: syserr_texts_def)

lemma passes_err_big_fd: "passes sz str F (err_big_fd str buf) 0 (pass_text ''err_big_fd'') F"
  unfolding err_big_fd_def pass_text_def
  by (intro passes_calls passes_bad_fd passes_verdict) (simp_all add: syserr_texts_def)

lemma passes_err_open_lots: "passes sz str {0, 1} (err_open_lots str) 0 (pass_text ''err_open_lots'') {0, 1}"
proof -
  have two: "{0, 1} = {0..<2::int}" by auto
  have eight: "{0..<8::int} = {0, 1} \<union> set [2, 3, 4, 5, 6, 7]" by auto
  have opens: "passes sz str {0, 1} (for_each [0, 1, 2, 3, 4, 5, 6]
      (\<lambda>_ cnt. seq (ece391_open (str ''.'')) (\<lambda>r. gives (if r = -1 then cnt + 1 else cnt))) 0) 1 [] ({0, 1} \<union> set [2, 3, 4, 5, 6, 7])"
    unfolding eight [symmetric] unfolding two using passes_open_lots [of 2 sz str "[0, 1, 2, 3, 4, 5, 6]" 0] by simp
  have closes: "passes sz str ({0, 1} \<union> set [2, 3, 4, 5, 6, 7]) (for_each [2, 3, 4, 5, 6, 7] (\<lambda>i _. ece391_close i) 0) 0 [] {0, 1}"
    by (rule passes_close_lots) auto
  have "''err_open_lots: PASS'' @ [CHR 0x0A] \<in> set syserr_texts" by (simp add: syserr_texts_def)
  note report = passes_seq [OF passes_puts [OF this] passes_gives [of sz str "{0, 1}" 0], unfolded append_Nil2]
  show ?thesis
    unfolding err_open_lots_def pass_text_def
    by (rule passes_silent [OF opens], rule passes_silent [OF closes]) (use report in simp)
qed

lemma passes_err_open: "passes sz str F (err_open str) 0 (pass_text ''err_open'') F"
  unfolding err_open_def pass_text_def
  by (intro passes_calls passes_open_missing passes_verdict) (simp_all add: syserr_texts_def syserr_names_def)

lemma passes_err_unopened: "passes sz str {0, 1} (err_unopened str buf) 0 (pass_text ''err_unopened'') {0, 1}"
  unfolding err_unopened_def
proof (rule passes_silent [OF passes_for_each])
  show "passes sz str {0, 1} (must_fail str (ece391_close i) ''close unopened or invalid fd fail'' 0) 0 [] {0, 1}"
    if "i \<in> set [0, 1, 2, 3, 4, 5, 6, 7]" for i
    using that by (cases "i \<in> {0, 1}") (auto intro!: passes_must_fail intro: passes_close_std passes_unopened)
  have "passes sz str {0, 1} (must_fail str (ece391_read i buf 31) ''read from unopened fd fail'' 0) 0 [] {0, 1}"
    "passes sz str {0, 1} (must_fail str (ece391_write i buf 31) ''write to unopened fd fail'' 0) 0 [] {0, 1}"
    if "i \<in> set [2, 3, 4, 5, 6, 7]" for i
    using that by (auto intro!: passes_must_fail intro: passes_unopened)
  then show "passes sz str {0, 1} (seq (for_each [2, 3, 4, 5, 6, 7] (\<lambda>i. must_fail str (ece391_read i buf 31) ''read from unopened fd fail'') 0)
      (\<lambda>fail. seq (for_each [2, 3, 4, 5, 6, 7] (\<lambda>i. must_fail str (ece391_write i buf 31) ''write to unopened fd fail'') fail)
         (verdict str ''err_unopened''))) 0 (pass_text ''err_unopened'') {0, 1}"
    unfolding pass_text_def
    by (intro passes_silent [OF passes_for_each] passes_verdict) (simp_all add: syserr_texts_def)
qed

lemma passes_err_vidmap: "passes sz str F (err_vidmap str) 0 (pass_text ''err_vidmap'') F"
  unfolding err_vidmap_def pass_text_def
  by (intro passes_calls passes_vidmap passes_verdict) (simp_all add: syserr_texts_def)

lemma passes_err_stdin_out: "passes sz str F (err_stdin_out str buf) 0 (pass_text ''err_stdin_out'') F"
  unfolding err_stdin_out_def pass_text_def
  by (intro passes_calls passes_stdin_out passes_verdict) (simp_all add: syserr_texts_def)

lemma passes_err_syscall_num: "passes sz str F (err_syscall_num str regs) 0 (pass_text ''err_syscall_num'') F"
  unfolding err_syscall_num_def pass_text_def
  by (intro passes_calls passes_bad_number passes_verdict) (simp_all add: syserr_texts_def)

text \<open>C9. The error tests of the system calls pass: in every state of the process with only the standard
  files open and a directory that lacks the three names, all eight tests succeed one after the
  other, \<open>main\<close> reports \<open>PASS\<close> for each and for all, and returns 0; afterwards again only the
  standard files are open. So the kernel refuses bad, closed and standard descriptors, unknown
  names, an eighth open file besides the standard ones, bad pointers and bad call numbers.\<close>

theorem syserr_passes:
  assumes "syserr_ready sz str {0, 1} s"
  shows "\<exists>s'. run_tests str buf regs 0 (s, interrupts) = Some (0, (s', interrupts)) \<and> syserr_ready sz str {0, 1} s'
    \<and> user_term s' = fold spec_putc (concat (map (map of_char) syserr_texts)) (user_term s)"
proof -
  have "[CHR 0x0A] @ ''Overall Tests: PASS'' @ [CHR 0x0A] \<in> set syserr_texts" by (simp add: syserr_texts_def)
  note report = passes_seq [OF passes_puts [OF this] passes_gives [of sz str "{0, 1}" 0]]
  note tests = passes_err_neg_fd [THEN passes_seq] passes_err_big_fd [THEN passes_seq]
    passes_err_open_lots [THEN passes_seq] passes_err_open [THEN passes_seq] passes_err_unopened [THEN passes_seq]
    passes_err_vidmap [THEN passes_seq] passes_err_stdin_out [THEN passes_seq] passes_err_syscall_num [THEN passes_seq]
  have "passes sz str {0, 1} (run_tests str buf regs 0) 0 (concat (map pass_text
      [''err_neg_fd'', ''err_big_fd'', ''err_open_lots'', ''err_open'', ''err_unopened'', ''err_vidmap'',
        ''err_stdin_out'', ''err_syscall_num'']) @ map of_char ([CHR 0x0A] @ ''Overall Tests: PASS'' @ [CHR 0x0A]) @ []) {0, 1}"
    unfolding run_tests_def if_P [OF refl] list.map concat.simps append_Nil append_assoc Let_def
    by (rule tests)+ (use report in simp)
  moreover have "concat (map pass_text
      [''err_neg_fd'', ''err_big_fd'', ''err_open_lots'', ''err_open'', ''err_unopened'', ''err_vidmap'',
        ''err_stdin_out'', ''err_syscall_num'']) @ map of_char ([CHR 0x0A] @ ''Overall Tests: PASS'' @ [CHR 0x0A]) @ []
      = concat (map (map of_char) syserr_texts)"
    by (simp add: syserr_texts_def pass_text_def)
  ultimately have "passes sz str {0, 1} (run_tests str buf regs 0) 0 (concat (map (map of_char) syserr_texts)) {0, 1}"
    by (simp only:)
  then show ?thesis using assms unfolding passes_def by blast
qed

section \<open>A state for the example\<close>

definition syserr_all :: "string list" where
  "syserr_all = ''.'' # syserr_names @ syserr_texts"

lemma syserr_chars: "t \<in> set syserr_all \<Longrightarrow> length t < 63 \<and> 0 \<notin> set (map of_char t :: u8 list)"
  unfolding syserr_all_def syserr_names_def syserr_texts_def by auto

definition sample_syserr :: process where
  "sample_syserr = with_texts syserr_all sample_user"

lemma sample_syserr_ready: "syserr_ready 0x3000 (text_at syserr_all) {0, 1} sample_syserr"
proof -
  note step = with_texts_process [OF sample_user_process, of syserr_all, folded sample_syserr_def]
  have "length syserr_all \<le> 64" by (simp add: syserr_all_def syserr_names_def syserr_texts_def)
  then have lit: "\<forall>t \<in> set (''.'' # syserr_names @ syserr_texts). literal sample_syserr (text_at syserr_all t) t"
    using with_texts_literal syserr_chars unfolding sample_syserr_def syserr_all_def by blast
  have missing: "\<forall>t \<in> set syserr_names. find_file user_image 0x10000 (map of_char t) = None"
    by (simp add: syserr_names_def find_file_def load_int_def user_image_loads user_image_names of_char_def upt_rec)
  have files: "\<forall>fd \<in> set all_fds. flags (file_array (pcbs sample_syserr (current_pcb sample_syserr)) fd) \<noteq> 0 \<longleftrightarrow> fd \<in> {0, 1}"
    by (simp add: step(3,4)) (simp add: sample_pcb_def sample_fd_def)
  show ?thesis
    unfolding syserr_ready_def
  proof (intro conjI)
    show "\<exists>entry. find_file (mem sample_syserr) (filesys_addr sample_syserr) [46] = Some entry \<and> file_type entry = 1"
      using step(2) user_image_files by (simp add: step(3))
    show "\<forall>t \<in> set syserr_names. find_file (mem sample_syserr) (filesys_addr sample_syserr) (map of_char t) = None"
      using step(2) missing by (simp add: step(3))
  qed (use step(1) lit files in simp_all)
qed

theorem syserr_passes_witness:
  "\<exists>s'. run_tests (text_at syserr_all) 0x08051000 (0, 0, 0) 0 (sample_syserr, []) = Some (0, (s', []))
    \<and> user_term s' = fold spec_putc (concat (map (map of_char) syserr_texts)) (user_term sample_syserr)"
  using syserr_passes [OF sample_syserr_ready, of "0x08051000" "(0, 0, 0)" "[]"] by blast

end
