(* ===== verification/Spec2Isabelle.thy ===== *)
theory Spec2Isabelle
  imports Lib_Mem Lib_String Console_Laws Filesys_Laws Keyboard_Laws Scheduler_Laws Boot_Entry
    Boot_Shells Cat_Laws Syserr_Laws
begin

text \<open>
  A verification development for the kernel in \<open>student-distrib\<close> and the user programs in
  \<open>syscalls\<close> that run on it.

  The kernel runs on one 32-bit x86 processor: it boots from a boot loader, shows three text
  terminals, runs up to six processes on them in a round robin, and serves ten system calls over a
  read-only file system that the boot loader has put into memory.

  \<^bold>\<open>The state.\<close> One record grows along the imports, each theory adding the variables of the file
  that it models, and the operations are polymorphic in what comes later:
  \<^item> \<open>Machine\<close>: \<open>machine\<close>, the memory (a function from 32-bit addresses to bytes), the ports
    with their input, the interrupt flag, the frame of the C function that runs; \<open>lib.h\<close>;
  \<^item> \<open>Console\<close>: \<open>console\<close>, the cursors and \<open>video_mem\<close>; \<open>lib.c\<close>, lines 1 to 544;
  \<^item> \<open>I8259\<close>, \<open>Rtc\<close>: \<open>pic\<close> and \<open>rtc\<close>; \<open>i8259.c\<close> and \<open>rtc.c\<close>;
  \<^item> \<open>Keyboard\<close>: \<open>keyboard\<close>, the modifier keys and the line buffers; \<open>keyboard.c\<close>;
  \<^item> \<open>Filesys\<close>, \<open>Directory\<close>: \<open>directory\<close>, the address of the file system image and the position of
    the directory; \<open>filesys.c\<close>;
  \<^item> \<open>Process\<close>, \<open>Sys_Calls\<close>, \<open>Exec\<close>: \<open>process\<close>, the control blocks, the slots, the stack tops of the
    terminals, the entries of the page directory, the registers that the code saves; \<open>sys_calls.c\<close>;
  \<^item> \<open>Scheduler\<close>: \<open>scheduler\<close>, the flags of the timer interrupt; \<open>scheduler.c\<close>;
  \<^item> \<open>Paging\<close>: \<open>paging\<close>, the first page table and the control registers; \<open>paging.c\<close>;
  \<^item> \<open>Descriptors\<close>: \<open>descriptors\<close>, the gates and the segment descriptors; \<open>idt.c\<close>, \<open>x86_desc.h\<close>;
  \<^item> \<open>Boot\<close>: \<open>kernel.c\<close>, with the structures of \<open>multiboot.h\<close>.
  \<open>Lib_Mem\<close> and \<open>Lib_String\<close> model the memory and string functions of \<open>lib.c\<close> as functions on the
  memory, and \<open>Printf\<close> its \<open>printf\<close> and \<open>printf2\<close>.

  \<^bold>\<open>The programs.\<close> A program is a function on the state of the machine and the interrupts that will
  come, put together from reads and writes of its memory and from system calls:
  \<^item> \<open>Syscall\<close>: the jump table \<open>system_calls_assembly\<close> of \<open>assembly_linkage.S\<close> with its range check, the
    flags that \<open>iret\<close> restores, the wrappers of \<open>ece391syscall.S\<close>, and the composition of calls
    (\<open>seq\<close>, \<open>reads\<close>, \<open>computes\<close>, \<open>assigns\<close>);
  \<^item> \<open>User_Lib\<close>: the string library \<open>ece391support.c\<close>;
  \<^item> \<open>User_Programs\<close>: \<open>testprint\<close>, \<open>hello\<close>, \<open>ls\<close>, \<open>cat\<close>, \<open>counter\<close>, the shell and \<open>grep\<close>; the run of a child
    program is a parameter of the shell, the addresses of literals and local arrays are parameters
    of all;
  \<^item> \<open>Syserr\<close>: the eight tests of \<open>ece391syserr.c\<close>.

  \<^bold>\<open>Conventions.\<close> Machine integers that wrap are words; \<open>int32_t\<close> variables whose range the
  code checks are \<open>int\<close>, converted by \<open>sint\<close> and \<open>of_int\<close> where the source mixes them. A function that
  may not return, because a loop ends only on a byte of memory, is a \<open>partial_function (option)\<close>, and
  its lemmas show that it returns. \<open>outcome\<close> distinguishes a result from a jump through a null pointer,
  and \<open>control\<close> distinguishes the ways in which \<open>execute\<close>, \<open>halt\<close> and the timer interrupt leave: by
  returning, by entering a program, by resuming the frame that a register names. A blocking read is a
  recursion over the list of interrupts that arrive: \<open>None\<close> and \<open>Blocked\<close> mean that it still waits when
  the list is used up. The command that \<open>execute\<close> reads, the strings and the arguments of \<open>printf\<close> lie
  in memory at addresses that are parameters.

  \<^bold>\<open>What the lemmas show.\<close>
  \<^item> \<open>Lib_Mem\<close>, \<open>Lib_String\<close>: the assembly loops compute what their C interfaces promise; \<open>itoa\<close> can be
    read back.
  \<^item> \<open>Console_Laws\<close>: the device of \<open>putc\<close> and that of \<open>putc2\<close> implement a terminal of 25 lines; the
    locale \<open>char_device\<close> collects what the printing functions need, \<open>Printf_Laws\<close> and \<open>Printf_Spec\<close>
    prove them once for both devices, against a specification of formats.
  \<^item> \<open>Filesys_Laws\<close>, \<open>Directory\<close>: reads and look-ups against the image as lists of bytes and entries.
  \<^item> \<open>Keyboard_Laws\<close>: the handler keeps its buffers in bounds for every scan code and implements a
    line editor; a waiting read delivers the line.
  \<^item> \<open>Process_Laws\<close>, \<open>Sys_Calls_Laws\<close>, \<open>Exec_Laws\<close>, \<open>Halt_Laws\<close>, \<open>Lifecycle\<close>: the process table refines
    three stacks of process numbers (\<open>proc_view\<close>); \<open>execute\<close> pushes and \<open>halt\<close> pops, and what a parent
    had is restored to it; descriptors are allocated like a finite map.
  \<^item> \<open>Scheduler_Laws\<close>: one timer interrupt establishes the consistency of page, task state and output
    page; the rotation is fair; a process that was preempted finds its memory unchanged.
  \<^item> \<open>Paging_Laws\<close>, \<open>Kernel_Frames\<close>, \<open>Kernel_Steps\<close>: \<open>translate\<close> is the walk of the processor through the
    tables; \<open>kernel_step\<close> is a transition relation of the running machine, with the interrupts, the
    system calls on buffers of the calling program, and the program itself; in every state that it
    reaches user mode reaches the frame of the process that runs and the text pages, and nothing
    else. The relation leaves out three cases, which its text names, where the code breaks its own
    process table, and programs that pass pointers of the kernel to \<open>read\<close> and \<open>getargs\<close>.
  \<^item> \<open>Descriptors_Laws\<close>, \<open>Boot_Laws\<close>, \<open>Boot_Entry\<close>: the words that the processor reads from the
    descriptors mean what the fields say, the boot ends for every module list and memory map that
    ends, and establishes what the rest relies on.
  \<^item> \<open>Boot_Shells\<close>: the first interrupts of the timer load and enter the three shells.
  \<^item> \<open>User_Laws\<close>, \<open>User_Programs_Laws\<close>: what a program on the displayed terminal can rely on when it
    calls the kernel (\<open>user_env\<close>, \<open>user_process\<close>), and \<open>ls\<close>; \<open>Cat_Laws\<close>: \<open>cat\<close>; \<open>Syserr_Laws\<close>: the error
    tests pass; \<open>Typing_Laws\<close>, \<open>Shell_Laws\<close>: from the keys that are typed to the line that a program
    reads, \<open>hello\<close>, and the shell that enters the program which the line names.

  \<^bold>\<open>Bounds.\<close> \<open>find_fd\<close> and \<open>find_slot\<close> take the number of entries left, 6 of each, as the loops of the
  source count them; \<open>print_bytes\<close> the 16 bytes of its loop. No other definition has fuel.

  \<^bold>\<open>Kernel data and bytes.\<close> Process blocks, page tables and line buffers are fields of the state, apart
  from the bytes of \<open>mem\<close>. The kernel does not test the pointers that programs give to \<open>read\<close> and
  \<open>getargs\<close>, so a hostile program can make it overwrite them, which the model does not show: the laws
  on these calls are for buffers in the memory of the program, and the definitions describe the code
  for such buffers. In the same way \<open>print_withoutnull\<close> puts its copy of the buffer on the 8 KB
  kernel stack, which has no end in the model: its laws are for requests that fit.

  \<^bold>\<open>Not modelled.\<close> The assembly that saves registers, and the static tables; the test routines of
  \<open>tests.c\<close>; the programs \<open>pingpong\<close>, \<open>sigtest\<close> and \<open>fish\<close>; the emulation of the system calls on Linux. The
  processor is modelled as far as the code relies on it: no caches, a translation buffer that
  \<open>flush_tlb\<close> empties by swapping the memory of the program page, and no interrupts inside handlers,
  except where the code waits for them.
\<close>

end
